theory Spec2Isabelle
  imports Complex_Main "HOL-Library.Word" "HOL-Library.Sublist" "HOL-Library.Log_Nat"
begin

section \<open>JavaScript strings\<close>

text \<open>
  A JavaScript string is a sequence of UTF-16 code units. Every glyph the sources test
  for lies in the Basic Multilingual Plane, so one glyph is one code unit. ASCII
  literals of the sources are written \<open>js ''...''\<close>.
\<close>

type_synonym jstring = "16 word list"

definition js :: "string \<Rightarrow> jstring" where
  "js s = map (\<lambda>c. of_nat (of_char c)) s"

text \<open>The characters removed by \<open>String.prototype.trim\<close> and matched by \<open>\s\<close>:
  ECMAScript WhiteSpace and LineTerminator.\<close>

definition isWhiteSpace :: "16 word \<Rightarrow> bool" where
  "isWhiteSpace c \<longleftrightarrow> c \<in> set [0x09, 0x0A, 0x0B, 0x0C, 0x0D, 0x20, 0xA0, 0x1680,
     0x2000, 0x2001, 0x2002, 0x2003, 0x2004, 0x2005, 0x2006, 0x2007, 0x2008, 0x2009, 0x200A,
     0x2028, 0x2029, 0x202F, 0x205F, 0x3000, 0xFEFF]"

definition trim :: "jstring \<Rightarrow> jstring" where
  "trim s = rev (dropWhile isWhiteSpace (rev (dropWhile isWhiteSpace s)))"

text \<open>\<open>s.split(sep)\<close> for a one-character separator: the empty string gives one empty piece.\<close>

fun split :: "16 word \<Rightarrow> jstring \<Rightarrow> jstring list" where
  "split sep [] = [[]]"
| "split sep (c # cs) =
     (if c = sep then [] # split sep cs
      else (case split sep cs of [] \<Rightarrow> [[c]] | l # ls \<Rightarrow> (c # l) # ls))"

text \<open>\<open>xs.join(sep)\<close> on an array of strings.\<close>

fun join :: "jstring \<Rightarrow> jstring list \<Rightarrow> jstring" where
  "join sep [] = []"
| "join sep [x] = x"
| "join sep (x # y # ys) = x @ sep @ join sep (y # ys)"

text \<open>\<open>s.includes(t)\<close>: \<open>t\<close> occurs in \<open>s\<close> as a contiguous run.\<close>

fun startsWith :: "jstring \<Rightarrow> jstring \<Rightarrow> bool" where
  "startsWith s [] = True"
| "startsWith [] (p # ps) = False"
| "startsWith (c # cs) (p # ps) = (c = p \<and> startsWith cs ps)"

fun includes_str :: "jstring \<Rightarrow> jstring \<Rightarrow> bool" where
  "includes_str [] t = startsWith [] t"
| "includes_str (c # cs) t = (startsWith (c # cs) t \<or> includes_str cs t)"

text \<open>Decimal numerals: reading one, and writing one.\<close>

definition digit :: "16 word \<Rightarrow> bool" where
  "digit c \<longleftrightarrow> 0x30 \<le> c \<and> c \<le> 0x39"

definition decimal_nat :: "jstring \<Rightarrow> nat" where
  "decimal_nat ds = foldl (\<lambda>n c. 10 * n + unat (c - 0x30)) 0 ds"

function show_nat :: "nat \<Rightarrow> string" where
  "show_nat n =
     (if n < 10 then [char_of (48 + n)] else show_nat (n div 10) @ [char_of (48 + n mod 10)])"
  by pat_completeness auto
termination
  by (relation "measure id") auto

definition show_int :: "int \<Rightarrow> string" where
  "show_int n = (if n < 0 then CHR ''-'' # show_nat (nat (- n)) else show_nat (nat n))"

section \<open>Regular expressions of the sources\<close>

text \<open>
  The regular expressions used by the sources are sequences of single-character classes
  with the quantifiers \<open>?\<close>, \<open>*\<close>, \<open>+\<close> (greedy) and \<open>*?\<close> (lazy), and at most one capture
  group. \<open>rx_match\<close> is the backtracking matcher of ECMAScript on such a sequence, anchored
  at the start of its input: it returns the text of the capture group and the input left
  after the match, trying the alternatives in ECMAScript's priority order.
\<close>

datatype rx =
    One "16 word \<Rightarrow> bool"
  | Opt "16 word \<Rightarrow> bool"
  | Star "16 word \<Rightarrow> bool"
  | Plus "16 word \<Rightarrow> bool"
  | LazyStar "16 word \<Rightarrow> bool"
  | GroupOpen
  | GroupClose

definition record_char :: "bool \<Rightarrow> jstring \<Rightarrow> 16 word \<Rightarrow> jstring" where
  "record_char recording cap c = (if recording then cap @ [c] else cap)"

function rx_match :: "rx list \<Rightarrow> jstring \<Rightarrow> bool \<Rightarrow> jstring \<Rightarrow> (jstring \<times> jstring) option" where
  "rx_match [] s recording cap = Some (cap, s)"
| "rx_match (GroupOpen # r) s recording cap = rx_match r s True []"
| "rx_match (GroupClose # r) s recording cap = rx_match r s False cap"
| "rx_match (One p # r) [] recording cap = None"
| "rx_match (One p # r) (c # cs) recording cap =
     (if p c then rx_match r cs recording (record_char recording cap c) else None)"
| "rx_match (Opt p # r) [] recording cap = rx_match r [] recording cap"
| "rx_match (Opt p # r) (c # cs) recording cap =
     (if p c then
        (case rx_match r cs recording (record_char recording cap c) of
           Some m \<Rightarrow> Some m
         | None \<Rightarrow> rx_match r (c # cs) recording cap)
      else rx_match r (c # cs) recording cap)"
| "rx_match (Star p # r) [] recording cap = rx_match r [] recording cap"
| "rx_match (Star p # r) (c # cs) recording cap =
     (if p c then
        (case rx_match (Star p # r) cs recording (record_char recording cap c) of
           Some m \<Rightarrow> Some m
         | None \<Rightarrow> rx_match r (c # cs) recording cap)
      else rx_match r (c # cs) recording cap)"
| "rx_match (Plus p # r) [] recording cap = None"
| "rx_match (Plus p # r) (c # cs) recording cap =
     (if p c then rx_match (Star p # r) cs recording (record_char recording cap c) else None)"
| "rx_match (LazyStar p # r) [] recording cap = rx_match r [] recording cap"
| "rx_match (LazyStar p # r) (c # cs) recording cap =
     (case rx_match r (c # cs) recording cap of
        Some m \<Rightarrow> Some m
      | None \<Rightarrow>
          (if p c then rx_match (LazyStar p # r) cs recording (record_char recording cap c)
           else None))"
  by pat_completeness auto
termination
  by (relation "measures [\<lambda>(r, s, recording, cap). length s, \<lambda>(r, s, recording, cap). length r]") auto

text \<open>\<open>s.match(re)\<close> and \<open>re.test(s)\<close> without the \<open>g\<close> flag: the leftmost position where
  the expression matches; \<open>rx_search\<close> returns the capture group of that match.\<close>

fun rx_search :: "rx list \<Rightarrow> jstring \<Rightarrow> jstring option" where
  "rx_search r [] = map_option fst (rx_match r [] False [])"
| "rx_search r (c # cs) =
     (case rx_match r (c # cs) False [] of
        Some m \<Rightarrow> Some (fst m)
      | None \<Rightarrow> rx_search r cs)"

definition rx_test :: "rx list \<Rightarrow> jstring \<Rightarrow> bool" where
  "rx_test r s \<longleftrightarrow> rx_search r s \<noteq> None"

text \<open>
  \<open>s.replace(re, f)\<close> with the \<open>g\<close> flag, where the replacement \<open>f\<close> is a function of
  the capture group. None of the expressions of the sources matches the empty string; a
  match that consumes nothing is treated as no match at that position.
\<close>

function rx_replace_all :: "rx list \<Rightarrow> (jstring \<Rightarrow> jstring) \<Rightarrow> jstring \<Rightarrow> jstring" where
  "rx_replace_all r f [] = []"
| "rx_replace_all r f (c # cs) =
     (case rx_match r (c # cs) False [] of
        Some (cap, rest) \<Rightarrow>
          (if length rest \<le> length cs then f cap @ rx_replace_all r f rest
           else c # rx_replace_all r f cs)
      | None \<Rightarrow> c # rx_replace_all r f cs)"
  by pat_completeness auto
termination
  by (relation "measure (\<lambda>(r, f, s). length s)") auto

definition is_char :: "16 word \<Rightarrow> 16 word \<Rightarrow> bool" where
  "is_char a c \<longleftrightarrow> c = a"

definition one_of :: "16 word list \<Rightarrow> 16 word \<Rightarrow> bool" where
  "one_of cls c \<longleftrightarrow> c \<in> set cls"

definition none_of :: "16 word list \<Rightarrow> 16 word \<Rightarrow> bool" where
  "none_of cls c \<longleftrightarrow> c \<notin> set cls"

text \<open>A literal string inside a regular expression.\<close>

definition lit :: "string \<Rightarrow> rx list" where
  "lit s = map (\<lambda>c. One (is_char c)) (js s)"

section \<open>Diagram detector (markdownParser.js)\<close>

text \<open>The character class of \<open>boxChars\<close>: light and double box-drawing lines, corners and
  junctions, the four triangles, and the circle and square markers.\<close>

definition boxChars :: "16 word list" where
  "boxChars = [0x2500, 0x2502, 0x250C, 0x2510, 0x2514, 0x2518, 0x251C, 0x2524, 0x252C,
     0x2534, 0x253C, 0x2550, 0x2551, 0x2554, 0x2557, 0x255A, 0x255D, 0x2560, 0x2563,
     0x2566, 0x2569, 0x256C, 0x25BC, 0x25B2, 0x25C4, 0x25BA, 0x25CF, 0x25CB, 0x25A0,
     0x25A1, 0x25AA, 0x25AB]"

definition isAsciiDiagram :: "jstring \<Rightarrow> bool" where
  "isAsciiDiagram code = rx_test [One (one_of boxChars)] code"


section \<open>JavaScript values\<close>

text \<open>
  Values decoded from the AI backend's JSON reply, object literals of the sources, and the
  objects built with the constructors of the docx library (\<open>JNew ''Paragraph'' options\<close>
  stands for \<open>new Paragraph(options)\<close>; the library is external and its constructors
  are kept as data). \<open>JLib\<close> is a constant or a constant call of that library, kept by
  its source text (\<open>JLib ''ShadingType.SOLID''\<close>). Numbers are the integers; \<open>JNaN\<close> is
  the not-a-number value. An object is the list of its own properties in insertion order.
\<close>

datatype jv =
    JUndefined
  | JNull
  | JBool bool
  | JNum int
  | JNaN
  | JStr jstring
  | JArr "jv list"
  | JObj "(string \<times> jv) list"
  | JNew string jv
  | JLib string

text \<open>What a \<open>throw\<close> carries. \<open>TypeError\<close> is the error of the language itself (a
  property read on \<open>undefined\<close> or \<open>null\<close>, a call of something that is no function).
  \<open>Failure\<close> is an error object raised by the AI client or by \<open>JSON.parse\<close>: the fields
  the sources read from it, and the text \<open>String(error)\<close> gives.\<close>

record js_error =
  status :: "int option"
  response_status :: "int option"
  message :: "jstring option"
  as_string :: jstring

datatype exn = TypeError | Failure js_error

text \<open>Reading a property \<open>v.k\<close>: a TypeError on \<open>undefined\<close> and \<open>null\<close>, \<open>undefined\<close>
  for a property the value does not have. The sources read no property of a docx object.\<close>

fun get_prop :: "jv \<Rightarrow> string \<Rightarrow> exn + jv" where
  "get_prop JUndefined k = Inl TypeError"
| "get_prop JNull k = Inl TypeError"
| "get_prop (JObj ps) k = Inr (case map_of ps k of Some v \<Rightarrow> v | None \<Rightarrow> JUndefined)"
| "get_prop (JArr xs) k = Inr (if k = ''length'' then JNum (int (length xs)) else JUndefined)"
| "get_prop (JStr s) k = Inr (if k = ''length'' then JNum (int (length s)) else JUndefined)"
| "get_prop v k = Inr JUndefined"

section \<open>JavaScript operators on values\<close>

text \<open>\<open>String(v)\<close>, as string concatenation and template literals apply it.\<close>

fun to_string :: "jv \<Rightarrow> jstring" where
  "to_string JUndefined = js ''undefined''"
| "to_string JNull = js ''null''"
| "to_string (JBool b) = (if b then js ''true'' else js ''false'')"
| "to_string (JNum n) = js (show_int n)"
| "to_string JNaN = js ''NaN''"
| "to_string (JStr s) = s"
| "to_string (JArr xs) =
     join (js '','')
       (map (\<lambda>x. case x of JUndefined \<Rightarrow> [] | JNull \<Rightarrow> [] | _ \<Rightarrow> to_string x) xs)"
| "to_string (JObj ps) = js ''[object Object]''"
| "to_string (JNew c opts) = js ''[object Object]''"
| "to_string (JLib name) = js name"

text \<open>Truthiness, and \<open>a || b\<close>.\<close>

fun truthy :: "jv \<Rightarrow> bool" where
  "truthy JUndefined = False"
| "truthy JNull = False"
| "truthy (JBool b) = b"
| "truthy (JNum n) = (n \<noteq> 0)"
| "truthy JNaN = False"
| "truthy (JStr s) = (s \<noteq> [])"
| "truthy v = True"

definition or_else :: "jv \<Rightarrow> jv \<Rightarrow> jv" where
  "or_else a b = (if truthy a then a else b)"

text \<open>\<open>v > 0\<close>. A string is read as a decimal integer with an optional sign, white space
  around it allowed; any other text counts as not-a-number, which is not greater than 0.\<close>

definition string_to_number :: "jstring \<Rightarrow> int option" where
  "string_to_number s =
     (let t = trim s
      in case t of
           [] \<Rightarrow> Some 0
         | c # r \<Rightarrow>
             if c = 0x2D \<and> r \<noteq> [] \<and> list_all digit r then Some (- int (decimal_nat r))
             else if c = 0x2B \<and> r \<noteq> [] \<and> list_all digit r then Some (int (decimal_nat r))
             else if list_all digit t then Some (int (decimal_nat t))
             else None)"

fun to_number :: "jv \<Rightarrow> int option" where
  "to_number JUndefined = None"
| "to_number JNull = Some 0"
| "to_number (JBool b) = Some (if b then 1 else 0)"
| "to_number (JNum n) = Some n"
| "to_number JNaN = None"
| "to_number v = string_to_number (to_string v)"

definition greater_than_zero :: "jv \<Rightarrow> bool" where
  "greater_than_zero v = (case to_number v of Some n \<Rightarrow> 0 < n | None \<Rightarrow> False)"

text \<open>\<open>v * 2\<close> where the sources use it: on a number, or on \<open>undefined\<close>.\<close>

definition times_two :: "jv \<Rightarrow> jv" where
  "times_two v = (case to_number v of Some n \<Rightarrow> JNum (n * 2) | None \<Rightarrow> JNaN)"

text \<open>\<open>object[key]\<close> on an object literal of the sources: the key is converted to a string.\<close>

definition lookup_key :: "(string \<times> jv) list \<Rightarrow> jv \<Rightarrow> jv" where
  "lookup_key table key =
     (case find (\<lambda>p. js (fst p) = to_string key) table of
        Some p \<Rightarrow> snd p
      | None \<Rightarrow> JUndefined)"

text \<open>Sequencing of steps that may throw.\<close>

definition and_then :: "exn + 'a \<Rightarrow> ('a \<Rightarrow> exn + 'b) \<Rightarrow> exn + 'b" where
  "and_then r f = (case r of Inl e \<Rightarrow> Inl e | Inr x \<Rightarrow> f x)"

fun map_exn :: "('a \<Rightarrow> exn + 'b) \<Rightarrow> 'a list \<Rightarrow> exn + 'b list" where
  "map_exn f [] = Inr []"
| "map_exn f (x # xs) =
     (case f x of
        Inl e \<Rightarrow> Inl e
      | Inr y \<Rightarrow> (case map_exn f xs of Inl e \<Rightarrow> Inl e | Inr ys \<Rightarrow> Inr (y # ys)))"

text \<open>\<open>v.map(f)\<close>: only an array has the method.\<close>

definition array_map :: "jv \<Rightarrow> (jv \<Rightarrow> exn + jv) \<Rightarrow> exn + jv list" where
  "array_map v f = (case v of JArr xs \<Rightarrow> map_exn f xs | _ \<Rightarrow> Inl TypeError)"

text \<open>\<open>for (const x of v)\<close>: the elements of an array, the code points of a string (a
  surrogate pair is one of them); any other value is not iterable.\<close>

fun code_points :: "jstring \<Rightarrow> jstring list" where
  "code_points [] = []"
| "code_points [c] = [[c]]"
| "code_points (c # d # r) =
     (if 0xD800 \<le> c \<and> c \<le> 0xDBFF \<and> 0xDC00 \<le> d \<and> d \<le> 0xDFFF
      then [c, d] # code_points r
      else [c] # code_points (d # r))"

definition iterate :: "jv \<Rightarrow> exn + jv list" where
  "iterate v =
     (case v of
        JArr xs \<Rightarrow> Inr xs
      | JStr s \<Rightarrow> Inr (map JStr (code_points s))
      | _ \<Rightarrow> Inl TypeError)"

text \<open>\<open>Array.isArray(v)\<close>\<close>

fun isArray :: "jv \<Rightarrow> bool" where
  "isArray (JArr xs) = True"
| "isArray v = False"

text \<open>\<open>v.split('\n')\<close>: only a string has the method.\<close>

definition split_lines :: "jv \<Rightarrow> exn + jstring list" where
  "split_lines v = (case v of JStr s \<Rightarrow> Inr (split 0x0A s) | _ \<Rightarrow> Inl TypeError)"

section \<open>Fallback diagram analyzer (geminiService.js)\<close>

definition frame_class :: "16 word list" where
  "frame_class = boxChars @ js ''[]''"

definition ascii_frame_class :: "16 word list" where
  "ascii_frame_class = js ''-|+*''"

definition clean_line :: "jstring \<Rightarrow> jstring" where
  "clean_line line =
     trim (rx_replace_all [One (one_of ascii_frame_class)] (\<lambda>_. [])
       (rx_replace_all [One (one_of frame_class)] (\<lambda>_. []) line))"

text \<open>The loop \<open>for (const line of lines)\<close>, pushing onto \<open>textContent\<close>.\<close>

fun collect_text :: "jstring list \<Rightarrow> jstring list \<Rightarrow> jstring list" where
  "collect_text [] textContent = textContent"
| "collect_text (line # lines) textContent =
     (let cleaned = clean_line line
      in if length cleaned > 2 then collect_text lines (textContent @ [cleaned])
         else collect_text lines textContent)"

text \<open>\<open>[...new Set(xs)]\<close>: a Set keeps each value once, in insertion order.\<close>

fun set_add :: "'a list \<Rightarrow> 'a \<Rightarrow> 'a list" where
  "set_add seen x = (if x \<in> set seen then seen else seen @ [x])"

definition array_of_set :: "'a list \<Rightarrow> 'a list" where
  "array_of_set xs = foldl set_add [] xs"

definition uniqueContent :: "jstring \<Rightarrow> jstring list" where
  "uniqueContent asciiDiagram =
     filter (\<lambda>t. length t > 2)
       (array_of_set (collect_text (split 0x0A asciiDiagram) []))"

definition fallbackDiagramConversion :: "jstring \<Rightarrow> jv" where
  "fallbackDiagramConversion asciiDiagram =
     JObj [
       (''success'', JBool True),
       (''type'', JStr (js ''architecture'')),
       (''title'', JStr (js ''System Architecture Diagram'')),
       (''description'', JStr (js ''Diagram converted from ASCII representation'')),
       (''components'',
          JArr (map (\<lambda>text. JObj [(''name'', JStr text), (''description'', JStr [])])
                 (take 20 (uniqueContent asciiDiagram)))),
       (''connections'', JArr []),
       (''summary'', JStr (join [0x0A, 0x2022, 0x20] (uniqueContent asciiDiagram)))]"

section \<open>JavaScript numbers\<close>

text \<open>
  A Number is an IEEE 754 binary64 value. A finite one is kept as the rational it
  denotes; the sign of zero is not kept. \<open>binary64 x\<close> is the Number value for the real
  \<open>x\<close>: the nearest value with a 53-bit significand and an exponent of the unit in the
  last place between -1074 and 971, ties going to the even significand, and an infinity
  from \<open>2^1024 - 2^970\<close> on.
\<close>

datatype number = Finite rat | PosInfinity | NegInfinity | NaN

definition round_half_even :: "rat \<Rightarrow> int" where
  "round_half_even q =
     (let f = \<lfloor>q\<rfloor>; d = q - of_int f
      in if d < 1 / 2 then f
         else if 1 / 2 < d then f + 1
         else if even f then f else f + 1)"

text \<open>The integer \<open>k\<close> with \<open>2^k \<le> x < 2^(k+1)\<close>, for a positive \<open>x\<close>.\<close>

definition floor_log2 :: "rat \<Rightarrow> int" where
  "floor_log2 x =
     (let (p, q) = quotient_of x; k = bitlen p - bitlen q
      in if 2 powi k \<le> x then k else k - 1)"

definition ulp_exponent :: "rat \<Rightarrow> int" where
  "ulp_exponent x = min 971 (max (- 1074) (floor_log2 x - 52))"

text \<open>Rounding of a non-negative real to the grid of its binade, with no upper bound.\<close>

definition nearest :: "rat \<Rightarrow> rat" where
  "nearest x = of_int (round_half_even (x / 2 powi ulp_exponent x)) * 2 powi ulp_exponent x"

text \<open>What rounds to \<open>2^1024\<close> or more is an infinity.\<close>

definition overflow_bound :: rat where
  "overflow_bound = 2 ^ 1024"

definition binary64 :: "rat \<Rightarrow> number" where
  "binary64 x =
     (if x = 0 then Finite 0
      else let y = nearest \<bar>x\<bar>
           in if overflow_bound \<le> y then (if 0 < x then PosInfinity else NegInfinity)
              else Finite (if 0 < x then y else - y))"

text \<open>The operators \<open>*\<close> and \<open>+\<close> on two Numbers.\<close>

fun multiply :: "number \<Rightarrow> number \<Rightarrow> number" where
  "multiply (Finite a) (Finite b) = binary64 (a * b)"
| "multiply NaN y = NaN"
| "multiply x NaN = NaN"
| "multiply (Finite a) y =
     (if a = 0 then NaN else if (0 < a) = (y = PosInfinity) then PosInfinity else NegInfinity)"
| "multiply x (Finite b) =
     (if b = 0 then NaN else if (0 < b) = (x = PosInfinity) then PosInfinity else NegInfinity)"
| "multiply x y = (if x = y then PosInfinity else NegInfinity)"

fun add :: "number \<Rightarrow> number \<Rightarrow> number" where
  "add (Finite a) (Finite b) = binary64 (a + b)"
| "add NaN y = NaN"
| "add x NaN = NaN"
| "add (Finite a) y = y"
| "add x (Finite b) = x"
| "add x y = (if x = y then x else NaN)"

text \<open>\<open>Math.ceil\<close>, \<open>Math.min\<close> of two Numbers, \<open>Math.pow(2, n)\<close> for a natural \<open>n\<close>, and
  the truth value of a Number.\<close>

fun Math_ceil :: "number \<Rightarrow> number" where
  "Math_ceil (Finite a) = Finite (of_int \<lceil>a\<rceil>)"
| "Math_ceil x = x"

fun Math_min :: "number \<Rightarrow> number \<Rightarrow> number" where
  "Math_min NaN y = NaN"
| "Math_min x NaN = NaN"
| "Math_min NegInfinity y = NegInfinity"
| "Math_min x NegInfinity = NegInfinity"
| "Math_min PosInfinity y = y"
| "Math_min x PosInfinity = x"
| "Math_min (Finite a) (Finite b) = Finite (min a b)"

definition Math_pow_2 :: "nat \<Rightarrow> number" where
  "Math_pow_2 n = binary64 (2 ^ n)"

definition truthy_number :: "number \<Rightarrow> bool" where
  "truthy_number x \<longleftrightarrow> x \<noteq> Finite 0 \<and> x \<noteq> NaN"

section \<open>Retry and backoff (geminiService.js)\<close>

text \<open>\<open>RETRY_CONFIG\<close>. Delays are milliseconds.\<close>

definition maxRetries :: nat where
  "maxRetries = 2"

definition baseDelay :: number where
  "baseDelay = Finite 2000"

definition maxDelay :: number where
  "maxDelay = Finite 20000"

text \<open>Classes of the two expressions of \<open>extractRetryDelay\<close>. With the \<open>i\<close> flag a
  letter of the pattern matches its two ASCII cases (for a pattern without the \<open>u\<close> flag,
  no character outside ASCII is folded onto an ASCII letter).\<close>

definition ascii_upper :: "16 word \<Rightarrow> 16 word" where
  "ascii_upper c = (if 0x61 \<le> c \<and> c \<le> 0x7A then c - 0x20 else c)"

definition is_char_ci :: "16 word \<Rightarrow> 16 word \<Rightarrow> bool" where
  "is_char_ci a c \<longleftrightarrow> ascii_upper c = ascii_upper a"

definition lit_ci :: "string \<Rightarrow> rx list" where
  "lit_ci s = map (\<lambda>c. One (is_char_ci c)) (js s)"

definition any_char :: "16 word \<Rightarrow> bool" where
  "any_char c \<longleftrightarrow> c \<notin> set [0x0A, 0x0D, 0x2028, 0x2029]"

text \<open>\<open>/retry.*?(\d+\.?\d*)\s*s/i\<close>\<close>

definition re_retry_seconds :: "rx list" where
  "re_retry_seconds =
     lit_ci ''retry'' @
     [LazyStar any_char, GroupOpen, Plus digit, Opt (is_char 0x2E), Star digit, GroupClose,
      Star isWhiteSpace, One (is_char_ci 0x73)]"

text \<open>\<open>/retryDelay.*?(\d+)/i\<close>\<close>

definition re_retryDelay :: "rx list" where
  "re_retryDelay = lit_ci ''retryDelay'' @ [LazyStar any_char, GroupOpen, Plus digit, GroupClose]"

text \<open>\<open>parseFloat\<close> on the texts the capture groups above can hold: decimal digits,
  then possibly a point and further digits. The result is the Number value for the
  decimal the text spells.\<close>

definition decimal_value :: "jstring \<Rightarrow> rat" where
  "decimal_value s =
     (let whole = takeWhile digit s;
          frac = (case dropWhile digit s of
                    [] \<Rightarrow> []
                  | c # rest \<Rightarrow> if c = 0x2E then takeWhile digit rest else [])
      in of_nat (decimal_nat whole) + of_nat (decimal_nat frac) / 10 ^ length frac)"

definition parseFloat :: "jstring \<Rightarrow> number" where
  "parseFloat s = binary64 (decimal_value s)"

text \<open>\<open>error?.message || String(error)\<close>; \<open>lastError\<close> is \<open>null\<close> before the first failure.\<close>

definition error_text :: "js_error option \<Rightarrow> jstring" where
  "error_text error =
     (case error of
        None \<Rightarrow> js ''null''
      | Some e \<Rightarrow>
          (case message e of
             Some m \<Rightarrow> if m \<noteq> [] then m else as_string e
           | None \<Rightarrow> as_string e))"

text \<open>The variable \<open>match\<close> of \<open>extractRetryDelay\<close>, reduced to its capture group.\<close>

definition retry_match :: "jstring \<Rightarrow> jstring option" where
  "retry_match msg =
     (case rx_search re_retry_seconds msg of
        Some cap \<Rightarrow> Some cap
      | None \<Rightarrow> rx_search re_retryDelay msg)"

text \<open>\<open>Math.ceil(parseFloat(match[1]) * 1000) + 500\<close>, or \<open>null\<close>.\<close>

definition extractRetryDelay :: "js_error option \<Rightarrow> number option" where
  "extractRetryDelay error =
     (case retry_match (error_text error) of
        Some cap \<Rightarrow> Some (add (Math_ceil (multiply (parseFloat cap) (Finite 1000))) (Finite 500))
      | None \<Rightarrow> None)"

section \<open>The AI client and its environment\<close>

text \<open>
  A call of \<open>model.generateContent(prompt)\<close>. The prompts are fixed instruction texts
  around the diagram or the document; a call is recorded by its kind and the embedded text.
\<close>

datatype ai_call = DiagramPrompt jstring | DocumentPrompt jstring

text \<open>A token of markdown-it: the fields \<open>type\<close>, \<open>tag\<close>, \<open>content\<close>, \<open>info\<close> and
  \<open>children\<close>, which the converter reads. \<open>children\<close> is \<open>null\<close> on every token that is
  not \<open>inline\<close>.\<close>

datatype token =
  Token (tok_type: string) (tok_tag: jstring) (tok_content: jstring) (tok_info: jstring)
        (tok_children: "token list option")

text \<open>
  What the program does not compute itself. \<open>generateContent h k call\<close> is the outcome of
  the \<open>k\<close>-th call of the backend (counted from 0): the text of the reply, or what it
  throws. \<open>JSON_parse\<close> is \<open>JSON.parse\<close>, \<open>Math_random h k\<close> the \<open>k\<close>-th draw of
  \<open>Math.random()\<close>, \<open>markdown_parse\<close> is \<open>mdParser.parse\<close> of markdown-it, \<open>toUpperCase\<close> is
  \<open>String.prototype.toUpperCase\<close>.
\<close>

record host =
  generateContent :: "nat \<Rightarrow> ai_call \<Rightarrow> js_error + jstring"
  JSON_parse :: "jstring \<Rightarrow> js_error + jv"
  Math_random :: "nat \<Rightarrow> rat"
  markdown_parse :: "jstring \<Rightarrow> token list"
  toUpperCase :: "jstring \<Rightarrow> jstring"

text \<open>What a run leaves behind: the backend calls made, the delays slept, the number of
  random draws taken.\<close>

record world =
  calls :: "ai_call list"
  sleeps :: "number list"
  draws :: nat

text \<open>The module variables of geminiService.js: whether \<open>model\<close> is set, and \<open>useGemini\<close>.\<close>

record gemini =
  has_model :: bool
  useGemini :: bool

definition disableGemini :: "gemini \<Rightarrow> gemini" where
  "disableGemini g = g\<lparr>useGemini := False\<rparr>"

definition enableGemini :: "gemini \<Rightarrow> gemini" where
  "enableGemini g = (if has_model g then g\<lparr>useGemini := True\<rparr> else g)"

definition isGeminiAvailable :: "gemini \<Rightarrow> bool" where
  "isGeminiAvailable g \<longleftrightarrow> has_model g \<and> useGemini g"

text \<open>\<open>delay * (0.8 + Math.random() * 0.4)\<close>; the draw is a Number \<open>r\<close> with \<open>0 \<le> r < 1\<close>.\<close>

definition jittered :: "number \<Rightarrow> rat \<Rightarrow> number" where
  "jittered delay r =
     multiply delay (add (binary64 (8 / 10)) (multiply (Finite r) (binary64 (4 / 10))))"

definition getRetryDelay :: "host \<Rightarrow> nat \<Rightarrow> number option \<Rightarrow> world \<Rightarrow> number \<times> world" where
  "getRetryDelay h attempt suggestedDelay w =
     (case suggestedDelay of
        Some d \<Rightarrow>
          if truthy_number d then (Math_min d maxDelay, w)
          else (jittered (Math_min (multiply baseDelay (Math_pow_2 attempt)) maxDelay)
                  (Math_random h (draws w)),
                w\<lparr>draws := draws w + 1\<rparr>)
      | None \<Rightarrow>
          (jittered (Math_min (multiply baseDelay (Math_pow_2 attempt)) maxDelay)
             (Math_random h (draws w)),
           w\<lparr>draws := draws w + 1\<rparr>))"

text \<open>The block \<open>if (attempt > 0) { ... await sleep(delay); }\<close> that opens each attempt of
  both wrappers.\<close>

definition retry_pause :: "host \<Rightarrow> nat \<Rightarrow> js_error option \<Rightarrow> world \<Rightarrow> world" where
  "retry_pause h attempt lastError w =
     (if attempt > 0 then
        (let suggestedDelay = extractRetryDelay lastError;
             (delay, w') = getRetryDelay h (attempt - 1) suggestedDelay w
         in w'\<lparr>sleeps := sleeps w' @ [delay]\<rparr>)
      else w)"

text \<open>\<open>text.replace(/```json\n?/g, '').replace(/```\n?/g, '').trim()\<close>\<close>

definition re_fence_json :: "rx list" where
  "re_fence_json = lit ''```json'' @ [Opt (is_char 0x0A)]"

definition re_fence :: "rx list" where
  "re_fence = lit ''```'' @ [Opt (is_char 0x0A)]"

definition strip_code_fences :: "jstring \<Rightarrow> jstring" where
  "strip_code_fences text =
     trim (rx_replace_all re_fence (\<lambda>_. []) (rx_replace_all re_fence_json (\<lambda>_. []) text))"

text \<open>The body of one attempt, the same in both wrappers: the call, \<open>response.text().trim()\<close>,
  the removal of code fences, \<open>JSON.parse\<close>. Whatever is thrown on the way reaches the
  wrapper's \<open>catch\<close>.\<close>

definition decode_reply :: "host \<Rightarrow> nat \<Rightarrow> ai_call \<Rightarrow> js_error + jv" where
  "decode_reply h k call =
     (case generateContent h k call of
        Inl error \<Rightarrow> Inl error
      | Inr text \<Rightarrow> JSON_parse h (strip_code_fences (trim text)))"

definition ai_attempt :: "host \<Rightarrow> ai_call \<Rightarrow> world \<Rightarrow> (js_error + jv) \<times> world" where
  "ai_attempt h call w = (decode_reply h (length (calls w)) call, w\<lparr>calls := calls w @ [call]\<rparr>)"

text \<open>\<open>error?.status || error?.response?.status || 'unknown'\<close>; \<open>None\<close> is \<open>'unknown'\<close>.\<close>

definition statusCode :: "js_error \<Rightarrow> int option" where
  "statusCode error =
     (case status error of
        Some s \<Rightarrow> if s \<noteq> 0 then Some s
                  else (case response_status error of
                          Some r \<Rightarrow> if r \<noteq> 0 then Some r else None
                        | None \<Rightarrow> None)
      | None \<Rightarrow> (case response_status error of
                   Some r \<Rightarrow> if r \<noteq> 0 then Some r else None
                 | None \<Rightarrow> None))"

text \<open>\<open>error.message?.includes(t)\<close>\<close>

definition message_includes :: "js_error \<Rightarrow> string \<Rightarrow> bool" where
  "message_includes error t =
     (case message error of Some m \<Rightarrow> includes_str m (js t) | None \<Rightarrow> False)"

text \<open>\<open>isRetryable\<close> in \<open>convertDiagramWithAI\<close>.\<close>

definition isRetryable_diagram :: "js_error \<Rightarrow> bool" where
  "isRetryable_diagram error \<longleftrightarrow>
     statusCode error = Some 404 \<or> statusCode error = Some 503 \<or> statusCode error = Some 429 \<or>
     message_includes error ''404'' \<or> message_includes error ''503'' \<or>
     message_includes error ''overloaded'' \<or> message_includes error ''temporarily''"

text \<open>\<open>isRetryable\<close> in \<open>parseDocumentWithAI\<close>.\<close>

definition isRetryable_document :: "js_error \<Rightarrow> bool" where
  "isRetryable_document error \<longleftrightarrow>
     message_includes error ''429'' \<or> message_includes error ''503'' \<or>
     message_includes error ''quota'' \<or> message_includes error ''overloaded'' \<or>
     message_includes error ''rate''"

text \<open>The own enumerable properties an object spread \<open>{...v}\<close> copies: those of an object,
  the indices of an array or of a string, none of any other value.\<close>

fun own_properties :: "jv \<Rightarrow> (string \<times> jv) list" where
  "own_properties (JObj ps) = ps"
| "own_properties (JArr xs) = zip (map show_nat [0..<length xs]) xs"
| "own_properties (JStr s) = zip (map show_nat [0..<length s]) (map (\<lambda>c. JStr [c]) s)"
| "own_properties v = []"

text \<open>Setting a property: an existing one keeps its place and takes the new value.\<close>

definition set_property :: "(string \<times> jv) list \<Rightarrow> string \<times> jv \<Rightarrow> (string \<times> jv) list" where
  "set_property ps kv =
     (if fst kv \<in> fst ` set ps then map (\<lambda>p. if fst p = fst kv then kv else p) ps
      else ps @ [kv])"

definition object_spread :: "(string \<times> jv) list \<Rightarrow> jv \<Rightarrow> (string \<times> jv) list" where
  "object_spread ps v = foldl set_property ps (own_properties v)"

section \<open>The two AI wrappers (geminiService.js)\<close>

text \<open>The loop \<open>for (let attempt = 0; attempt <= RETRY_CONFIG.maxRetries; attempt++)\<close> of
  \<open>convertDiagramWithAI\<close>, with the statement after it.\<close>

function convertDiagramWithAI_loop ::
  "host \<Rightarrow> jstring \<Rightarrow> nat \<Rightarrow> js_error option \<Rightarrow> world \<Rightarrow> jv \<times> world" where
  "convertDiagramWithAI_loop h asciiDiagram attempt lastError w =
     (if attempt \<le> maxRetries then
        (case ai_attempt h (DiagramPrompt asciiDiagram) (retry_pause h attempt lastError w) of
           (Inr parsed, w') \<Rightarrow> (JObj (object_spread [(''success'', JBool True)] parsed), w')
         | (Inl error, w') \<Rightarrow>
             if \<not> isRetryable_diagram error \<or> attempt \<ge> maxRetries
             then (fallbackDiagramConversion asciiDiagram, w')
             else convertDiagramWithAI_loop h asciiDiagram (attempt + 1) (Some error) w')
      else (fallbackDiagramConversion asciiDiagram, w))"
  by pat_completeness auto
termination
  by (relation "measure (\<lambda>(h, asciiDiagram, attempt, lastError, w). Suc maxRetries - attempt)") auto

definition convertDiagramWithAI :: "host \<Rightarrow> gemini \<Rightarrow> jstring \<Rightarrow> world \<Rightarrow> jv \<times> world" where
  "convertDiagramWithAI h g asciiDiagram w =
     (if \<not> has_model g \<or> \<not> useGemini g then (fallbackDiagramConversion asciiDiagram, w)
      else convertDiagramWithAI_loop h asciiDiagram 0 None w)"

text \<open>The loop of \<open>parseDocumentWithAI\<close>; \<open>JNull\<close> tells the caller to parse locally.\<close>

function parseDocumentWithAI_loop ::
  "host \<Rightarrow> jstring \<Rightarrow> nat \<Rightarrow> js_error option \<Rightarrow> world \<Rightarrow> jv \<times> world" where
  "parseDocumentWithAI_loop h markdown attempt lastError w =
     (if attempt \<le> maxRetries then
        (case ai_attempt h (DocumentPrompt markdown) (retry_pause h attempt lastError w) of
           (Inr parsed, w') \<Rightarrow> (parsed, w')
         | (Inl error, w') \<Rightarrow>
             if \<not> isRetryable_document error \<or> attempt \<ge> maxRetries
             then (JNull, w')
             else parseDocumentWithAI_loop h markdown (attempt + 1) (Some error) w')
      else (JNull, w))"
  by pat_completeness auto
termination
  by (relation "measure (\<lambda>(h, markdown, attempt, lastError, w). Suc maxRetries - attempt)") auto

definition parseDocumentWithAI :: "host \<Rightarrow> gemini \<Rightarrow> jstring \<Rightarrow> world \<Rightarrow> jv \<times> world" where
  "parseDocumentWithAI h g markdown w =
     (if \<not> has_model g \<or> \<not> useGemini g then (JNull, w)
      else parseDocumentWithAI_loop h markdown 0 None w)"

section \<open>Document renderer (docxConverter.js)\<close>

text \<open>The style table \<open>STYLES\<close>.\<close>

definition STYLES_fonts_heading :: jstring where "STYLES_fonts_heading = js ''Calibri''"
definition STYLES_fonts_body :: jstring where "STYLES_fonts_body = js ''Calibri''"
definition STYLES_fonts_code :: jstring where "STYLES_fonts_code = js ''Consolas''"

definition STYLES_sizes_h1 :: int where "STYLES_sizes_h1 = 28"
definition STYLES_sizes_h2 :: int where "STYLES_sizes_h2 = 24"
definition STYLES_sizes_h3 :: int where "STYLES_sizes_h3 = 20"
definition STYLES_sizes_h4 :: int where "STYLES_sizes_h4 = 18"
definition STYLES_sizes_h5 :: int where "STYLES_sizes_h5 = 16"
definition STYLES_sizes_h6 :: int where "STYLES_sizes_h6 = 14"
definition STYLES_sizes_body :: int where "STYLES_sizes_body = 11"
definition STYLES_sizes_code :: int where "STYLES_sizes_code = 10"
definition STYLES_sizes_table :: int where "STYLES_sizes_table = 10"

definition STYLES_colors_heading :: jstring where "STYLES_colors_heading = js ''1a1a1a''"
definition STYLES_colors_body :: jstring where "STYLES_colors_body = js ''333333''"
definition STYLES_colors_code :: jstring where "STYLES_colors_code = js ''24292e''"
definition STYLES_colors_codeBackground :: jstring where "STYLES_colors_codeBackground = js ''f6f8fa''"
definition STYLES_colors_link :: jstring where "STYLES_colors_link = js ''0366d6''"
definition STYLES_colors_tableHeader :: jstring where "STYLES_colors_tableHeader = js ''f6f8fa''"
definition STYLES_colors_tableBorder :: jstring where "STYLES_colors_tableBorder = js ''d0d7de''"
definition STYLES_colors_diagramBg :: jstring where "STYLES_colors_diagramBg = js ''e8f4fd''"
definition STYLES_colors_diagramBorder :: jstring where "STYLES_colors_diagramBorder = js ''0366d6''"

text \<open>The constructors of the docx library, applied to an object literal.\<close>

definition TextRun :: "(string \<times> jv) list \<Rightarrow> jv" where
  "TextRun options = JNew ''TextRun'' (JObj options)"

definition Paragraph :: "(string \<times> jv) list \<Rightarrow> jv" where
  "Paragraph options = JNew ''Paragraph'' (JObj options)"

definition TableCell :: "(string \<times> jv) list \<Rightarrow> jv" where
  "TableCell options = JNew ''TableCell'' (JObj options)"

definition TableRow :: "(string \<times> jv) list \<Rightarrow> jv" where
  "TableRow options = JNew ''TableRow'' (JObj options)"

definition Table :: "(string \<times> jv) list \<Rightarrow> jv" where
  "Table options = JNew ''Table'' (JObj options)"

definition Document :: "(string \<times> jv) list \<Rightarrow> jv" where
  "Document options = JNew ''Document'' (JObj options)"

text \<open>A property read on a value already known to be neither \<open>undefined\<close> nor \<open>null\<close>
  (an earlier read on it has succeeded, or it was tested for truth).\<close>

definition read_prop :: "jv \<Rightarrow> string \<Rightarrow> jv" where
  "read_prop v k = (case get_prop v k of Inr x \<Rightarrow> x | Inl e \<Rightarrow> JUndefined)"

text \<open>The \<open>shading\<close> and \<open>borders\<close> literals that recur.\<close>

definition solid :: "jstring \<Rightarrow> jv" where
  "solid color = JObj [(''type'', JLib ''ShadingType.SOLID''), (''color'', JStr color)]"

definition single_border :: "jstring \<Rightarrow> jv" where
  "single_border color =
     JObj [(''style'', JLib ''BorderStyle.SINGLE''), (''size'', JNum 1), (''color'', JStr color)]"

text \<open>\<open>cleanText\<close>: the expressions \<open>/\*\*/g\<close>, \<open>/\*/g\<close>, \<open>/`/g\<close> and
  \<open>/\[([^\]]+)\]\([^)]+\)/g\<close>, the last replaced by its group.\<close>

definition re_link :: "rx list" where
  "re_link =
     [One (is_char 0x5B), GroupOpen, Plus (none_of [0x5D]), GroupClose, One (is_char 0x5D),
      One (is_char 0x28), Plus (none_of [0x29]), One (is_char 0x29)]"

definition cleanText :: "jv \<Rightarrow> exn + jstring" where
  "cleanText text =
     (if \<not> truthy text then Inr []
      else case text of
             JStr s \<Rightarrow>
               Inr (trim
                 (rx_replace_all re_link (\<lambda>cap. cap)
                   (rx_replace_all (lit ''`'') (\<lambda>_. [])
                     (rx_replace_all (lit ''*'') (\<lambda>_. [])
                       (rx_replace_all (lit ''**'') (\<lambda>_. []) s)))))
           | _ \<Rightarrow> Inl TypeError)"

definition createHeading :: "jv \<Rightarrow> jv \<Rightarrow> exn + jv" where
  "createHeading text level =
     (let headingLevels =
            [(''1'', JLib ''HeadingLevel.HEADING_1''), (''2'', JLib ''HeadingLevel.HEADING_2''),
             (''3'', JLib ''HeadingLevel.HEADING_3''), (''4'', JLib ''HeadingLevel.HEADING_4''),
             (''5'', JLib ''HeadingLevel.HEADING_5''), (''6'', JLib ''HeadingLevel.HEADING_6'')];
          sizes =
            [(''1'', JNum STYLES_sizes_h1), (''2'', JNum STYLES_sizes_h2),
             (''3'', JNum STYLES_sizes_h3), (''4'', JNum STYLES_sizes_h4),
             (''5'', JNum STYLES_sizes_h5), (''6'', JNum STYLES_sizes_h6)]
      in and_then (cleanText text) (\<lambda>cleaned.
           Inr (Paragraph [
             (''heading'', or_else (lookup_key headingLevels level) (JLib ''HeadingLevel.HEADING_1'')),
             (''spacing'', JObj [(''before'', JNum 240), (''after'', JNum 120)]),
             (''children'', JArr [
                TextRun [
                  (''text'', JStr cleaned),
                  (''bold'', JBool True),
                  (''size'', times_two (lookup_key sizes level)),
                  (''font'', JStr STYLES_fonts_heading),
                  (''color'', JStr STYLES_colors_heading)]])])))"

definition createHorizontalRule :: jv where
  "createHorizontalRule =
     Paragraph [
       (''spacing'', JObj [(''before'', JNum 200), (''after'', JNum 200)]),
       (''border'', JObj [(''bottom'',
          JObj [(''style'', JLib ''BorderStyle.SINGLE''), (''size'', JNum 6),
                (''color'', JStr (js ''d0d7de''))])]),
       (''children'', JArr [TextRun [(''text'', JStr [])]])]"

text \<open>\<open>createCodeBlock\<close>: \<open>code.split\<close> comes first, then the language label.\<close>

definition code_line :: "jstring \<Rightarrow> jv" where
  "code_line line =
     Paragraph [
       (''spacing'', JObj [(''after'', JNum 0), (''before'', JNum 0), (''line'', JNum 260)]),
       (''shading'', solid STYLES_colors_codeBackground),
       (''children'', JArr [
          TextRun [
            (''text'', JStr (js ''  '' @ (if line \<noteq> [] then line else js '' ''))),
            (''font'', JStr STYLES_fonts_code),
            (''size'', JNum (STYLES_sizes_code * 2)),
            (''color'', JStr STYLES_colors_code)]])]"

definition createCodeBlock :: "host \<Rightarrow> jv \<Rightarrow> jv \<Rightarrow> exn + jv list" where
  "createCodeBlock h code language =
     and_then (split_lines code) (\<lambda>lines.
       and_then
         (if truthy language then
            (case language of
               JStr l \<Rightarrow>
                 Inr [Paragraph [
                   (''spacing'', JObj [(''before'', JNum 120), (''after'', JNum 0)]),
                   (''shading'', solid (js ''d0d7de'')),
                   (''children'', JArr [
                      TextRun [
                        (''text'', JStr (js ''  '' @ toUpperCase h l)),
                        (''font'', JStr STYLES_fonts_code),
                        (''size'', JNum (16 * 2)),
                        (''bold'', JBool True),
                        (''color'', JStr (js ''57606a''))]])]]
             | _ \<Rightarrow> Inl TypeError)
          else Inr [])
         (\<lambda>label.
            Inr (label @ map code_line lines @ [Paragraph [(''spacing'', JObj [(''after'', JNum 160)])]])))"

text \<open>\<open>createAIParagraph\<close>\<close>

definition ai_run :: "jv \<Rightarrow> exn + jv" where
  "ai_run item =
     and_then (get_prop item ''code'') (\<lambda>code.
       if truthy code then
         Inr (TextRun [
           (''text'', read_prop item ''text''),
           (''font'', JStr STYLES_fonts_code),
           (''size'', JNum (STYLES_sizes_code * 2)),
           (''shading'', solid STYLES_colors_codeBackground)])
       else if truthy (read_prop item ''link'') then
         Inr (TextRun [
           (''text'', read_prop item ''text''),
           (''color'', JStr STYLES_colors_link),
           (''underline'', JObj [(''type'', JLib ''UnderlineType.SINGLE'')])])
       else
         Inr (TextRun [
           (''text'', read_prop item ''text''),
           (''bold'', or_else (read_prop item ''bold'') (JBool False)),
           (''italics'', or_else (read_prop item ''italic'') (JBool False)),
           (''strike'', or_else (read_prop item ''strikethrough'') (JBool False)),
           (''font'', JStr STYLES_fonts_body),
           (''size'', JNum (STYLES_sizes_body * 2)),
           (''color'', JStr STYLES_colors_body)]))"

definition createAIParagraph :: "jv \<Rightarrow> exn + jv" where
  "createAIParagraph content =
     (if \<not> truthy content \<or> \<not> isArray content then
        Inr (Paragraph [(''spacing'', JObj [(''after'', JNum 160)]), (''children'', JArr [])])
      else
        and_then (array_map content ai_run) (\<lambda>runs.
          Inr (Paragraph [(''spacing'', JObj [(''after'', JNum 160)]), (''children'', JArr runs)])))"

text \<open>\<open>createAITable\<close>: one row for the headers, then one row for each entry of \<open>rows\<close>,
  each with as many cells as the entry has.\<close>

definition table_borders :: jv where
  "table_borders =
     JObj [
       (''top'', single_border STYLES_colors_tableBorder),
       (''bottom'', single_border STYLES_colors_tableBorder),
       (''left'', single_border STYLES_colors_tableBorder),
       (''right'', single_border STYLES_colors_tableBorder),
       (''insideHorizontal'', single_border STYLES_colors_tableBorder),
       (''insideVertical'', single_border STYLES_colors_tableBorder)]"

definition cell_margins :: jv where
  "cell_margins =
     JObj [(''top'', JNum 100), (''bottom'', JNum 100), (''left'', JNum 150), (''right'', JNum 150)]"

definition ai_header_cell :: "jv \<Rightarrow> jv" where
  "ai_header_cell h' =
     TableCell [
       (''children'', JArr [
          Paragraph [
            (''spacing'', JObj [(''before'', JNum 40), (''after'', JNum 40)]),
            (''children'', JArr [
               TextRun [
                 (''text'', h'),
                 (''bold'', JBool True),
                 (''font'', JStr STYLES_fonts_body),
                 (''size'', JNum (STYLES_sizes_table * 2)),
                 (''color'', JStr (js ''24292f''))]])]]),
       (''shading'', solid STYLES_colors_tableHeader),
       (''margins'', cell_margins),
       (''width'', JObj [(''size'', JNum 0), (''type'', JLib ''WidthType.AUTO'')])]"

definition ai_data_cell :: "jv \<Rightarrow> jv" where
  "ai_data_cell cell =
     TableCell [
       (''children'', JArr [
          Paragraph [
            (''spacing'', JObj [(''before'', JNum 40), (''after'', JNum 40)]),
            (''children'', JArr [
               TextRun [
                 (''text'', or_else cell (JStr [])),
                 (''font'', JStr STYLES_fonts_body),
                 (''size'', JNum (STYLES_sizes_table * 2)),
                 (''color'', JStr STYLES_colors_body)]])]]),
       (''margins'', cell_margins),
       (''width'', JObj [(''size'', JNum 0), (''type'', JLib ''WidthType.AUTO'')])]"

definition ai_data_row :: "jv \<Rightarrow> exn + jv" where
  "ai_data_row row =
     and_then (array_map row (\<lambda>cell. Inr (ai_data_cell cell))) (\<lambda>cells.
       Inr (TableRow [(''children'', JArr cells)]))"

definition createAITable :: "jv \<Rightarrow> jv \<Rightarrow> exn + jv" where
  "createAITable headers rows =
     and_then
       (if truthy headers \<and> greater_than_zero (read_prop headers ''length'') then
          and_then (array_map headers (\<lambda>h'. Inr (ai_header_cell h'))) (\<lambda>cells.
            Inr [TableRow [(''children'', JArr cells)]])
        else Inr [])
       (\<lambda>headerRow.
          and_then
            (if truthy rows \<and> greater_than_zero (read_prop rows ''length'') then
               and_then (iterate rows) (map_exn ai_data_row)
             else Inr [])
            (\<lambda>dataRows.
               Inr (Table [
                 (''rows'', JArr (headerRow @ dataRows)),
                 (''width'', JObj [(''size'', JNum 100), (''type'', JLib ''WidthType.PERCENTAGE'')]),
                 (''layout'', JStr (js ''autofit'')),
                 (''borders'', table_borders)])))"

text \<open>\<open>createAIList\<close>\<close>

definition ai_list_item :: "bool \<Rightarrow> nat \<times> jv \<Rightarrow> jv" where
  "ai_list_item ordered p =
     (let bullet = (if ordered then js (show_nat (fst p + 1)) @ js ''. '' else [0x2022, 0x20])
      in Paragraph [
           (''spacing'', JObj [(''after'', JNum 80)]),
           (''indent'', JObj [(''left'', JLib ''convertInchesToTwip(0.25)'')]),
           (''children'', JArr [
              TextRun [
                (''text'', JStr (bullet @ to_string (snd p))),
                (''font'', JStr STYLES_fonts_body),
                (''size'', JNum (STYLES_sizes_body * 2))]])])"

definition createAIList :: "jv \<Rightarrow> jv \<Rightarrow> jv list" where
  "createAIList items ordered =
     (case items of
        JArr xs \<Rightarrow> map (ai_list_item (truthy ordered)) (zip [0..<length xs] xs)
      | _ \<Rightarrow> [])"

text \<open>\<open>createAIBlockquote\<close>\<close>

definition quote_paragraph :: "jstring \<Rightarrow> jv" where
  "quote_paragraph text =
     Paragraph [
       (''spacing'', JObj [(''after'', JNum 80)]),
       (''indent'', JObj [(''left'', JLib ''convertInchesToTwip(0.5)'')]),
       (''border'', JObj [(''left'',
          JObj [(''style'', JLib ''BorderStyle.SINGLE''), (''size'', JNum 24),
                (''color'', JStr (js ''d0d7de''))])]),
       (''children'', JArr [
          TextRun [
            (''text'', JStr (js ''  '' @ text)),
            (''font'', JStr STYLES_fonts_body),
            (''size'', JNum (STYLES_sizes_body * 2)),
            (''color'', JStr (js ''6a737d'')),
            (''italics'', JBool True)]])]"

definition createAIBlockquote :: "jv \<Rightarrow> jv" where
  "createAIBlockquote text = quote_paragraph (to_string text)"

text \<open>The paragraphs of a rendered diagram; \<open>createAIDiagram\<close> and \<open>createDiagramBlock\<close>
  build them with the same literals.\<close>

definition diagram_title :: "jv \<Rightarrow> jv" where
  "diagram_title title =
     Paragraph [
       (''spacing'', JObj [(''before'', JNum 240), (''after'', JNum 120)]),
       (''shading'', solid STYLES_colors_diagramBorder),
       (''children'', JArr [
          TextRun [
            (''text'', JStr ([0x20, 0xD83D, 0xDCCA, 0x20] @ to_string title)),
            (''bold'', JBool True),
            (''size'', JNum (24 * 2)),
            (''font'', JStr STYLES_fonts_heading),
            (''color'', JStr (js ''ffffff''))]])]"

definition diagram_description :: "jv \<Rightarrow> jv" where
  "diagram_description description =
     Paragraph [
       (''spacing'', JObj [(''after'', JNum 120)]),
       (''shading'', solid STYLES_colors_diagramBg),
       (''children'', JArr [
          TextRun [
            (''text'', JStr (js '' '' @ to_string description)),
            (''italics'', JBool True),
            (''size'', JNum (STYLES_sizes_body * 2)),
            (''font'', JStr STYLES_fonts_body),
            (''color'', JStr (js ''555555''))]])]"

definition data_flow_label :: jv where
  "data_flow_label =
     Paragraph [
       (''spacing'', JObj [(''before'', JNum 160), (''after'', JNum 80)]),
       (''children'', JArr [
          TextRun [
            (''text'', JStr ([0xD83D, 0xDD17] @ js '' Data Flow:'')),
            (''bold'', JBool True),
            (''size'', JNum (STYLES_sizes_body * 2)),
            (''font'', JStr STYLES_fonts_heading)]])]"

definition connection_paragraph :: "jv \<Rightarrow> exn + jv" where
  "connection_paragraph conn =
     and_then (get_prop conn ''label'') (\<lambda>l.
       let label = (if truthy l then js '' ('' @ to_string l @ js '')'' else [])
       in Inr (Paragraph [
            (''spacing'', JObj [(''after'', JNum 60)]),
            (''indent'', JObj [(''left'', JLib ''convertInchesToTwip(0.25)'')]),
            (''children'', JArr [
               TextRun [
                 (''text'', JStr ([0x2192, 0x20] @ to_string (read_prop conn ''from'') @
                              [0x20, 0x20, 0x279C, 0x20, 0x20] @ to_string (read_prop conn ''to'') @ label)),
                 (''size'', JNum (STYLES_sizes_body * 2)),
                 (''font'', JStr STYLES_fonts_body),
                 (''color'', JStr STYLES_colors_body)]])]))"

definition diagram_spacing :: jv where
  "diagram_spacing = Paragraph [(''spacing'', JObj [(''after'', JNum 200)])]"

text \<open>\<open>createComponentsTable\<close>\<close>

definition components_header_cell :: "string \<Rightarrow> jv" where
  "components_header_cell caption =
     TableCell [
       (''children'', JArr [
          Paragraph [(''children'', JArr [
            TextRun [(''text'', JStr (js caption)), (''bold'', JBool True),
                     (''size'', JNum (STYLES_sizes_body * 2)), (''color'', JStr (js ''ffffff''))]])]]),
       (''shading'', solid STYLES_colors_diagramBorder),
       (''margins'', JObj [(''top'', JNum 80), (''bottom'', JNum 80), (''left'', JNum 120),
                           (''right'', JNum 120)])]"

definition component_row :: "jv \<Rightarrow> exn + jv" where
  "component_row component =
     and_then (get_prop component ''name'') (\<lambda>name.
       Inr (TableRow [(''children'', JArr [
         TableCell [
           (''children'', JArr [
              Paragraph [(''children'', JArr [
                TextRun [(''text'', or_else name (JStr [])), (''bold'', JBool True),
                         (''size'', JNum (STYLES_sizes_body * 2)),
                         (''color'', JStr STYLES_colors_diagramBorder)]])]]),
           (''shading'', solid STYLES_colors_diagramBg),
           (''margins'', JObj [(''top'', JNum 60), (''bottom'', JNum 60), (''left'', JNum 120),
                               (''right'', JNum 120)])],
         TableCell [
           (''children'', JArr [
              Paragraph [(''children'', JArr [
                TextRun [(''text'', or_else (read_prop component ''description'') (JStr (js ''-''))),
                         (''size'', JNum (STYLES_sizes_body * 2))]])]]),
           (''margins'', JObj [(''top'', JNum 60), (''bottom'', JNum 60), (''left'', JNum 120),
                               (''right'', JNum 120)])]])]))"

definition createComponentsTable :: "jv \<Rightarrow> exn + jv" where
  "createComponentsTable components =
     and_then (iterate components) (\<lambda>items.
       and_then (map_exn component_row items) (\<lambda>rows.
         Inr (Table [
           (''rows'', JArr (
              TableRow [(''children'', JArr [components_header_cell ''Component'',
                                              components_header_cell ''Description''])] # rows)),
           (''width'', JObj [(''size'', JNum 100), (''type'', JLib ''WidthType.PERCENTAGE'')]),
           (''borders'', JObj [
              (''top'', single_border STYLES_colors_diagramBorder),
              (''bottom'', single_border STYLES_colors_diagramBorder),
              (''left'', single_border STYLES_colors_diagramBorder),
              (''right'', single_border STYLES_colors_diagramBorder),
              (''insideHorizontal'', single_border STYLES_colors_tableBorder),
              (''insideVertical'', single_border STYLES_colors_tableBorder)])])))"

text \<open>\<open>createAIDiagram\<close>: nothing is caught here, a throw leaves the function.\<close>

definition createAIDiagram :: "jv \<Rightarrow> exn + jv list" where
  "createAIDiagram diagram =
     (let title = read_prop diagram ''title'';
          description = read_prop diagram ''description'';
          components = read_prop diagram ''components'';
          connections = read_prop diagram ''connections''
      in and_then
           (if truthy components \<and> greater_than_zero (read_prop components ''length'')
            then and_then (createComponentsTable components) (\<lambda>t. Inr [t])
            else Inr [])
           (\<lambda>componentsTable.
              and_then
                (if truthy connections \<and> greater_than_zero (read_prop connections ''length'')
                 then and_then (iterate connections) (\<lambda>conns.
                        and_then (map_exn connection_paragraph conns) (\<lambda>ps.
                          Inr (data_flow_label # ps)))
                 else Inr [])
                (\<lambda>flow.
                   Inr ((if truthy title then [diagram_title title] else []) @
                        (if truthy description then [diagram_description description] else []) @
                        componentsTable @ flow @ [diagram_spacing]))))"

text \<open>One turn of the loop of \<open>processAIParsedElements\<close>: the \<open>switch\<close> on \<open>elem.type\<close>
  with its \<open>default\<close> branch, giving the elements pushed.\<close>

definition render_ai_element :: "host \<Rightarrow> jv \<Rightarrow> exn + jv list" where
  "render_ai_element h elem =
     and_then (get_prop elem ''type'') (\<lambda>t.
       if t = JStr (js ''heading'') then
         and_then (createHeading (read_prop elem ''text'') (or_else (read_prop elem ''level'') (JNum 1)))
           (\<lambda>p. Inr [p])
       else if t = JStr (js ''paragraph'') then
         and_then (createAIParagraph (read_prop elem ''content'')) (\<lambda>p. Inr [p])
       else if t = JStr (js ''code'') then
         createCodeBlock h (read_prop elem ''content'') (or_else (read_prop elem ''language'') (JStr []))
       else if t = JStr (js ''table'') then
         and_then (createAITable (read_prop elem ''headers'') (read_prop elem ''rows'')) (\<lambda>p. Inr [p])
       else if t = JStr (js ''list'') then
         Inr (createAIList (read_prop elem ''items'') (read_prop elem ''ordered''))
       else if t = JStr (js ''blockquote'') then
         Inr [createAIBlockquote (read_prop elem ''text'')]
       else if t = JStr (js ''diagram'') then
         createAIDiagram elem
       else if t = JStr (js ''hr'') then
         Inr [createHorizontalRule]
       else if truthy (read_prop elem ''text'') then
         Inr [Paragraph [
           (''spacing'', JObj [(''after'', JNum 160)]),
           (''children'', JArr [TextRun [(''text'', read_prop elem ''text'')]])]]
       else Inr [])"

fun processAIParsedElements_loop :: "host \<Rightarrow> jv list \<Rightarrow> jv list \<Rightarrow> exn + jv list" where
  "processAIParsedElements_loop h [] elements = Inr elements"
| "processAIParsedElements_loop h (elem # rest) elements =
     and_then (render_ai_element h elem) (\<lambda>pushed.
       processAIParsedElements_loop h rest (elements @ pushed))"

definition processAIParsedElements :: "host \<Rightarrow> jv \<Rightarrow> exn + jv list" where
  "processAIParsedElements h parsed =
     and_then (get_prop parsed ''elements'') (\<lambda>es.
       and_then (iterate es) (\<lambda>elems. processAIParsedElements_loop h elems []))"

subsection \<open>Rendering the tokens of the local parser\<close>

text \<open>\<open>xs[i]\<close> (\<open>undefined\<close> out of range), \<open>xs.slice(a, b)\<close>, and \<open>s.replace(p, r)\<close> for a
  string pattern, which replaces the first occurrence.\<close>

definition element_at :: "'a list \<Rightarrow> nat \<Rightarrow> 'a option" where
  "element_at xs i = (if i < length xs then Some (xs ! i) else None)"

definition array_slice :: "'a list \<Rightarrow> nat \<Rightarrow> nat \<Rightarrow> 'a list" where
  "array_slice xs a b = drop a (take b xs)"

fun replace_first :: "string \<Rightarrow> string \<Rightarrow> string \<Rightarrow> string" where
  "replace_first p r [] = (if p = [] then r else [])"
| "replace_first p r (c # cs) =
     (if prefix p (c # cs) then r @ drop (length p) (c # cs) else c # replace_first p r cs)"

text \<open>\<open>parseInt(s)\<close> with no radix: white space, a sign, then hexadecimal digits after
  \<open>0x\<close> or decimal digits; not-a-number when no digit is found.\<close>

definition hex_digit :: "16 word \<Rightarrow> bool" where
  "hex_digit c \<longleftrightarrow> digit c \<or> (0x41 \<le> c \<and> c \<le> 0x46) \<or> (0x61 \<le> c \<and> c \<le> 0x66)"

definition hex_nat :: "jstring \<Rightarrow> nat" where
  "hex_nat ds =
     foldl (\<lambda>n c. 16 * n + (if digit c then unat (c - 0x30)
                             else if c \<le> 0x46 then unat (c - 0x41) + 10
                             else unat (c - 0x61) + 10)) 0 ds"

definition parseInt_unsigned :: "jstring \<Rightarrow> int option" where
  "parseInt_unsigned s =
     (if prefix (js ''0x'') s \<or> prefix (js ''0X'') s then
        (let ds = takeWhile hex_digit (drop 2 s)
         in if ds = [] then None else Some (int (hex_nat ds)))
      else
        (let ds = takeWhile digit s
         in if ds = [] then None else Some (int (decimal_nat ds))))"

definition parseInt :: "jstring \<Rightarrow> jv" where
  "parseInt s =
     (let t = dropWhile isWhiteSpace s
      in case t of
           [] \<Rightarrow> JNaN
         | c # r \<Rightarrow>
             if c = 0x2D then (case parseInt_unsigned r of Some n \<Rightarrow> JNum (- n) | None \<Rightarrow> JNaN)
             else if c = 0x2B then (case parseInt_unsigned r of Some n \<Rightarrow> JNum n | None \<Rightarrow> JNaN)
             else (case parseInt_unsigned t of Some n \<Rightarrow> JNum n | None \<Rightarrow> JNaN))"

text \<open>\<open>findClosingToken\<close>: the scan from \<open>startIndex + 1\<close>, then the last index when no
  closing token balances (the token list is not empty where the function is called).\<close>

fun findClosingToken_scan :: "string \<Rightarrow> string \<Rightarrow> token list \<Rightarrow> nat \<Rightarrow> int \<Rightarrow> nat option" where
  "findClosingToken_scan openType closeType [] i depth = None"
| "findClosingToken_scan openType closeType (t # ts) i depth =
     (let d1 = (if tok_type t = openType then depth + 1 else depth);
          d2 = (if tok_type t = closeType then d1 - 1 else d1)
      in if d2 = 0 then Some i else findClosingToken_scan openType closeType ts (i + 1) d2)"

definition findClosingToken :: "token list \<Rightarrow> nat \<Rightarrow> string \<Rightarrow> nat" where
  "findClosingToken tokens startIndex closeType =
     (let openType = replace_first ''_close'' ''_open'' closeType
      in case findClosingToken_scan openType closeType (drop (startIndex + 1) tokens)
                (startIndex + 1) 1 of
           Some i \<Rightarrow> i
         | None \<Rightarrow> length tokens - 1)"

text \<open>\<open>extractTextFromInline\<close>\<close>

definition extractTextFromInline :: "token list option \<Rightarrow> jstring" where
  "extractTextFromInline tokens =
     (case tokens of
        None \<Rightarrow> []
      | Some ts \<Rightarrow>
          concat (map tok_content
            (filter (\<lambda>t. tok_type t = ''text'' \<or> tok_type t = ''code_inline'' \<or> tok_type t = ''emoji'')
               ts)))"

text \<open>\<open>processInlineTokens\<close>, \<open>createTextRun\<close> and \<open>createParagraph\<close>\<close>

record formatting =
  fmt_bold :: bool
  fmt_italic :: bool
  fmt_code :: bool
  fmt_strikethrough :: bool

definition createTextRun :: "jstring \<Rightarrow> formatting \<Rightarrow> jv" where
  "createTextRun text f =
     TextRun [
       (''text'', JStr text),
       (''bold'', JBool (fmt_bold f)),
       (''italics'', JBool (fmt_italic f)),
       (''strike'', JBool (fmt_strikethrough f)),
       (''font'', JStr STYLES_fonts_body),
       (''size'', JNum (STYLES_sizes_body * 2)),
       (''color'', JStr STYLES_colors_body)]"

fun processInlineTokens_loop :: "token list \<Rightarrow> formatting \<Rightarrow> jv list \<Rightarrow> jv list" where
  "processInlineTokens_loop [] f runs = runs"
| "processInlineTokens_loop (token # rest) f runs =
     (if tok_type token = ''text'' then
        processInlineTokens_loop rest f (runs @ [createTextRun (tok_content token) f])
      else if tok_type token = ''emoji'' then
        processInlineTokens_loop rest f (runs @ [createTextRun (tok_content token) f])
      else if tok_type token = ''code_inline'' then
        processInlineTokens_loop rest f (runs @ [
          TextRun [
            (''text'', JStr (tok_content token)),
            (''font'', JStr STYLES_fonts_code),
            (''size'', JNum (STYLES_sizes_code * 2)),
            (''shading'', solid STYLES_colors_codeBackground)]])
      else if tok_type token = ''strong_open'' then
        processInlineTokens_loop rest (f\<lparr>fmt_bold := True\<rparr>) runs
      else if tok_type token = ''strong_close'' then
        processInlineTokens_loop rest (f\<lparr>fmt_bold := False\<rparr>) runs
      else if tok_type token = ''em_open'' then
        processInlineTokens_loop rest (f\<lparr>fmt_italic := True\<rparr>) runs
      else if tok_type token = ''em_close'' then
        processInlineTokens_loop rest (f\<lparr>fmt_italic := False\<rparr>) runs
      else if tok_type token = ''s_open'' then
        processInlineTokens_loop rest (f\<lparr>fmt_strikethrough := True\<rparr>) runs
      else if tok_type token = ''s_close'' then
        processInlineTokens_loop rest (f\<lparr>fmt_strikethrough := False\<rparr>) runs
      else if tok_type token = ''link_open'' then
        (case rest of
           [] \<Rightarrow> processInlineTokens_loop [] f runs
         | linkText # rest' \<Rightarrow>
             if tok_type linkText = ''text'' then
               processInlineTokens_loop rest' f (runs @ [
                 TextRun [
                   (''text'', JStr (tok_content linkText)),
                   (''color'', JStr STYLES_colors_link),
                   (''underline'', JObj [(''type'', JLib ''UnderlineType.SINGLE'')])]])
             else processInlineTokens_loop (linkText # rest') f runs)
      else if tok_type token = ''softbreak'' \<or> tok_type token = ''hardbreak'' then
        processInlineTokens_loop rest f (runs @ [TextRun [(''text'', JStr []), (''break'', JNum 1)]])
      else processInlineTokens_loop rest f runs)"

definition processInlineTokens :: "token list \<Rightarrow> jv list" where
  "processInlineTokens tokens =
     processInlineTokens_loop tokens
       \<lparr>fmt_bold = False, fmt_italic = False, fmt_code = False, fmt_strikethrough = False\<rparr> []"

definition createParagraph :: "token list option \<Rightarrow> jv" where
  "createParagraph inlineTokens =
     (let children = processInlineTokens (case inlineTokens of Some ts \<Rightarrow> ts | None \<Rightarrow> [])
      in Paragraph [
           (''spacing'', JObj [(''after'', JNum 160)]),
           (''children'', JArr (if children \<noteq> [] then children else [TextRun [(''text'', JStr [])]]))])"

text \<open>
  \<open>createTable\<close>. \<open>rows.push({ cells: currentRow, isHeader })\<close> stores the array
  \<open>currentRow\<close> itself, which a later \<open>currentRow.push\<close> still extends until \<open>tr_open\<close>
  makes a new array; the arrays are therefore kept in a store and rows refer to them.
\<close>

record table_state =
  ts_rows :: "(nat \<times> bool) list"
  ts_arrays :: "(jstring \<times> bool) list list"
  ts_currentRow :: nat
  ts_isHeader :: bool
  ts_inCell :: bool
  ts_cellContent :: "jstring list"

definition table_step :: "table_state \<Rightarrow> token \<Rightarrow> table_state" where
  "table_step s token =
     (if tok_type token = ''thead_open'' then s\<lparr>ts_isHeader := True\<rparr>
      else if tok_type token = ''thead_close'' then s\<lparr>ts_isHeader := False\<rparr>
      else if tok_type token = ''tr_open'' then
        s\<lparr>ts_arrays := ts_arrays s @ [[]], ts_currentRow := length (ts_arrays s)\<rparr>
      else if tok_type token = ''tr_close'' then
        (if length (ts_arrays s ! ts_currentRow s) > 0
         then s\<lparr>ts_rows := ts_rows s @ [(ts_currentRow s, ts_isHeader s)]\<rparr>
         else s)
      else if tok_type token = ''th_open'' \<or> tok_type token = ''td_open'' then
        s\<lparr>ts_inCell := True, ts_cellContent := []\<rparr>
      else if tok_type token = ''th_close'' \<or> tok_type token = ''td_close'' then
        s\<lparr>ts_inCell := False,
          ts_arrays := (ts_arrays s)[ts_currentRow s :=
             ts_arrays s ! ts_currentRow s @
               [(concat (ts_cellContent s), tok_type token = ''th_close'')]]\<rparr>
      else if tok_type token = ''inline'' then
        (if ts_inCell s
         then s\<lparr>ts_cellContent := ts_cellContent s @ [extractTextFromInline (tok_children token)]\<rparr>
         else s)
      else s)"

definition table_rows :: "token list \<Rightarrow> (jstring \<times> bool) list list" where
  "table_rows tokens =
     (let s = foldl table_step
                \<lparr>ts_rows = [], ts_arrays = [[]], ts_currentRow = 0, ts_isHeader = False,
                 ts_inCell = False, ts_cellContent = []\<rparr> tokens
      in map (\<lambda>r. ts_arrays s ! fst r) (ts_rows s))"

definition table_cell :: "jstring \<times> bool \<Rightarrow> jv" where
  "table_cell cell =
     TableCell [
       (''children'', JArr [
          Paragraph [
            (''spacing'', JObj [(''before'', JNum 40), (''after'', JNum 40)]),
            (''children'', JArr [
               TextRun [
                 (''text'', JStr (fst cell)),
                 (''bold'', JBool (snd cell)),
                 (''font'', JStr STYLES_fonts_body),
                 (''size'', JNum (STYLES_sizes_table * 2)),
                 (''color'', JStr (if snd cell then js ''24292f'' else STYLES_colors_body))]])]]),
       (''shading'', if snd cell then solid STYLES_colors_tableHeader else JUndefined),
       (''margins'', cell_margins),
       (''width'', JObj [(''size'', JNum 0), (''type'', JLib ''WidthType.AUTO'')])]"

text \<open>The loop \<open>while (cells.length < columnCount) cells.push(...)\<close>.\<close>

function pad_row :: "jv list \<Rightarrow> nat \<Rightarrow> jv list" where
  "pad_row cells columnCount =
     (if length cells < columnCount
      then pad_row (cells @ [TableCell [(''children'', JArr [Paragraph [(''text'', JStr [])]])]])
             columnCount
      else cells)"
  by pat_completeness auto
termination
  by (relation "measure (\<lambda>(cells, columnCount). columnCount - length cells)") auto

text \<open>\<open>Math.max(...xs)\<close> on a list of lengths that is not empty.\<close>

definition max_of :: "nat list \<Rightarrow> nat" where
  "max_of xs = foldl max 0 xs"

definition createTable :: "token list \<Rightarrow> jv" where
  "createTable tokens =
     (let rows = table_rows tokens
      in if length rows = 0 then Paragraph [(''text'', JStr [])]
         else
           (let columnCount = max_of (map length rows);
                tableRows = map (\<lambda>row.
                  TableRow [(''children'', JArr (pad_row (map table_cell row) columnCount))]) rows
            in Table [
                 (''rows'', JArr tableRows),
                 (''width'', JObj [(''size'', JNum 100), (''type'', JLib ''WidthType.PERCENTAGE'')]),
                 (''layout'', JStr (js ''autofit'')),
                 (''borders'', table_borders)]))"

text \<open>\<open>createList\<close>\<close>

record list_state =
  ls_items :: "jv list"
  ls_itemNumber :: nat
  ls_currentContent :: jstring

definition list_step :: "bool \<Rightarrow> list_state \<Rightarrow> token \<Rightarrow> list_state" where
  "list_step isOrdered s token =
     (if tok_type token = ''list_item_open'' then s\<lparr>ls_currentContent := []\<rparr>
      else if tok_type token = ''inline'' then
        s\<lparr>ls_currentContent := extractTextFromInline (tok_children token)\<rparr>
      else if tok_type token = ''list_item_close'' then
        (let bullet = (if isOrdered then js (show_nat (ls_itemNumber s)) @ js ''. ''
                       else [0x2022, 0x20])
         in s\<lparr>ls_items := ls_items s @ [
                Paragraph [
                  (''spacing'', JObj [(''after'', JNum 80)]),
                  (''indent'', JObj [(''left'', JLib ''convertInchesToTwip(0.25)'')]),
                  (''children'', JArr [
                     TextRun [
                       (''text'', JStr (bullet @ ls_currentContent s)),
                       (''font'', JStr STYLES_fonts_body),
                       (''size'', JNum (STYLES_sizes_body * 2))]])]],
              ls_itemNumber := ls_itemNumber s + 1\<rparr>)
      else s)"

definition createList :: "token list \<Rightarrow> bool \<Rightarrow> jv list" where
  "createList tokens isOrdered =
     ls_items (foldl (list_step isOrdered)
       \<lparr>ls_items = [], ls_itemNumber = 1, ls_currentContent = []\<rparr> tokens)"

text \<open>\<open>createBlockquote\<close>: one paragraph for each \<open>inline\<close> token.\<close>

definition createBlockquote :: "token list \<Rightarrow> jv list" where
  "createBlockquote tokens =
     map (\<lambda>token. quote_paragraph (extractTextFromInline (tok_children token)))
       (filter (\<lambda>token. tok_type token \<noteq> ''paragraph_open'' \<and> tok_type token \<noteq> ''paragraph_close''
                        \<and> tok_type token = ''inline'') tokens)"

section \<open>Reading a rendered table\<close>

text \<open>The options a docx object was constructed with, and the number of cells in each row
  of a \<open>Table\<close>.\<close>

fun constructor_options :: "jv \<Rightarrow> (string \<times> jv) list" where
  "constructor_options (JNew c (JObj options)) = options"
| "constructor_options v = []"

definition array_length :: "jv option \<Rightarrow> nat" where
  "array_length v = (case v of Some (JArr xs) \<Rightarrow> length xs | _ \<Rightarrow> 0)"

definition row_cell_counts :: "jv \<Rightarrow> nat list" where
  "row_cell_counts table =
     (case map_of (constructor_options table) ''rows'' of
        Some (JArr rows) \<Rightarrow>
          map (\<lambda>row. array_length (map_of (constructor_options row) ''children'')) rows
      | _ \<Rightarrow> [])"

section \<open>The retryability test as the specification words it\<close>

text \<open>Modelled from the spec: the error's status code or message text matches one of
  404, 429, 503, "overloaded", "temporarily", "quota", "rate". It is compared below with
  the tests the two wrappers make.\<close>

definition claimed_retryable :: "js_error \<Rightarrow> bool" where
  "claimed_retryable error \<longleftrightarrow>
     statusCode error = Some 404 \<or> statusCode error = Some 429 \<or> statusCode error = Some 503 \<or>
     message_includes error ''404'' \<or> message_includes error ''429'' \<or>
     message_includes error ''503'' \<or> message_includes error ''overloaded'' \<or>
     message_includes error ''temporarily'' \<or> message_includes error ''quota'' \<or>
     message_includes error ''rate''"

text \<open>The delay after a server's suggestion as the specification words it: the seconds
  converted to milliseconds, rounded up, plus 500, capped at 20000.\<close>

definition claimed_suggested_delay :: "rat \<Rightarrow> rat" where
  "claimed_suggested_delay seconds = min (of_int \<lceil>seconds * 1000\<rceil> + 500) 20000"

section \<open>Concrete environments for the examples\<close>

definition error_with_message :: "string \<Rightarrow> js_error" where
  "error_with_message m =
     \<lparr>status = None, response_status = None, message = Some (js m),
      as_string = js ''Error: '' @ js m\<rparr>"

definition error_with_status :: "int \<Rightarrow> string \<Rightarrow> js_error" where
  "error_with_status s m =
     \<lparr>status = Some s, response_status = None, message = Some (js m),
      as_string = js ''Error: '' @ js m\<rparr>"

text \<open>A backend that throws the same error at every call, and one that gives the same
  reply at every call.\<close>

definition always_throws :: "js_error \<Rightarrow> nat \<Rightarrow> ai_call \<Rightarrow> js_error + jstring" where
  "always_throws e k call = Inl e"

definition always_replies :: "jstring \<Rightarrow> nat \<Rightarrow> ai_call \<Rightarrow> js_error + jstring" where
  "always_replies t k call = Inr t"

text \<open>\<open>JSON.parse\<close> and \<open>mdParser.parse\<close> given on finitely many texts.\<close>

definition parse_table :: "(jstring \<times> jv) list \<Rightarrow> jstring \<Rightarrow> js_error + jv" where
  "parse_table tbl t =
     (case map_of tbl t of
        Some v \<Rightarrow> Inr v
      | None \<Rightarrow> Inl (error_with_message ''Unexpected token''))"

definition tokens_table :: "(jstring \<times> token list) list \<Rightarrow> jstring \<Rightarrow> token list" where
  "tokens_table tbl m = (case map_of tbl m of Some ts \<Rightarrow> ts | None \<Rightarrow> [])"

definition constant_random :: "rat \<Rightarrow> nat \<Rightarrow> rat" where
  "constant_random r k = r"

definition failing_host :: "js_error \<Rightarrow> host" where
  "failing_host e =
     \<lparr>generateContent = always_throws e, JSON_parse = parse_table [],
      Math_random = constant_random (1 / 2), markdown_parse = tokens_table [],
      toUpperCase = map ascii_upper\<rparr>"

definition initial_world :: world where
  "initial_world = \<lparr>calls = [], sleeps = [], draws = 0\<rparr>"

definition gemini_ready :: gemini where
  "gemini_ready = \<lparr>has_model = True, useGemini = True\<rparr>"

definition replying_host :: "jstring \<Rightarrow> (jstring \<times> jv) list \<Rightarrow> host" where
  "replying_host t tbl =
     \<lparr>generateContent = always_replies t, JSON_parse = parse_table tbl,
      Math_random = constant_random (1 / 2), markdown_parse = tokens_table [],
      toUpperCase = map ascii_upper\<rparr>"

section \<open>Properties\<close>

subsection \<open>Regular expressions made of one character class\<close>

lemma rx_test_One: "rx_test [One p] s \<longleftrightarrow> (\<exists>c\<in>set s. p c)"
  unfolding rx_test_def by (induction s) auto

lemma rx_replace_all_One: "rx_replace_all [One p] (\<lambda>_. []) s = filter (\<lambda>c. \<not> p c) s"
  by (induction s) auto

subsection \<open>Diagram detector\<close>

text \<open>
  Claim C7. For every string, \<open>isAsciiDiagram\<close> is true exactly when the string holds
  at least one character of the fixed glyph set \<open>boxChars\<close>; it depends on nothing but
  its argument.
\<close>

theorem isAsciiDiagram_iff_glyph:
  "isAsciiDiagram code \<longleftrightarrow> (\<exists>c\<in>set code. c \<in> set boxChars)"
  by (simp add: isAsciiDiagram_def rx_test_One one_of_def)

theorem isAsciiDiagram_iff_glyph_witness:
  "isAsciiDiagram (js ''+'' @ [0x2500, 0x2510]) \<and> \<not> isAsciiDiagram (js ''let x = a -> b;'')"
proof -
  have a: "\<exists>c\<in>set (js ''+'' @ [0x2500, 0x2510]). c \<in> set boxChars"
    by (simp add: js_def boxChars_def)
  have b: "\<not> (\<exists>c\<in>set (js ''let x = a -> b;''). c \<in> set boxChars)"
    by (simp add: js_def boxChars_def)
  show ?thesis
    using a b isAsciiDiagram_iff_glyph [of "js ''+'' @ [0x2500, 0x2510]"]
      isAsciiDiagram_iff_glyph [of "js ''let x = a -> b;''"]
    by blast
qed

subsection \<open>Fallback diagram analyzer\<close>

lemma clean_line_filter:
  "clean_line line = trim (filter (\<lambda>c. c \<notin> set frame_class \<and> c \<notin> set ascii_frame_class) line)"
  by (simp add: clean_line_def rx_replace_all_One one_of_def conj_commute)

lemma collect_text_filter:
  "collect_text lines acc = acc @ filter (\<lambda>t. 2 < length t) (map clean_line lines)"
  by (induction lines arbitrary: acc) (auto simp: Let_def)

lemma array_of_set_first_seen: "array_of_set xs = rev (remdups (rev xs))"
  unfolding array_of_set_def by (induction xs rule: rev_induct) auto

lemma uniqueContent_eq:
  "uniqueContent d = rev (remdups (rev (filter (\<lambda>t. 2 < length t) (map clean_line (split 0x0A d)))))"
proof -
  have "filter (\<lambda>t. 2 < length t) (rev (remdups (rev (filter (\<lambda>t. 2 < length t) ys)))) =
        rev (remdups (rev (filter (\<lambda>t. 2 < length t) ys)))" for ys :: "jstring list"
    by (rule filter_True) auto
  then show ?thesis
    by (simp add: uniqueContent_def array_of_set_first_seen collect_text_filter)
qed

text \<open>
  Claim C5. For every diagram text, the fallback analyzer cleans each line (the frame
  glyphs, the brackets and the characters \<open>- | + *\<close> removed, then trimmed), keeps the
  cleaned lines longer than two characters, keeps the first occurrence of each in order
  (\<open>remdups\<close> keeps last occurrences, hence the two reversals), emits the first twenty
  as components with an empty description, emits no connection, and joins all the
  fragments with newline, bullet, space as the summary.
\<close>

theorem fallbackDiagramConversion_shape:
  "get_prop (fallbackDiagramConversion d) ''components'' =
     Inr (JArr (map (\<lambda>t. JObj [(''name'', JStr t), (''description'', JStr [])])
                  (take 20 (uniqueContent d))))
   \<and> length (take 20 (uniqueContent d)) \<le> 20
   \<and> get_prop (fallbackDiagramConversion d) ''connections'' = Inr (JArr [])
   \<and> get_prop (fallbackDiagramConversion d) ''summary'' =
       Inr (JStr (join [0x0A, 0x2022, 0x20] (uniqueContent d)))
   \<and> uniqueContent d =
       rev (remdups (rev (filter (\<lambda>t. 2 < length t) (map clean_line (split 0x0A d)))))
   \<and> distinct (uniqueContent d)
   \<and> (\<forall>f \<in> set (uniqueContent d). 2 < length f)
   \<and> (\<forall>line. clean_line line =
         trim (filter (\<lambda>c. c \<notin> set frame_class \<and> c \<notin> set ascii_frame_class) line))"
proof (intro conjI)
  show "uniqueContent d =
       rev (remdups (rev (filter (\<lambda>t. 2 < length t) (map clean_line (split 0x0A d)))))"
    by (rule uniqueContent_eq)
  show "distinct (uniqueContent d)"
    by (simp add: uniqueContent_eq)
  show "\<forall>f \<in> set (uniqueContent d). 2 < length f"
    by (simp add: uniqueContent_eq)
  show "\<forall>line. clean_line line =
         trim (filter (\<lambda>c. c \<notin> set frame_class \<and> c \<notin> set ascii_frame_class) line)"
    by (simp add: clean_line_filter)
qed (simp_all add: fallbackDiagramConversion_def)

theorem fallbackDiagramConversion_shape_witness:
  "get_prop (fallbackDiagramConversion
      ([0x250C, 0x2500, 0x2510, 0x0A, 0x2502] @ js '' Client '' @ [0x2502, 0x0A]
         @ js ''| Server |'' @ [0x0A] @ js '' Client'')) ''components'' =
     Inr (JArr [JObj [(''name'', JStr (js ''Client'')), (''description'', JStr [])],
                JObj [(''name'', JStr (js ''Server'')), (''description'', JStr [])]])
   \<and> get_prop (fallbackDiagramConversion
      ([0x250C, 0x2500, 0x2510, 0x0A, 0x2502] @ js '' Client '' @ [0x2502, 0x0A]
         @ js ''| Server |'' @ [0x0A] @ js '' Client'')) ''summary'' =
     Inr (JStr (js ''Client'' @ [0x0A, 0x2022, 0x20] @ js ''Server''))"
proof -
  let ?d = "[0x250C, 0x2500, 0x2510, 0x0A, 0x2502] @ js '' Client '' @ [0x2502, 0x0A]
         @ js ''| Server |'' @ [0x0A] @ js '' Client''"
  have u: "uniqueContent ?d = [js ''Client'', js ''Server'']"
    by code_simp
  note t = fallbackDiagramConversion_shape [of ?d]
  have c: "get_prop (fallbackDiagramConversion ?d) ''components'' =
     Inr (JArr (map (\<lambda>t. JObj [(''name'', JStr t), (''description'', JStr [])])
                  (take 20 (uniqueContent ?d))))"
    by (rule t [THEN conjunct1])
  have s: "get_prop (fallbackDiagramConversion ?d) ''summary'' =
       Inr (JStr (join [0x0A, 0x2022, 0x20] (uniqueContent ?d)))"
    by (rule t [THEN conjunct2, THEN conjunct2, THEN conjunct2, THEN conjunct1])
  have c': "get_prop (fallbackDiagramConversion ?d) ''components'' =
     Inr (JArr [JObj [(''name'', JStr (js ''Client'')), (''description'', JStr [])],
                JObj [(''name'', JStr (js ''Server'')), (''description'', JStr [])]])"
    unfolding c u by simp
  have s': "get_prop (fallbackDiagramConversion ?d) ''summary'' =
     Inr (JStr (js ''Client'' @ [0x0A, 0x2022, 0x20] @ js ''Server''))"
    unfolding s u by simp
  show ?thesis using c' s' by (rule conjI)
qed

subsection \<open>Retry loop of the two wrappers\<close>

declare convertDiagramWithAI_loop.simps [simp del]
declare parseDocumentWithAI_loop.simps [simp del]

lemma calls_retry_pause [simp]: "calls (retry_pause h attempt lastError w) = calls w"
  by (simp add: retry_pause_def getRetryDelay_def Let_def split: option.splits prod.splits)

lemma diagram_loop_step:
  "attempt \<le> maxRetries \<Longrightarrow>
   convertDiagramWithAI_loop h d attempt lastError w =
     (case decode_reply h (length (calls w)) (DiagramPrompt d) of
        Inr parsed \<Rightarrow>
          (JObj (object_spread [(''success'', JBool True)] parsed),
           (retry_pause h attempt lastError w)\<lparr>calls := calls w @ [DiagramPrompt d]\<rparr>)
      | Inl error \<Rightarrow>
          if isRetryable_diagram error \<and> attempt < maxRetries
          then convertDiagramWithAI_loop h d (attempt + 1) (Some error)
                 ((retry_pause h attempt lastError w)\<lparr>calls := calls w @ [DiagramPrompt d]\<rparr>)
          else (fallbackDiagramConversion d,
                (retry_pause h attempt lastError w)\<lparr>calls := calls w @ [DiagramPrompt d]\<rparr>))"
  by (subst convertDiagramWithAI_loop.simps) (auto simp: ai_attempt_def split: sum.splits)

lemma document_loop_step:
  "attempt \<le> maxRetries \<Longrightarrow>
   parseDocumentWithAI_loop h m attempt lastError w =
     (case decode_reply h (length (calls w)) (DocumentPrompt m) of
        Inr parsed \<Rightarrow>
          (parsed, (retry_pause h attempt lastError w)\<lparr>calls := calls w @ [DocumentPrompt m]\<rparr>)
      | Inl error \<Rightarrow>
          if isRetryable_document error \<and> attempt < maxRetries
          then parseDocumentWithAI_loop h m (attempt + 1) (Some error)
                 ((retry_pause h attempt lastError w)\<lparr>calls := calls w @ [DocumentPrompt m]\<rparr>)
          else (JNull,
                (retry_pause h attempt lastError w)\<lparr>calls := calls w @ [DocumentPrompt m]\<rparr>))"
  by (subst parseDocumentWithAI_loop.simps) (auto simp: ai_attempt_def split: sum.splits)

text \<open>Every attempt makes one call, so a run of the loop from \<open>attempt\<close> makes at least one
  and at most \<open>3 - attempt\<close> calls.\<close>

lemma diagram_loop_calls:
  "attempt \<le> maxRetries \<Longrightarrow>
   \<exists>n. 1 \<le> n \<and> n \<le> 3 - attempt \<and>
     calls (snd (convertDiagramWithAI_loop h d attempt lastError w)) =
       calls w @ replicate n (DiagramPrompt d)"
proof (induction h d attempt lastError w rule: convertDiagramWithAI_loop.induct)
  case (1 h d attempt lastError w)
  let ?w' = "(retry_pause h attempt lastError w)\<lparr>calls := calls w @ [DiagramPrompt d]\<rparr>"
  show ?case
  proof (cases "decode_reply h (length (calls w)) (DiagramPrompt d)")
    case (Inr parsed)
    then show ?thesis using "1.prems"
      by (auto simp: diagram_loop_step maxRetries_def intro!: exI [of _ 1])
  next
    case (Inl error)
    show ?thesis
    proof (cases "isRetryable_diagram error \<and> attempt < maxRetries")
      case False
      then show ?thesis using Inl "1.prems"
        by (auto simp: diagram_loop_step maxRetries_def intro!: exI [of _ 1])
    next
      case True
      have ai: "ai_attempt h (DiagramPrompt d) (retry_pause h attempt lastError w) = (Inl error, ?w')"
        using Inl by (simp add: ai_attempt_def)
      from True have "attempt + 1 \<le> maxRetries" by simp
      with "1.IH" [OF "1.prems" ai [symmetric] refl] True
      obtain n where n: "1 \<le> n" "n \<le> 3 - (attempt + 1)"
        "calls (snd (convertDiagramWithAI_loop h d (attempt + 1) (Some error) ?w')) =
           calls ?w' @ replicate n (DiagramPrompt d)"
        by auto
      have "calls (snd (convertDiagramWithAI_loop h d attempt lastError w)) =
              calls w @ replicate (Suc n) (DiagramPrompt d)"
        using True Inl "1.prems" n(3) by (simp add: diagram_loop_step)
      moreover have "1 \<le> Suc n" "Suc n \<le> 3 - attempt"
        using n(1,2) True by (auto simp: maxRetries_def)
      ultimately show ?thesis by blast
    qed
  qed
qed

lemma document_loop_calls:
  "attempt \<le> maxRetries \<Longrightarrow>
   \<exists>n. 1 \<le> n \<and> n \<le> 3 - attempt \<and>
     calls (snd (parseDocumentWithAI_loop h d attempt lastError w)) =
       calls w @ replicate n (DocumentPrompt d)"
proof (induction h d attempt lastError w rule: parseDocumentWithAI_loop.induct)
  case (1 h d attempt lastError w)
  let ?w' = "(retry_pause h attempt lastError w)\<lparr>calls := calls w @ [DocumentPrompt d]\<rparr>"
  show ?case
  proof (cases "decode_reply h (length (calls w)) (DocumentPrompt d)")
    case (Inr parsed)
    then show ?thesis using "1.prems"
      by (auto simp: document_loop_step maxRetries_def intro!: exI [of _ 1])
  next
    case (Inl error)
    show ?thesis
    proof (cases "isRetryable_document error \<and> attempt < maxRetries")
      case False
      then show ?thesis using Inl "1.prems"
        by (auto simp: document_loop_step maxRetries_def intro!: exI [of _ 1])
    next
      case True
      have ai: "ai_attempt h (DocumentPrompt d) (retry_pause h attempt lastError w) = (Inl error, ?w')"
        using Inl by (simp add: ai_attempt_def)
      from True have "attempt + 1 \<le> maxRetries" by simp
      with "1.IH" [OF "1.prems" ai [symmetric] refl] True
      obtain n where n: "1 \<le> n" "n \<le> 3 - (attempt + 1)"
        "calls (snd (parseDocumentWithAI_loop h d (attempt + 1) (Some error) ?w')) =
           calls ?w' @ replicate n (DocumentPrompt d)"
        by auto
      have "calls (snd (parseDocumentWithAI_loop h d attempt lastError w)) =
              calls w @ replicate (Suc n) (DocumentPrompt d)"
        using True Inl "1.prems" n(3) by (simp add: document_loop_step)
      moreover have "1 \<le> Suc n" "Suc n \<le> 3 - attempt"
        using n(1,2) True by (auto simp: maxRetries_def)
      ultimately show ?thesis by blast
    qed
  qed
qed


lemma diagram_exhausted:
  assumes a: "isGeminiAvailable g"
    and e0: "decode_reply h (length (calls w)) (DiagramPrompt d) = Inl e0" "isRetryable_diagram e0"
    and e1: "decode_reply h (length (calls w) + 1) (DiagramPrompt d) = Inl e1" "isRetryable_diagram e1"
    and e2: "decode_reply h (length (calls w) + 2) (DiagramPrompt d) = Inl e2"
  shows "fst (convertDiagramWithAI h g d w) = fallbackDiagramConversion d"
    and "calls (snd (convertDiagramWithAI h g d w)) = calls w @ replicate 3 (DiagramPrompt d)"
  using a e0 e1 e2
  by (simp_all add: convertDiagramWithAI_def isGeminiAvailable_def diagram_loop_step maxRetries_def
      numeral_3_eq_3)

lemma document_exhausted:
  assumes a: "isGeminiAvailable g"
    and e0: "decode_reply h (length (calls w)) (DocumentPrompt d) = Inl e0" "isRetryable_document e0"
    and e1: "decode_reply h (length (calls w) + 1) (DocumentPrompt d) = Inl e1" "isRetryable_document e1"
    and e2: "decode_reply h (length (calls w) + 2) (DocumentPrompt d) = Inl e2"
  shows "fst (parseDocumentWithAI h g d w) = JNull"
    and "calls (snd (parseDocumentWithAI h g d w)) = calls w @ replicate 3 (DocumentPrompt d)"
  using a e0 e1 e2
  by (simp_all add: parseDocumentWithAI_def isGeminiAvailable_def document_loop_step maxRetries_def
      numeral_3_eq_3)

lemma diagram_permanent:
  assumes a: "isGeminiAvailable g"
    and e0: "decode_reply h (length (calls w)) (DiagramPrompt d) = Inl e0" "\<not> isRetryable_diagram e0"
  shows "fst (convertDiagramWithAI h g d w) = fallbackDiagramConversion d"
    and "calls (snd (convertDiagramWithAI h g d w)) = calls w @ [DiagramPrompt d]"
  using a e0
  by (simp_all add: convertDiagramWithAI_def isGeminiAvailable_def diagram_loop_step maxRetries_def)

lemma document_permanent:
  assumes a: "isGeminiAvailable g"
    and e0: "decode_reply h (length (calls w)) (DocumentPrompt d) = Inl e0" "\<not> isRetryable_document e0"
  shows "fst (parseDocumentWithAI h g d w) = JNull"
    and "calls (snd (parseDocumentWithAI h g d w)) = calls w @ [DocumentPrompt d]"
  using a e0
  by (simp_all add: parseDocumentWithAI_def isGeminiAvailable_def document_loop_step maxRetries_def)

lemma diagram_retried:
  assumes a: "isGeminiAvailable g"
    and e0: "decode_reply h (length (calls w)) (DiagramPrompt d) = Inl e0" "isRetryable_diagram e0"
  shows "length (calls w) + 1 < length (calls (snd (convertDiagramWithAI h g d w)))"
proof -
  let ?w' = "(retry_pause h 0 None w)\<lparr>calls := calls w @ [DiagramPrompt d]\<rparr>"
  have "convertDiagramWithAI h g d w = convertDiagramWithAI_loop h d 1 (Some e0) ?w'"
    using a e0
    by (simp add: convertDiagramWithAI_def isGeminiAvailable_def diagram_loop_step maxRetries_def)
  moreover obtain n where "1 \<le> n"
    "calls (snd (convertDiagramWithAI_loop h d 1 (Some e0) ?w')) = calls ?w' @ replicate n (DiagramPrompt d)"
    using diagram_loop_calls [of 1 h d "Some e0" ?w'] by (auto simp: maxRetries_def)
  ultimately show ?thesis by simp
qed

lemma document_retried:
  assumes a: "isGeminiAvailable g"
    and e0: "decode_reply h (length (calls w)) (DocumentPrompt d) = Inl e0" "isRetryable_document e0"
  shows "length (calls w) + 1 < length (calls (snd (parseDocumentWithAI h g d w)))"
proof -
  let ?w' = "(retry_pause h 0 None w)\<lparr>calls := calls w @ [DocumentPrompt d]\<rparr>"
  have "parseDocumentWithAI h g d w = parseDocumentWithAI_loop h d 1 (Some e0) ?w'"
    using a e0
    by (simp add: parseDocumentWithAI_def isGeminiAvailable_def document_loop_step maxRetries_def)
  moreover obtain n where "1 \<le> n"
    "calls (snd (parseDocumentWithAI_loop h d 1 (Some e0) ?w')) = calls ?w' @ replicate n (DocumentPrompt d)"
    using document_loop_calls [of 1 h d "Some e0" ?w'] by (auto simp: maxRetries_def)
  ultimately show ?thesis by simp
qed


subsection \<open>Runs that begin with retried failures\<close>

lemma diagram_loop_skip:
  "attempt + n \<le> maxRetries \<Longrightarrow>
   (\<forall>k<n. \<exists>e. decode_reply h (length (calls w) + k) (DiagramPrompt d) = Inl e
              \<and> isRetryable_diagram e) \<Longrightarrow>
   \<exists>lastError' w'. convertDiagramWithAI_loop h d attempt lastError w =
                     convertDiagramWithAI_loop h d (attempt + n) lastError' w'
                   \<and> calls w' = calls w @ replicate n (DiagramPrompt d)"
proof (induction n arbitrary: attempt lastError w)
  case 0
  then show ?case by auto
next
  case (Suc n)
  let ?w1 = "(retry_pause h attempt lastError w)\<lparr>calls := calls w @ [DiagramPrompt d]\<rparr>"
  from Suc.prems(2) [rule_format, of 0] obtain e where
    e: "decode_reply h (length (calls w)) (DiagramPrompt d) = Inl e" "isRetryable_diagram e"
    by auto
  from Suc.prems(1) have a: "attempt < maxRetries" "attempt \<le> maxRetries" "(attempt + 1) + n \<le> maxRetries"
    by simp_all
  have step: "convertDiagramWithAI_loop h d attempt lastError w =
              convertDiagramWithAI_loop h d (attempt + 1) (Some e) ?w1"
    using a e by (simp add: diagram_loop_step)
  have rest: "\<forall>k<n. \<exists>e. decode_reply h (length (calls ?w1) + k) (DiagramPrompt d) = Inl e
              \<and> isRetryable_diagram e"
  proof (intro allI impI)
    fix k assume "k < n"
    then have "Suc k < Suc n" by simp
    from Suc.prems(2) [rule_format, OF this] show
      "\<exists>e. decode_reply h (length (calls ?w1) + k) (DiagramPrompt d) = Inl e \<and> isRetryable_diagram e"
      by simp
  qed
  from Suc.IH [OF a(3) rest, of "Some e"] obtain lastError' w' where
    r: "convertDiagramWithAI_loop h d (attempt + 1) (Some e) ?w1 =
        convertDiagramWithAI_loop h d (attempt + 1 + n) lastError' w'"
       "calls w' = calls ?w1 @ replicate n (DiagramPrompt d)"
    by blast
  have "convertDiagramWithAI_loop h d attempt lastError w =
        convertDiagramWithAI_loop h d (attempt + Suc n) lastError' w'"
    using step r(1) by simp
  moreover have "calls w' = calls w @ replicate (Suc n) (DiagramPrompt d)"
    using r(2) by (simp add: replicate_append_same)
  ultimately show ?case by blast
qed


lemma diagram_prefix_success:
  assumes a: "isGeminiAvailable g" and n: "n \<le> maxRetries"
    and pre: "\<forall>k<n. \<exists>e. decode_reply h (length (calls w) + k) (DiagramPrompt d) = Inl e
                \<and> isRetryable_diagram e"
    and ok: "decode_reply h (length (calls w) + n) (DiagramPrompt d) = Inr parsed"
  shows "fst (convertDiagramWithAI h g d w) = JObj (object_spread [(''success'', JBool True)] parsed)"
    and "calls (snd (convertDiagramWithAI h g d w)) = calls w @ replicate (n + 1) (DiagramPrompt d)"
proof -
  from diagram_loop_skip [of 0 n h w d None] n pre obtain lastError' w' where
    r: "convertDiagramWithAI_loop h d 0 None w = convertDiagramWithAI_loop h d n lastError' w'"
       "calls w' = calls w @ replicate n (DiagramPrompt d)"
    by auto
  have c: "convertDiagramWithAI h g d w = convertDiagramWithAI_loop h d n lastError' w'"
    using a r(1) by (simp add: convertDiagramWithAI_def isGeminiAvailable_def)
  have k: "length (calls w') = length (calls w) + n" using r(2) by simp
  show "fst (convertDiagramWithAI h g d w) = JObj (object_spread [(''success'', JBool True)] parsed)"
    unfolding c using n ok by (simp add: diagram_loop_step k)
  show "calls (snd (convertDiagramWithAI h g d w)) = calls w @ replicate (n + 1) (DiagramPrompt d)"
    unfolding c using n ok by (simp add: diagram_loop_step k r(2) replicate_append_same)
qed

lemma diagram_prefix_stop:
  assumes a: "isGeminiAvailable g" and n: "n \<le> maxRetries"
    and pre: "\<forall>k<n. \<exists>e. decode_reply h (length (calls w) + k) (DiagramPrompt d) = Inl e
                \<and> isRetryable_diagram e"
    and err: "decode_reply h (length (calls w) + n) (DiagramPrompt d) = Inl error"
    and stop: "\<not> isRetryable_diagram error \<or> n = maxRetries"
  shows "fst (convertDiagramWithAI h g d w) = fallbackDiagramConversion d"
    and "calls (snd (convertDiagramWithAI h g d w)) = calls w @ replicate (n + 1) (DiagramPrompt d)"
proof -
  from diagram_loop_skip [of 0 n h w d None] n pre obtain lastError' w' where
    r: "convertDiagramWithAI_loop h d 0 None w = convertDiagramWithAI_loop h d n lastError' w'"
       "calls w' = calls w @ replicate n (DiagramPrompt d)"
    by auto
  have c: "convertDiagramWithAI h g d w = convertDiagramWithAI_loop h d n lastError' w'"
    using a r(1) by (simp add: convertDiagramWithAI_def isGeminiAvailable_def)
  have k: "length (calls w') = length (calls w) + n" using r(2) by simp
  show "fst (convertDiagramWithAI h g d w) = fallbackDiagramConversion d"
    unfolding c using n err stop by (auto simp: diagram_loop_step k)
  show "calls (snd (convertDiagramWithAI h g d w)) = calls w @ replicate (n + 1) (DiagramPrompt d)"
    unfolding c using n err stop by (auto simp: diagram_loop_step k r(2) replicate_append_same)
qed

lemma diagram_prefix_retry:
  assumes a: "isGeminiAvailable g" and n: "n < maxRetries"
    and pre: "\<forall>k<n. \<exists>e. decode_reply h (length (calls w) + k) (DiagramPrompt d) = Inl e
                \<and> isRetryable_diagram e"
    and err: "decode_reply h (length (calls w) + n) (DiagramPrompt d) = Inl error"
    and again: "isRetryable_diagram error"
  shows "length (calls w) + n + 1 < length (calls (snd (convertDiagramWithAI h g d w)))"
proof -
  from diagram_loop_skip [of 0 n h w d None] n pre obtain lastError' w' where
    r: "convertDiagramWithAI_loop h d 0 None w = convertDiagramWithAI_loop h d n lastError' w'"
       "calls w' = calls w @ replicate n (DiagramPrompt d)"
    by auto
  have c: "convertDiagramWithAI h g d w = convertDiagramWithAI_loop h d n lastError' w'"
    using a r(1) by (simp add: convertDiagramWithAI_def isGeminiAvailable_def)
  have k: "length (calls w') = length (calls w) + n" using r(2) by simp
  let ?w2 = "(retry_pause h n lastError' w')\<lparr>calls := calls w' @ [DiagramPrompt d]\<rparr>"
  have s: "convertDiagramWithAI_loop h d n lastError' w' =
           convertDiagramWithAI_loop h d (n + 1) (Some error) ?w2"
    using n err again by (simp add: diagram_loop_step k)
  from n have "n + 1 \<le> maxRetries" by simp
  from diagram_loop_calls [OF this, of h d "Some error" ?w2] obtain m where
    m: "1 \<le> m" "calls (snd (convertDiagramWithAI_loop h d (n + 1) (Some error) ?w2)) =
                  calls ?w2 @ replicate m (DiagramPrompt d)"
    by blast
  show ?thesis unfolding c s m(2) using m(1) k by simp
qed

lemma document_loop_skip:
  "attempt + n \<le> maxRetries \<Longrightarrow>
   (\<forall>k<n. \<exists>e. decode_reply h (length (calls w) + k) (DocumentPrompt d) = Inl e
              \<and> isRetryable_document e) \<Longrightarrow>
   \<exists>lastError' w'. parseDocumentWithAI_loop h d attempt lastError w =
                     parseDocumentWithAI_loop h d (attempt + n) lastError' w'
                   \<and> calls w' = calls w @ replicate n (DocumentPrompt d)"
proof (induction n arbitrary: attempt lastError w)
  case 0
  then show ?case by auto
next
  case (Suc n)
  let ?w1 = "(retry_pause h attempt lastError w)\<lparr>calls := calls w @ [DocumentPrompt d]\<rparr>"
  from Suc.prems(2) [rule_format, of 0] obtain e where
    e: "decode_reply h (length (calls w)) (DocumentPrompt d) = Inl e" "isRetryable_document e"
    by auto
  from Suc.prems(1) have a: "attempt < maxRetries" "attempt \<le> maxRetries" "(attempt + 1) + n \<le> maxRetries"
    by simp_all
  have step: "parseDocumentWithAI_loop h d attempt lastError w =
              parseDocumentWithAI_loop h d (attempt + 1) (Some e) ?w1"
    using a e by (simp add: document_loop_step)
  have rest: "\<forall>k<n. \<exists>e. decode_reply h (length (calls ?w1) + k) (DocumentPrompt d) = Inl e
              \<and> isRetryable_document e"
  proof (intro allI impI)
    fix k assume "k < n"
    then have "Suc k < Suc n" by simp
    from Suc.prems(2) [rule_format, OF this] show
      "\<exists>e. decode_reply h (length (calls ?w1) + k) (DocumentPrompt d) = Inl e \<and> isRetryable_document e"
      by simp
  qed
  from Suc.IH [OF a(3) rest, of "Some e"] obtain lastError' w' where
    r: "parseDocumentWithAI_loop h d (attempt + 1) (Some e) ?w1 =
        parseDocumentWithAI_loop h d (attempt + 1 + n) lastError' w'"
       "calls w' = calls ?w1 @ replicate n (DocumentPrompt d)"
    by blast
  have "parseDocumentWithAI_loop h d attempt lastError w =
        parseDocumentWithAI_loop h d (attempt + Suc n) lastError' w'"
    using step r(1) by simp
  moreover have "calls w' = calls w @ replicate (Suc n) (DocumentPrompt d)"
    using r(2) by (simp add: replicate_append_same)
  ultimately show ?case by blast
qed


lemma document_prefix_success:
  assumes a: "isGeminiAvailable g" and n: "n \<le> maxRetries"
    and pre: "\<forall>k<n. \<exists>e. decode_reply h (length (calls w) + k) (DocumentPrompt d) = Inl e
                \<and> isRetryable_document e"
    and ok: "decode_reply h (length (calls w) + n) (DocumentPrompt d) = Inr parsed"
  shows "fst (parseDocumentWithAI h g d w) = parsed"
    and "calls (snd (parseDocumentWithAI h g d w)) = calls w @ replicate (n + 1) (DocumentPrompt d)"
proof -
  from document_loop_skip [of 0 n h w d None] n pre obtain lastError' w' where
    r: "parseDocumentWithAI_loop h d 0 None w = parseDocumentWithAI_loop h d n lastError' w'"
       "calls w' = calls w @ replicate n (DocumentPrompt d)"
    by auto
  have c: "parseDocumentWithAI h g d w = parseDocumentWithAI_loop h d n lastError' w'"
    using a r(1) by (simp add: parseDocumentWithAI_def isGeminiAvailable_def)
  have k: "length (calls w') = length (calls w) + n" using r(2) by simp
  show "fst (parseDocumentWithAI h g d w) = parsed"
    unfolding c using n ok by (simp add: document_loop_step k)
  show "calls (snd (parseDocumentWithAI h g d w)) = calls w @ replicate (n + 1) (DocumentPrompt d)"
    unfolding c using n ok by (simp add: document_loop_step k r(2) replicate_append_same)
qed

lemma document_prefix_stop:
  assumes a: "isGeminiAvailable g" and n: "n \<le> maxRetries"
    and pre: "\<forall>k<n. \<exists>e. decode_reply h (length (calls w) + k) (DocumentPrompt d) = Inl e
                \<and> isRetryable_document e"
    and err: "decode_reply h (length (calls w) + n) (DocumentPrompt d) = Inl error"
    and stop: "\<not> isRetryable_document error \<or> n = maxRetries"
  shows "fst (parseDocumentWithAI h g d w) = JNull"
    and "calls (snd (parseDocumentWithAI h g d w)) = calls w @ replicate (n + 1) (DocumentPrompt d)"
proof -
  from document_loop_skip [of 0 n h w d None] n pre obtain lastError' w' where
    r: "parseDocumentWithAI_loop h d 0 None w = parseDocumentWithAI_loop h d n lastError' w'"
       "calls w' = calls w @ replicate n (DocumentPrompt d)"
    by auto
  have c: "parseDocumentWithAI h g d w = parseDocumentWithAI_loop h d n lastError' w'"
    using a r(1) by (simp add: parseDocumentWithAI_def isGeminiAvailable_def)
  have k: "length (calls w') = length (calls w) + n" using r(2) by simp
  show "fst (parseDocumentWithAI h g d w) = JNull"
    unfolding c using n err stop by (auto simp: document_loop_step k)
  show "calls (snd (parseDocumentWithAI h g d w)) = calls w @ replicate (n + 1) (DocumentPrompt d)"
    unfolding c using n err stop by (auto simp: document_loop_step k r(2) replicate_append_same)
qed

lemma document_prefix_retry:
  assumes a: "isGeminiAvailable g" and n: "n < maxRetries"
    and pre: "\<forall>k<n. \<exists>e. decode_reply h (length (calls w) + k) (DocumentPrompt d) = Inl e
                \<and> isRetryable_document e"
    and err: "decode_reply h (length (calls w) + n) (DocumentPrompt d) = Inl error"
    and again: "isRetryable_document error"
  shows "length (calls w) + n + 1 < length (calls (snd (parseDocumentWithAI h g d w)))"
proof -
  from document_loop_skip [of 0 n h w d None] n pre obtain lastError' w' where
    r: "parseDocumentWithAI_loop h d 0 None w = parseDocumentWithAI_loop h d n lastError' w'"
       "calls w' = calls w @ replicate n (DocumentPrompt d)"
    by auto
  have c: "parseDocumentWithAI h g d w = parseDocumentWithAI_loop h d n lastError' w'"
    using a r(1) by (simp add: parseDocumentWithAI_def isGeminiAvailable_def)
  have k: "length (calls w') = length (calls w) + n" using r(2) by simp
  let ?w2 = "(retry_pause h n lastError' w')\<lparr>calls := calls w' @ [DocumentPrompt d]\<rparr>"
  have s: "parseDocumentWithAI_loop h d n lastError' w' =
           parseDocumentWithAI_loop h d (n + 1) (Some error) ?w2"
    using n err again by (simp add: document_loop_step k)
  from n have "n + 1 \<le> maxRetries" by simp
  from document_loop_calls [OF this, of h d "Some error" ?w2] obtain m where
    m: "1 \<le> m" "calls (snd (parseDocumentWithAI_loop h d (n + 1) (Some error) ?w2)) =
                  calls ?w2 @ replicate m (DocumentPrompt d)"
    by blast
  show ?thesis unfolding c s m(2) using m(1) k by simp
qed

subsection \<open>Retryability\<close>

lemma decode_reply_failing_host: "decode_reply (failing_host e) k c = Inl e"
  by (simp add: decode_reply_def failing_host_def always_throws_def)

text \<open>
  Claim C3, as amended. Each wrapper has its own test. With the client available, let the
  attempts before attempt \<open>n\<close> (counted from 0) have failed with errors the wrapper
  retried, and let attempt \<open>n\<close>, which is not the last, fail with \<open>error\<close>. Then
  \<open>convertDiagramWithAI\<close> makes a further attempt exactly when the status code is 404, 503
  or 429 or the message contains "404", "503", "overloaded" or "temporarily";
  \<open>parseDocumentWithAI\<close> exactly when the message contains "429", "503", "quota",
  "overloaded" or "rate" (it reads no status code). An error outside the wrapper's own
  list ends the loop at once: attempt \<open>n\<close> is the last call and the fallback value is
  returned.
\<close>

theorem retryability_per_wrapper:
  assumes "isGeminiAvailable g" and "n < maxRetries"
  shows "((\<forall>k<n. \<exists>e. decode_reply h (length (calls w) + k) (DiagramPrompt d) = Inl e
                    \<and> isRetryable_diagram e)
          \<and> decode_reply h (length (calls w) + n) (DiagramPrompt d) = Inl error \<longrightarrow>
           (length (calls w) + n + 1 < length (calls (snd (convertDiagramWithAI h g d w))) \<longleftrightarrow>
              statusCode error = Some 404 \<or> statusCode error = Some 503 \<or>
              statusCode error = Some 429 \<or>
              message_includes error ''404'' \<or> message_includes error ''503'' \<or>
              message_includes error ''overloaded'' \<or> message_includes error ''temporarily'')
           \<and> (\<not> isRetryable_diagram error \<longrightarrow>
                calls (snd (convertDiagramWithAI h g d w)) =
                  calls w @ replicate (n + 1) (DiagramPrompt d)
                \<and> fst (convertDiagramWithAI h g d w) = fallbackDiagramConversion d))
       \<and> ((\<forall>k<n. \<exists>e. decode_reply h (length (calls w) + k) (DocumentPrompt d) = Inl e
                    \<and> isRetryable_document e)
          \<and> decode_reply h (length (calls w) + n) (DocumentPrompt d) = Inl error \<longrightarrow>
           (length (calls w) + n + 1 < length (calls (snd (parseDocumentWithAI h g d w))) \<longleftrightarrow>
              message_includes error ''429'' \<or> message_includes error ''503'' \<or>
              message_includes error ''quota'' \<or> message_includes error ''overloaded'' \<or>
              message_includes error ''rate'')
           \<and> (\<not> isRetryable_document error \<longrightarrow>
                calls (snd (parseDocumentWithAI h g d w)) =
                  calls w @ replicate (n + 1) (DocumentPrompt d)
                \<and> fst (parseDocumentWithAI h g d w) = JNull))"
proof (intro conjI impI)
  assume h: "(\<forall>k<n. \<exists>e. decode_reply h (length (calls w) + k) (DiagramPrompt d) = Inl e
                    \<and> isRetryable_diagram e)
          \<and> decode_reply h (length (calls w) + n) (DiagramPrompt d) = Inl error"
  then have pre: "\<forall>k<n. \<exists>e. decode_reply h (length (calls w) + k) (DiagramPrompt d) = Inl e
                    \<and> isRetryable_diagram e"
    and f: "decode_reply h (length (calls w) + n) (DiagramPrompt d) = Inl error"
    by simp_all
  from assms(2) have le: "n \<le> maxRetries" by simp
  show "length (calls w) + n + 1 < length (calls (snd (convertDiagramWithAI h g d w))) \<longleftrightarrow>
              statusCode error = Some 404 \<or> statusCode error = Some 503 \<or>
              statusCode error = Some 429 \<or>
              message_includes error ''404'' \<or> message_includes error ''503'' \<or>
              message_includes error ''overloaded'' \<or> message_includes error ''temporarily''"
  proof (cases "isRetryable_diagram error")
    case True
    with diagram_prefix_retry [OF assms pre f] show ?thesis
      by (simp add: isRetryable_diagram_def)
  next
    case False
    with diagram_prefix_stop(2) [OF assms(1) le pre f] show ?thesis
      by (simp add: isRetryable_diagram_def)
  qed
  show "calls (snd (convertDiagramWithAI h g d w)) = calls w @ replicate (n + 1) (DiagramPrompt d)"
    if "\<not> isRetryable_diagram error"
    using diagram_prefix_stop(2) [OF assms(1) le pre f] that by simp
  show "fst (convertDiagramWithAI h g d w) = fallbackDiagramConversion d"
    if "\<not> isRetryable_diagram error"
    using diagram_prefix_stop(1) [OF assms(1) le pre f] that by simp
next
  assume h: "(\<forall>k<n. \<exists>e. decode_reply h (length (calls w) + k) (DocumentPrompt d) = Inl e
                    \<and> isRetryable_document e)
          \<and> decode_reply h (length (calls w) + n) (DocumentPrompt d) = Inl error"
  then have pre: "\<forall>k<n. \<exists>e. decode_reply h (length (calls w) + k) (DocumentPrompt d) = Inl e
                    \<and> isRetryable_document e"
    and f: "decode_reply h (length (calls w) + n) (DocumentPrompt d) = Inl error"
    by simp_all
  from assms(2) have le: "n \<le> maxRetries" by simp
  show "length (calls w) + n + 1 < length (calls (snd (parseDocumentWithAI h g d w))) \<longleftrightarrow>
              message_includes error ''429'' \<or> message_includes error ''503'' \<or>
              message_includes error ''quota'' \<or> message_includes error ''overloaded'' \<or>
              message_includes error ''rate''"
  proof (cases "isRetryable_document error")
    case True
    with document_prefix_retry [OF assms pre f] show ?thesis
      by (simp add: isRetryable_document_def)
  next
    case False
    with document_prefix_stop(2) [OF assms(1) le pre f] show ?thesis
      by (simp add: isRetryable_document_def)
  qed
  show "calls (snd (parseDocumentWithAI h g d w)) = calls w @ replicate (n + 1) (DocumentPrompt d)"
    if "\<not> isRetryable_document error"
    using document_prefix_stop(2) [OF assms(1) le pre f] that by simp
  show "fst (parseDocumentWithAI h g d w) = JNull"
    if "\<not> isRetryable_document error"
    using document_prefix_stop(1) [OF assms(1) le pre f] that by simp
qed

text \<open>A backend that always fails with status 429 and the message "Too Many Requests":
  the diagram wrapper tries again after its second attempt too (\<open>n = 1\<close>), the document
  wrapper stops after its first (\<open>n = 0\<close>).\<close>

theorem retryability_per_wrapper_witness:
  "isGeminiAvailable gemini_ready \<and> (1::nat) < maxRetries
   \<and> 2 < length (calls (snd (convertDiagramWithAI
            (failing_host (error_with_status 429 ''Too Many Requests''))
            gemini_ready (js ''+--+'') initial_world)))
   \<and> calls (snd (parseDocumentWithAI
            (failing_host (error_with_status 429 ''Too Many Requests''))
            gemini_ready (js ''+--+'') initial_world)) = [DocumentPrompt (js ''+--+'')]"
proof -
  let ?e = "error_with_status 429 ''Too Many Requests''"
  have a: "isGeminiAvailable gemini_ready"
    by (simp add: isGeminiAvailable_def gemini_ready_def)
  have m1: "(1::nat) < maxRetries" and m0: "(0::nat) < maxRetries"
    by (simp_all add: maxRetries_def)
  have s: "statusCode ?e = Some 429"
    by (simp add: statusCode_def error_with_status_def)
  then have r: "isRetryable_diagram ?e"
    by (simp add: isRetryable_diagram_def)
  have n: "\<not> isRetryable_document ?e"
    by code_simp
  have c: "calls initial_world = []"
    by (simp add: initial_world_def)
  note t1 = retryability_per_wrapper [OF a m1, of "failing_host ?e" initial_world "js ''+--+''" ?e]
  note t0 = retryability_per_wrapper [OF a m0, of "failing_host ?e" initial_world "js ''+--+''" ?e]
  have d: "2 < length (calls (snd (convertDiagramWithAI (failing_host ?e) gemini_ready
             (js ''+--+'') initial_world)))"
    using t1 [THEN conjunct1] s r by (simp add: decode_reply_failing_host c)
  have p: "calls (snd (parseDocumentWithAI (failing_host ?e) gemini_ready
             (js ''+--+'') initial_world)) = [DocumentPrompt (js ''+--+'')]"
    using t0 [THEN conjunct2] n by (simp add: decode_reply_failing_host c)
  show ?thesis using a m1 d p by blast
qed

text \<open>
  Claim C3 as stated fails: an error whose message contains "quota" matches the claimed
  set, yet \<open>convertDiagramWithAI\<close> makes one attempt only.
\<close>

theorem retryability_union_counterexample:
  "claimed_retryable (error_with_message ''quota exceeded'')
   \<and> calls (snd (convertDiagramWithAI (failing_host (error_with_message ''quota exceeded''))
        gemini_ready (js ''+--+'') initial_world)) = [DiagramPrompt (js ''+--+'')]"
proof -
  let ?e = "error_with_message ''quota exceeded''"
  have a: "isGeminiAvailable gemini_ready"
    by (simp add: isGeminiAvailable_def gemini_ready_def)
  have q: "claimed_retryable ?e"
    by code_simp
  have n: "\<not> isRetryable_diagram ?e"
    by code_simp
  have "calls (snd (convertDiagramWithAI (failing_host ?e) gemini_ready (js ''+--+'') initial_world))
          = calls initial_world @ [DiagramPrompt (js ''+--+'')]"
    by (rule diagram_permanent(2) [OF a decode_reply_failing_host n])
  then show ?thesis using q by (simp add: initial_world_def)
qed

subsection \<open>Number of attempts\<close>

text \<open>
  Claim C4, as amended: "retryable" is what the wrapper itself classifies as retryable,
  not the set of the specification. With the client available: when each of three successive attempts fails with
  an error the wrapper classifies as retryable, exactly three calls are made and the
  wrapper returns its fallback value (the fallback analysis, respectively \<open>null\<close>); when
  the first attempt fails with an error the wrapper does not classify as retryable,
  exactly one call is made and the fallback value is returned. The wrappers are total
  functions: nothing is raised.
\<close>

theorem retry_attempt_counts:
  assumes "isGeminiAvailable g"
  shows "((\<forall>k<3. \<exists>e. decode_reply h (length (calls w) + k) (DiagramPrompt d) = Inl e
                    \<and> isRetryable_diagram e) \<longrightarrow>
            fst (convertDiagramWithAI h g d w) = fallbackDiagramConversion d
            \<and> calls (snd (convertDiagramWithAI h g d w)) = calls w @ replicate 3 (DiagramPrompt d))
       \<and> ((\<forall>k<3. \<exists>e. decode_reply h (length (calls w) + k) (DocumentPrompt d) = Inl e
                    \<and> isRetryable_document e) \<longrightarrow>
            fst (parseDocumentWithAI h g d w) = JNull
            \<and> calls (snd (parseDocumentWithAI h g d w)) = calls w @ replicate 3 (DocumentPrompt d))
       \<and> ((\<exists>e. decode_reply h (length (calls w)) (DiagramPrompt d) = Inl e
                    \<and> \<not> isRetryable_diagram e) \<longrightarrow>
            fst (convertDiagramWithAI h g d w) = fallbackDiagramConversion d
            \<and> calls (snd (convertDiagramWithAI h g d w)) = calls w @ [DiagramPrompt d])
       \<and> ((\<exists>e. decode_reply h (length (calls w)) (DocumentPrompt d) = Inl e
                    \<and> \<not> isRetryable_document e) \<longrightarrow>
            fst (parseDocumentWithAI h g d w) = JNull
            \<and> calls (snd (parseDocumentWithAI h g d w)) = calls w @ [DocumentPrompt d])"
proof (intro conjI impI)
  assume all: "\<forall>k<3. \<exists>e. decode_reply h (length (calls w) + k) (DiagramPrompt d) = Inl e
                    \<and> isRetryable_diagram e"
  from all [rule_format, of 0] obtain e0 where
    e0: "decode_reply h (length (calls w)) (DiagramPrompt d) = Inl e0" "isRetryable_diagram e0"
    by auto
  from all [rule_format, of 1] obtain e1 where
    e1: "decode_reply h (length (calls w) + 1) (DiagramPrompt d) = Inl e1" "isRetryable_diagram e1"
    by auto
  from all [rule_format, of 2] obtain e2 where
    e2: "decode_reply h (length (calls w) + 2) (DiagramPrompt d) = Inl e2"
    by auto
  show "fst (convertDiagramWithAI h g d w) = fallbackDiagramConversion d"
    by (rule diagram_exhausted(1) [OF assms e0 e1 e2])
  show "calls (snd (convertDiagramWithAI h g d w)) = calls w @ replicate 3 (DiagramPrompt d)"
    by (rule diagram_exhausted(2) [OF assms e0 e1 e2])
next
  assume all: "\<forall>k<3. \<exists>e. decode_reply h (length (calls w) + k) (DocumentPrompt d) = Inl e
                    \<and> isRetryable_document e"
  from all [rule_format, of 0] obtain e0 where
    e0: "decode_reply h (length (calls w)) (DocumentPrompt d) = Inl e0" "isRetryable_document e0"
    by auto
  from all [rule_format, of 1] obtain e1 where
    e1: "decode_reply h (length (calls w) + 1) (DocumentPrompt d) = Inl e1" "isRetryable_document e1"
    by auto
  from all [rule_format, of 2] obtain e2 where
    e2: "decode_reply h (length (calls w) + 2) (DocumentPrompt d) = Inl e2"
    by auto
  show "fst (parseDocumentWithAI h g d w) = JNull"
    by (rule document_exhausted(1) [OF assms e0 e1 e2])
  show "calls (snd (parseDocumentWithAI h g d w)) = calls w @ replicate 3 (DocumentPrompt d)"
    by (rule document_exhausted(2) [OF assms e0 e1 e2])
next
  assume "\<exists>e. decode_reply h (length (calls w)) (DiagramPrompt d) = Inl e \<and> \<not> isRetryable_diagram e"
  then obtain e where e: "decode_reply h (length (calls w)) (DiagramPrompt d) = Inl e"
    "\<not> isRetryable_diagram e" by auto
  show "fst (convertDiagramWithAI h g d w) = fallbackDiagramConversion d"
    by (rule diagram_permanent(1) [OF assms e])
  show "calls (snd (convertDiagramWithAI h g d w)) = calls w @ [DiagramPrompt d]"
    by (rule diagram_permanent(2) [OF assms e])
next
  assume "\<exists>e. decode_reply h (length (calls w)) (DocumentPrompt d) = Inl e \<and> \<not> isRetryable_document e"
  then obtain e where e: "decode_reply h (length (calls w)) (DocumentPrompt d) = Inl e"
    "\<not> isRetryable_document e" by auto
  show "fst (parseDocumentWithAI h g d w) = JNull"
    by (rule document_permanent(1) [OF assms e])
  show "calls (snd (parseDocumentWithAI h g d w)) = calls w @ [DocumentPrompt d]"
    by (rule document_permanent(2) [OF assms e])
qed

text \<open>A backend that always answers "503 overloaded" is called three times by each
  wrapper; one that always answers "API key not valid" is called once.\<close>

theorem retry_attempt_counts_witness:
  "isGeminiAvailable gemini_ready
   \<and> calls (snd (convertDiagramWithAI (failing_host (error_with_message ''503 overloaded''))
        gemini_ready (js ''+--+'') initial_world)) = replicate 3 (DiagramPrompt (js ''+--+''))
   \<and> fst (convertDiagramWithAI (failing_host (error_with_message ''503 overloaded''))
        gemini_ready (js ''+--+'') initial_world) = fallbackDiagramConversion (js ''+--+'')
   \<and> calls (snd (parseDocumentWithAI (failing_host (error_with_message ''503 overloaded''))
        gemini_ready (js ''# T'') initial_world)) = replicate 3 (DocumentPrompt (js ''# T''))
   \<and> fst (parseDocumentWithAI (failing_host (error_with_message ''503 overloaded''))
        gemini_ready (js ''# T'') initial_world) = JNull
   \<and> calls (snd (convertDiagramWithAI (failing_host (error_with_message ''API key not valid''))
        gemini_ready (js ''+--+'') initial_world)) = [DiagramPrompt (js ''+--+'')]
   \<and> calls (snd (parseDocumentWithAI (failing_host (error_with_message ''API key not valid''))
        gemini_ready (js ''# T'') initial_world)) = [DocumentPrompt (js ''# T'')]"
proof -
  let ?t = "error_with_message ''503 overloaded''"
  let ?p = "error_with_message ''API key not valid''"
  have a: "isGeminiAvailable gemini_ready"
    by (simp add: isGeminiAvailable_def gemini_ready_def)
  have c: "calls initial_world = []"
    by (simp add: initial_world_def)
  have t1: "isRetryable_diagram ?t" by code_simp
  have t2: "isRetryable_document ?t" by code_simp
  have p1: "\<not> isRetryable_diagram ?p" by code_simp
  have p2: "\<not> isRetryable_document ?p" by code_simp
  note x = retry_attempt_counts [OF a, of "failing_host ?t" initial_world "js ''+--+''"]
  note y = retry_attempt_counts [OF a, of "failing_host ?t" initial_world "js ''# T''"]
  note u = retry_attempt_counts [OF a, of "failing_host ?p" initial_world "js ''+--+''"]
  note v = retry_attempt_counts [OF a, of "failing_host ?p" initial_world "js ''# T''"]
  have 1: "fst (convertDiagramWithAI (failing_host ?t) gemini_ready (js ''+--+'') initial_world)
             = fallbackDiagramConversion (js ''+--+'')
           \<and> calls (snd (convertDiagramWithAI (failing_host ?t) gemini_ready (js ''+--+'')
               initial_world)) = replicate 3 (DiagramPrompt (js ''+--+''))"
    using x [THEN conjunct1] t1 by (simp add: decode_reply_failing_host c)
  have 2: "fst (parseDocumentWithAI (failing_host ?t) gemini_ready (js ''# T'') initial_world) = JNull
           \<and> calls (snd (parseDocumentWithAI (failing_host ?t) gemini_ready (js ''# T'')
               initial_world)) = replicate 3 (DocumentPrompt (js ''# T''))"
    using y [THEN conjunct2, THEN conjunct1] t2 by (simp add: decode_reply_failing_host c)
  have 3: "calls (snd (convertDiagramWithAI (failing_host ?p) gemini_ready (js ''+--+'')
               initial_world)) = [DiagramPrompt (js ''+--+'')]"
    using u [THEN conjunct2, THEN conjunct2, THEN conjunct1] p1
    by (simp add: decode_reply_failing_host c)
  have 4: "calls (snd (parseDocumentWithAI (failing_host ?p) gemini_ready (js ''# T'')
               initial_world)) = [DocumentPrompt (js ''# T'')]"
    using v [THEN conjunct2, THEN conjunct2, THEN conjunct2] p2
    by (simp add: decode_reply_failing_host c)
  show ?thesis using a 1 2 3 4 by blast
qed

text \<open>
  Claim C4 as stated fails when "retryable" is the set the specification gives: a backend
  that always fails with status 429 and the message "Too Many Requests" matches that set,
  yet \<open>parseDocumentWithAI\<close> makes one attempt, not three.
\<close>

theorem transient_failure_single_attempt_counterexample:
  "claimed_retryable (error_with_status 429 ''Too Many Requests'')
   \<and> calls (snd (parseDocumentWithAI (failing_host (error_with_status 429 ''Too Many Requests''))
        gemini_ready (js ''# T'') initial_world)) = [DocumentPrompt (js ''# T'')]"
proof -
  let ?e = "error_with_status 429 ''Too Many Requests''"
  have a: "isGeminiAvailable gemini_ready"
    by (simp add: isGeminiAvailable_def gemini_ready_def)
  have s: "statusCode ?e = Some 429"
    by (simp add: statusCode_def error_with_status_def)
  then have q: "claimed_retryable ?e"
    by (simp add: claimed_retryable_def)
  have n: "\<not> isRetryable_document ?e"
    by code_simp
  have "calls (snd (parseDocumentWithAI (failing_host ?e) gemini_ready (js ''# T'') initial_world))
          = calls initial_world @ [DocumentPrompt (js ''# T'')]"
    by (rule document_permanent(2) [OF a decode_reply_failing_host n])
  then show ?thesis using q by (simp add: initial_world_def)
qed

subsection \<open>Rounding to binary64\<close>

lemma round_half_even_of_int [simp]: "round_half_even (of_int k) = k"
  by (simp add: round_half_even_def)

lemma round_half_even_zero [simp]: "round_half_even 0 = 0"
  by (simp add: round_half_even_def)

lemma round_half_even_mono: "p \<le> q \<Longrightarrow> round_half_even p \<le> round_half_even q"
proof -
  assume le: "p \<le> q"
  have lo: "\<lfloor>x\<rfloor> \<le> round_half_even x" and hi: "round_half_even x \<le> \<lfloor>x\<rfloor> + 1" for x
    by (simp_all add: round_half_even_def Let_def)
  from le have f: "\<lfloor>p\<rfloor> \<le> \<lfloor>q\<rfloor>" by (rule floor_mono)
  show ?thesis
  proof (cases "\<lfloor>p\<rfloor> = \<lfloor>q\<rfloor>")
    case True
    with le show ?thesis by (auto simp: round_half_even_def Let_def)
  next
    case False
    with f have "\<lfloor>p\<rfloor> + 1 \<le> \<lfloor>q\<rfloor>" by simp
    with hi [of p] lo [of q] show ?thesis by linarith
  qed
qed

lemma round_half_even_error: "\<bar>of_int (round_half_even q) - q\<bar> \<le> 1 / 2"
proof -
  have "of_int \<lfloor>q\<rfloor> \<le> q" "q < of_int \<lfloor>q\<rfloor> + 1" by linarith+
  then show ?thesis by (auto simp: round_half_even_def Let_def abs_le_iff)
qed

lemma bitlen_powi:
  assumes "0 < p"
  shows "(2::rat) powi (bitlen p - 1) \<le> of_int p" and "of_int p < (2::rat) powi bitlen p"
proof -
  from bitlen_bounds [OF assms] have l: "2 ^ nat (bitlen p - 1) \<le> p" and u: "p < 2 ^ nat (bitlen p)"
    by simp_all
  have b: "0 < bitlen p"
  proof (rule ccontr)
    assume "\<not> 0 < bitlen p"
    then have "nat (bitlen p) = 0" by simp
    with u assms show False by simp
  qed
  from l have "(of_int (2 ^ nat (bitlen p - 1)) :: rat) \<le> of_int p" by (simp only: of_int_le_iff)
  then show "(2::rat) powi (bitlen p - 1) \<le> of_int p" using b by (simp add: power_int_def)
  from u have "(of_int p :: rat) < of_int (2 ^ nat (bitlen p))" by (simp only: of_int_less_iff)
  then show "of_int p < (2::rat) powi bitlen p" using b by (simp add: power_int_def)
qed

lemma floor_log2_bounds:
  assumes "0 < x"
  shows "2 powi floor_log2 x \<le> x" and "x < 2 powi (floor_log2 x + 1)"
proof -
  obtain p q where pq: "quotient_of x = (p, q)" by (cases "quotient_of x")
  then have q: "0 < q" by (rule quotient_of_denom_pos)
  from pq have x: "x = of_int p / of_int q" by (rule quotient_of_div)
  from assms q have p: "0 < p" unfolding x by (simp add: zero_less_divide_iff)
  let ?k = "bitlen p - bitlen q"
  note bp = bitlen_powi [OF p] and bq = bitlen_powi [OF q]
  have pos: "(0::rat) < 2 powi n" for n by simp
  have "x < 2 powi bitlen p / of_int q"
    unfolding x using bp(2) q by (simp add: divide_strict_right_mono)
  also have "\<dots> \<le> 2 powi bitlen p / 2 powi (bitlen q - 1)"
    using bq(1) by (intro divide_left_mono) (simp_all add: q)
  also have "\<dots> = 2 powi (?k + 1)"
    using power_int_diff [of "2::rat" "bitlen p" "bitlen q - 1"] by (simp add: algebra_simps)
  finally have up: "x < 2 powi (?k + 1)" .
  have "(2::rat) powi (?k - 1) = 2 powi (bitlen p - 1) / 2 powi bitlen q"
    using power_int_diff [of "2::rat" "bitlen p - 1" "bitlen q"] by (simp add: algebra_simps)
  also have "\<dots> < 2 powi (bitlen p - 1) / of_int q"
    using bq(2) q by (intro divide_strict_left_mono) simp_all
  also have "\<dots> \<le> x"
    unfolding x using bp(1) q by (simp add: divide_right_mono)
  finally have lo: "2 powi (?k - 1) < x" .
  have f: "floor_log2 x = (if 2 powi ?k \<le> x then ?k else ?k - 1)"
    by (simp add: floor_log2_def pq Let_def)
  show "2 powi floor_log2 x \<le> x" using lo by (simp add: f)
  show "x < 2 powi (floor_log2 x + 1)" using up by (auto simp: f)
qed

lemma floor_log2_less: "0 < x \<Longrightarrow> x < 2 powi k \<Longrightarrow> floor_log2 x < k"
proof (rule ccontr)
  assume x: "0 < x" "x < 2 powi k" and "\<not> floor_log2 x < k"
  then have "(2::rat) powi k \<le> 2 powi floor_log2 x" by (intro power_int_increasing) simp_all
  with floor_log2_bounds(1) [OF x(1)] x(2) show False by simp
qed

lemma floor_log2_ge: "0 < x \<Longrightarrow> 2 powi k \<le> x \<Longrightarrow> k \<le> floor_log2 x"
proof (rule ccontr)
  assume x: "0 < x" "2 powi k \<le> x" and "\<not> k \<le> floor_log2 x"
  then have "(2::rat) powi (floor_log2 x + 1) \<le> 2 powi k" by (intro power_int_increasing) simp_all
  with floor_log2_bounds(2) [OF x(1)] x(2) show False by simp
qed

lemma floor_log2_mono: "0 < x \<Longrightarrow> x \<le> y \<Longrightarrow> floor_log2 x \<le> floor_log2 y"
  using floor_log2_bounds(1) [of x] floor_log2_ge [of y "floor_log2 x"] by simp

lemma nearest_zero [simp]: "nearest 0 = 0"
  by (simp add: nearest_def)

lemma nearest_mono:
  assumes "0 \<le> x" and "x \<le> y"
  shows "nearest x \<le> nearest y"
proof (cases "x = 0")
  case True
  have "0 \<le> round_half_even (y / 2 powi ulp_exponent y)"
    using round_half_even_mono [of 0 "y / 2 powi ulp_exponent y"] assms
    by simp
  then show ?thesis by (simp add: True nearest_def)
next
  case False
  with assms have x: "0 < x" and y: "0 < y" by simp_all
  let ?a = "ulp_exponent x" and ?b = "ulp_exponent y"
  have ab: "?a \<le> ?b"
    using floor_log2_mono [OF x assms(2)] by (simp add: ulp_exponent_def)
  show ?thesis
  proof (cases "?a = ?b")
    case True
    have "x / 2 powi ?b \<le> y / 2 powi ?b" using assms(2) by (simp add: divide_right_mono)
    from round_half_even_mono [OF this]
    show ?thesis by (simp add: nearest_def True mult_right_mono)
  next
    case False
    with ab have lt: "?a < ?b" by simp
    then have "floor_log2 x \<le> ?a + 52" unfolding ulp_exponent_def by linarith
    then have "(2::rat) powi (floor_log2 x + 1) \<le> 2 powi (?a + 53)"
      by (intro power_int_increasing) simp_all
    with floor_log2_bounds(2) [OF x] have "x < 2 powi (?a + 53)" by simp
    then have "x / 2 powi ?a \<le> of_int (2 ^ 53)"
      by (simp add: power_int_add divide_le_eq mult.commute)
    from round_half_even_mono [OF this] have "round_half_even (x / 2 powi ?a) \<le> 2 ^ 53"
      by (simp only: round_half_even_of_int)
    then have "(of_int (round_half_even (x / 2 powi ?a)) :: rat) \<le> of_int (2 ^ 53)"
      by (simp only: of_int_le_iff)
    then have "nearest x \<le> 2 ^ 53 * 2 powi ?a"
      by (simp add: nearest_def mult_right_mono)
    also have "\<dots> = 2 powi (?a + 53)" by (simp add: power_int_add)
    also have "\<dots> \<le> 2 powi (?b + 52)" using lt by (intro power_int_increasing) simp_all
    finally have 1: "nearest x \<le> 2 powi (?b + 52)" .
    from lt have "?b + 52 \<le> floor_log2 y" unfolding ulp_exponent_def by linarith
    then have "(2::rat) powi (?b + 52) \<le> 2 powi floor_log2 y"
      by (intro power_int_increasing) simp_all
    with floor_log2_bounds(1) [OF y] have "2 powi (?b + 52) \<le> y" by simp
    then have "of_int (2 ^ 52) \<le> y / 2 powi ?b"
      by (simp add: power_int_add le_divide_eq mult.commute)
    from round_half_even_mono [OF this] have "2 ^ 52 \<le> round_half_even (y / 2 powi ?b)"
      by (simp only: round_half_even_of_int)
    then have "(of_int (2 ^ 52) :: rat) \<le> of_int (round_half_even (y / 2 powi ?b))"
      by (simp only: of_int_le_iff)
    then have "2 ^ 52 * 2 powi ?b \<le> nearest y"
      by (simp add: nearest_def mult_right_mono)
    then have "2 powi (?b + 52) \<le> nearest y" by (simp add: power_int_add mult.commute)
    with 1 show ?thesis by simp
  qed
qed

lemma nearest_nonneg: "0 \<le> x \<Longrightarrow> 0 \<le> nearest x"
  using nearest_mono [of 0 x] by simp

lemma nearest_error: "\<bar>nearest x - x\<bar> \<le> 2 powi ulp_exponent x / 2"
proof -
  let ?e = "ulp_exponent x"
  have "nearest x - x = (of_int (round_half_even (x / 2 powi ?e)) - x / 2 powi ?e) * 2 powi ?e"
    by (simp add: nearest_def algebra_simps)
  then have "\<bar>nearest x - x\<bar> = \<bar>of_int (round_half_even (x / 2 powi ?e)) - x / 2 powi ?e\<bar> * 2 powi ?e"
    by (simp add: abs_mult)
  also have "\<dots> \<le> 1 / 2 * 2 powi ?e"
    by (intro mult_right_mono round_half_even_error) simp
  finally show ?thesis by simp
qed

lemma ulp_exponent_le:
  assumes "0 < x" and "x < 2 powi k" and "- 1021 \<le> k"
  shows "ulp_exponent x \<le> k - 53"
  using floor_log2_less [OF assms(1,2)] assms(3) unfolding ulp_exponent_def by linarith

lemma nearest_error_below:
  assumes "0 \<le> x" and "x < 2 powi k" and "- 1021 \<le> k"
  shows "\<bar>nearest x - x\<bar> \<le> 2 powi (k - 54)"
proof (cases "x = 0")
  case True
  then show ?thesis by simp
next
  case False
  with assms have x: "0 < x" by simp
  have "2 powi ulp_exponent x / 2 = (2::rat) powi (ulp_exponent x - 1)"
    by (simp add: power_int_diff)
  also have "\<dots> \<le> 2 powi (k - 54)"
    using ulp_exponent_le [OF x assms(2,3)] by (intro power_int_increasing) simp_all
  finally show ?thesis using nearest_error [of x] by simp
qed

lemma overflow_bound_ge: "20000 < overflow_bound"
  by (simp add: overflow_bound_def)

lemma binary64_nonneg:
  "0 \<le> x \<Longrightarrow>
   binary64 x = (if overflow_bound \<le> nearest x then PosInfinity else Finite (nearest x))"
  using overflow_bound_ge by (auto simp: binary64_def Let_def)

lemma nearest_of_int:
  assumes "0 \<le> k" and "k < 2 ^ 53"
  shows "nearest (of_int k) = of_int k"
proof (cases "k = 0")
  case True
  then show ?thesis by simp
next
  case False
  with assms have pos: "(0::rat) < of_int k" by simp
  from assms(2) have "(of_int k :: rat) < of_int (2 ^ 53)" by (simp only: of_int_less_iff)
  then have "(of_int k :: rat) < 2 powi 53" by simp
  from ulp_exponent_le [OF pos this] have e: "ulp_exponent (of_int k) \<le> 0" by simp
  define n where "n = nat (- ulp_exponent (of_int k :: rat))"
  have p: "(2::rat) powi ulp_exponent (of_int k) = 1 / 2 ^ n"
    using e by (simp add: power_int_def n_def field_simps)
  have "of_int k / (2::rat) powi ulp_exponent (of_int k) = of_int (k * 2 ^ n)"
    by (simp add: p)
  then have "round_half_even (of_int k / 2 powi ulp_exponent (of_int k)) = k * 2 ^ n"
    by (simp only: round_half_even_of_int)
  then show ?thesis by (simp add: nearest_def p)
qed

lemma nearest_numeral [simp]: "nearest 20 = 20" "nearest 20000 = 20000"
  using nearest_of_int [of 20] nearest_of_int [of 20000] by simp_all

lemma ceiling_close:
  fixes x y :: rat
  assumes "\<bar>x - y\<bar> < 1"
  shows "\<bar>(of_int \<lceil>x\<rceil> :: rat) - of_int \<lceil>y\<rceil>\<bar> \<le> 1"
proof -
  from assms have "x \<le> of_int (\<lceil>y\<rceil> + 1)" "y \<le> of_int (\<lceil>x\<rceil> + 1)"
    using le_of_int_ceiling [of x] le_of_int_ceiling [of y] by (simp_all add: abs_less_iff) linarith+
  then have "\<lceil>x\<rceil> \<le> \<lceil>y\<rceil> + 1" "\<lceil>y\<rceil> \<le> \<lceil>x\<rceil> + 1"
    by (simp_all only: ceiling_le_iff)
  then have "\<bar>\<lceil>x\<rceil> - \<lceil>y\<rceil>\<bar> \<le> 1" by simp
  then have "(of_int \<bar>\<lceil>x\<rceil> - \<lceil>y\<rceil>\<bar> :: rat) \<le> of_int 1" by (simp only: of_int_le_iff)
  then show ?thesis by simp
qed

subsection \<open>The arithmetic of the two delays\<close>

text \<open>The delay a server suggests, as \<open>extractRetryDelay\<close> and \<open>getRetryDelay\<close> compute it
  from the decimal \<open>s\<close> of the error text.\<close>

lemma suggested_delay:
  assumes "0 \<le> s"
  shows "truthy_number (add (Math_ceil (multiply (binary64 s) (Finite 1000))) (Finite 500))"
    and "Math_min (add (Math_ceil (multiply (binary64 s) (Finite 1000))) (Finite 500)) (Finite 20000) =
           Finite (min (of_int \<lceil>nearest (nearest s * 1000)\<rceil> + 500) 20000)"
proof -
  let ?a = "nearest s" and ?b = "nearest (nearest s * 1000)"
  let ?d = "add (Math_ceil (multiply (binary64 s) (Finite 1000))) (Finite 500)"
  let ?y = "of_int \<lceil>?b\<rceil> + 500 :: rat"
  have a0: "0 \<le> ?a" using assms by (rule nearest_nonneg)
  then have a1: "0 \<le> ?a * 1000" by simp
  then have b0: "0 \<le> ?b" by (rule nearest_nonneg)
  have c0: "0 \<le> \<lceil>?b\<rceil>" using b0 by (simp add: le_ceiling_iff)
  then have c1: "(0::rat) \<le> of_int \<lceil>?b\<rceil>" by simp
  then have y0: "0 \<le> ?y" by simp
  have inf: "truthy_number PosInfinity \<and> Math_min PosInfinity (Finite 20000) = Finite (min ?y 20000)"
    if "20000 \<le> ?b"
  proof -
    from that have "(20000::rat) \<le> of_int \<lceil>?b\<rceil>" using le_of_int_ceiling [of ?b] by linarith
    then show ?thesis by (simp add: truthy_number_def)
  qed
  have "truthy_number ?d \<and> Math_min ?d (Finite 20000) = Finite (min ?y 20000)"
  proof (cases "overflow_bound \<le> ?a")
    case True
    then have d: "?d = PosInfinity" by (simp add: binary64_nonneg [OF assms])
    from True overflow_bound_ge have "20000 \<le> ?a * 1000" by linarith
    from nearest_mono [OF _ this] have "20000 \<le> ?b" by simp
    from inf [OF this] show ?thesis by (simp only: d)
  next
    case a: False
    show ?thesis
    proof (cases "overflow_bound \<le> ?b")
      case True
      then have d: "?d = PosInfinity"
        using a by (simp add: binary64_nonneg [OF assms] binary64_nonneg [OF a1])
      from True overflow_bound_ge have "20000 \<le> ?b" by linarith
      from inf [OF this] show ?thesis by (simp only: d)
    next
      case b: False
      have d: "?d = binary64 ?y"
        using a b by (simp add: binary64_nonneg [OF assms] binary64_nonneg [OF a1])
      show ?thesis
      proof (cases "?y \<le> 20000")
        case True
        then have "(of_int (\<lceil>?b\<rceil> + 500) :: rat) \<le> of_int 20000" by simp
        then have "\<lceil>?b\<rceil> + 500 \<le> 20000" by (simp only: of_int_le_iff)
        then have "\<lceil>?b\<rceil> + 500 < 2 ^ 53" by simp
        with c0 have "nearest (of_int (\<lceil>?b\<rceil> + 500)) = of_int (\<lceil>?b\<rceil> + 500)"
          by (intro nearest_of_int) simp_all
        then have n: "nearest ?y = ?y" by simp
        from True overflow_bound_ge have "\<not> overflow_bound \<le> ?y" by linarith
        then have "binary64 ?y = Finite ?y"
          by (simp add: binary64_nonneg [OF y0] n)
        moreover have "?y \<noteq> 0" using c1 by linarith
        ultimately show ?thesis using True by (simp add: d truthy_number_def)
      next
        case False
        then have "20000 \<le> ?y" by simp
        from nearest_mono [OF _ this] have n: "20000 \<le> nearest ?y" by simp
        then have "nearest ?y \<noteq> 0" by linarith
        then show ?thesis
          using False n by (simp add: d binary64_nonneg [OF y0] truthy_number_def)
      qed
    qed
  qed
  then show "truthy_number ?d"
    and "Math_min ?d (Finite 20000) = Finite (min (of_int \<lceil>?b\<rceil> + 500) 20000)"
    by simp_all
qed

lemma min_close:
  fixes a b :: rat
  shows "\<bar>a - b\<bar> \<le> 1 \<Longrightarrow> \<bar>min (a + 500) 20000 - min (b + 500) 20000\<bar> \<le> 1"
  by (simp add: min_def abs_le_iff)

lemma suggested_delay_close:
  assumes "0 \<le> s"
  shows "\<bar>min (of_int \<lceil>nearest (nearest s * 1000)\<rceil> + 500) 20000 - claimed_suggested_delay s\<bar> \<le> 1"
proof (cases "20 \<le> s")
  case True
  from nearest_mono [OF _ True] have "20 \<le> nearest s" by simp
  then have "20000 \<le> nearest s * 1000" by simp
  from nearest_mono [OF _ this] have "20000 \<le> nearest (nearest s * 1000)" by simp
  then have 1: "(20000::rat) \<le> of_int \<lceil>nearest (nearest s * 1000)\<rceil>"
    using le_of_int_ceiling [of "nearest (nearest s * 1000)"] by linarith
  from True have "20000 \<le> s * 1000" by simp
  then have 2: "(20000::rat) \<le> of_int \<lceil>s * 1000\<rceil>"
    using le_of_int_ceiling [of "s * 1000"] by linarith
  from 1 2 show ?thesis by (simp add: claimed_suggested_delay_def)
next
  case False
  then have s: "s < 2 powi 5" by simp
  from nearest_error_below [OF assms s] have ea: "\<bar>nearest s - s\<bar> \<le> 2 powi (- 49)" by simp
  from False have "s \<le> 20" by simp
  from nearest_mono [OF assms this] have "nearest s \<le> 20" by simp
  then have "nearest s * 1000 < 2 powi 15" by simp
  from nearest_error_below [OF _ this] nearest_nonneg [OF assms]
  have eb: "\<bar>nearest (nearest s * 1000) - nearest s * 1000\<bar> \<le> 2 powi (- 39)" by simp
  have "\<bar>nearest (nearest s * 1000) - s * 1000\<bar>
          \<le> \<bar>nearest (nearest s * 1000) - nearest s * 1000\<bar> + \<bar>nearest s - s\<bar> * 1000"
    by (simp add: abs_le_iff abs_if) 
  also have "\<dots> \<le> 2 powi (- 39) + 2 powi (- 49) * 1000"
    using ea eb by (intro add_mono mult_right_mono) simp_all
  also have "\<dots> < 1" by simp
  finally have "\<bar>nearest (nearest s * 1000) - s * 1000\<bar> < 1" .
  from min_close [OF ceiling_close [OF this]]
  show ?thesis by (simp only: claimed_suggested_delay_def)
qed

lemma overflow_bound_gt: "2 ^ 53 < overflow_bound"
  by (simp add: overflow_bound_def)

lemma binary64_of_int:
  assumes "0 \<le> k" and "k < 2 ^ 53"
  shows "binary64 (of_int k) = Finite (of_int k)"
proof -
  from assms(2) have "(of_int k :: rat) < of_int (2 ^ 53)" by (simp only: of_int_less_iff)
  then have "(of_int k :: rat) < 2 ^ 53" by simp
  with overflow_bound_gt have "\<not> overflow_bound \<le> (of_int k :: rat)" by linarith
  then show ?thesis
    using assms by (simp add: binary64_nonneg nearest_of_int)
qed

text \<open>A Number below 1 is at most \<open>1 - 2^-53\<close>.\<close>

lemma number_below_one:
  assumes "binary64 r = Finite r" and "0 \<le> r" and "r < 1"
  shows "r \<le> 1 - 1 / 2 ^ 53"
proof (cases "r \<le> 1 / 2")
  case True
  then show ?thesis by simp
next
  case False
  then have pos: "0 < r" and half: "2 powi (- 1) \<le> r" by simp_all
  from assms(3) have "r < 2 powi 0" by simp
  from floor_log2_less [OF pos this] floor_log2_ge [OF pos half]
  have "floor_log2 r = - 1" by simp
  then have e: "ulp_exponent r = - 53" by (simp add: ulp_exponent_def)
  from assms(1,2) have "nearest r = r"
    by (simp add: binary64_nonneg split: if_splits)
  then obtain m :: int where m: "r = of_int m * 2 powi (- 53)"
    unfolding nearest_def e by metis
  then have r: "r = of_int m / 2 ^ 53" by (simp add: power_int_minus field_simps)
  with assms(3) have "(of_int m :: rat) < of_int (2 ^ 53)" by (simp add: field_simps)
  then have "m < 2 ^ 53" by (simp only: of_int_less_iff)
  then have "m \<le> 2 ^ 53 - 1" by simp
  then have "(of_int m :: rat) \<le> of_int (2 ^ 53 - 1)" by (simp only: of_int_le_iff)
  then show ?thesis unfolding r by (simp add: field_simps)
qed

text \<open>The Numbers \<open>0.4\<close> and \<open>0.8\<close>, the greatest product of a draw with \<open>0.4\<close>, and the
  greatest factor.\<close>

lemma binary64_literals:
  "binary64 (4 / 10) = Finite (3602879701896397 / 9007199254740992)"
  "binary64 (8 / 10) = Finite (3602879701896397 / 4503599627370496)"
  by code_simp+


lemma nearest_literals:
  "nearest ((1 - 1 / 2 ^ 53) * (3602879701896397 / 9007199254740992)) =
     7205759403792793 / 18014398509481984"
  "nearest (3602879701896397 / 4503599627370496) = 3602879701896397 / 4503599627370496"
  "nearest (3602879701896397 / 4503599627370496 + 7205759403792793 / 18014398509481984) =
     5404319552844595 / 4503599627370496"
  by code_simp+

lemma jitter_factor:
  assumes "0 \<le> r" and "r \<le> 1 - 1 / 2 ^ 53"
  shows "\<exists>q. add (binary64 (8 / 10)) (multiply (Finite r) (binary64 (4 / 10))) = Finite q
             \<and> 8 / 10 \<le> q \<and> q \<le> 12 / 10"
proof -
  let ?c4 = "3602879701896397 / 9007199254740992 :: rat"
  let ?c8 = "3602879701896397 / 4503599627370496 :: rat"
  let ?p = "nearest (r * ?c4)"
  let ?q = "nearest (?c8 + ?p)"
  have rc: "0 \<le> r * ?c4" using assms(1) by simp
  then have p0: "0 \<le> ?p" by (rule nearest_nonneg)
  have "r * ?c4 \<le> (1 - 1 / 2 ^ 53) * ?c4" using assms(2) by (intro mult_right_mono) simp_all
  from nearest_mono [OF rc this] have p1: "?p \<le> 7205759403792793 / 18014398509481984"
    by (simp only: nearest_literals)
  with overflow_bound_ge have np: "\<not> overflow_bound \<le> ?p" by linarith
  have "multiply (Finite r) (binary64 (4 / 10)) = multiply (Finite r) (Finite ?c4)"
    by (simp only: binary64_literals)
  also have "\<dots> = binary64 (r * ?c4)" by (simp only: multiply.simps)
  also have "\<dots> = Finite ?p" using np by (simp only: binary64_nonneg [OF rc] if_False)
  finally have m: "multiply (Finite r) (binary64 (4 / 10)) = Finite ?p" .
  have s0: "0 \<le> ?c8 + ?p" using p0 by simp
  have "?c8 \<le> ?c8 + ?p" using p0 by simp
  from nearest_mono [OF _ this] have q0: "?c8 \<le> ?q" by (simp only: nearest_literals)
  have "?c8 + ?p \<le> ?c8 + 7205759403792793 / 18014398509481984" using p1 by simp
  from nearest_mono [OF s0 this] have q1: "?q \<le> 5404319552844595 / 4503599627370496"
    by (simp only: nearest_literals)
  with overflow_bound_ge have nq: "\<not> overflow_bound \<le> ?q" by linarith
  have "add (binary64 (8 / 10)) (multiply (Finite r) (binary64 (4 / 10))) =
          add (Finite ?c8) (Finite ?p)"
    by (subst m) (simp only: binary64_literals)
  also have "\<dots> = binary64 (?c8 + ?p)" by (simp only: add.simps)
  also have "\<dots> = Finite ?q" using nq by (simp only: binary64_nonneg [OF s0] if_False)
  finally have "add (binary64 (8 / 10)) (multiply (Finite r) (binary64 (4 / 10))) = Finite ?q" .
  moreover have "8 / 10 \<le> ?q" using q0 by linarith
  moreover have "?q \<le> 12 / 10" using q1 by linarith
  ultimately show ?thesis by blast
qed

lemma jitter_product:
  assumes "8 / 10 \<le> q" and "q \<le> 12 / 10" and "0 \<le> j" and "j < 2 ^ 50"
  shows "\<exists>v. multiply (Finite (of_int (5 * j))) (Finite q) = Finite v
             \<and> of_int (4 * j) \<le> v \<and> v \<le> of_int (6 * j)"
proof -
  let ?x = "of_int (5 * j) * q :: rat"
  have j: "(0::rat) \<le> of_int j" using assms(3) by simp
  have lo: "of_int (4 * j) \<le> ?x"
    using mult_left_mono [OF assms(1), of "of_int (5 * j)"] j by simp
  have hi: "?x \<le> of_int (6 * j)"
    using mult_left_mono [OF assms(2), of "of_int (5 * j)"] j by simp
  have j4: "(0::rat) \<le> of_int (4 * j)" using assms(3) by simp
  with lo have x0: "0 \<le> ?x" by linarith
  have "nearest (of_int (4 * j)) \<le> nearest ?x" by (intro nearest_mono lo j4)
  moreover have "nearest (of_int (4 * j)) = of_int (4 * j)"
    using assms(3,4) by (intro nearest_of_int) simp_all
  ultimately have 1: "of_int (4 * j) \<le> nearest ?x" by simp
  have "nearest ?x \<le> nearest (of_int (6 * j))" by (intro nearest_mono x0 hi)
  moreover have "nearest (of_int (6 * j)) = of_int (6 * j)"
    using assms(3,4) by (intro nearest_of_int) simp_all
  ultimately have 2: "nearest ?x \<le> of_int (6 * j)" by simp
  from assms(4) have "6 * j < 2 ^ 53" by simp
  then have "(of_int (6 * j) :: rat) < of_int (2 ^ 53)" by (simp only: of_int_less_iff)
  then have "(of_int (6 * j) :: rat) < 2 ^ 53" by simp
  with 2 overflow_bound_gt have "\<not> overflow_bound \<le> nearest ?x" by linarith
  then have "multiply (Finite (of_int (5 * j))) (Finite q) = Finite (nearest ?x)"
    using binary64_nonneg [OF x0] by simp
  with 1 2 show ?thesis by blast
qed

text \<open>\<open>Math.min(baseDelay * Math.pow(2, attempt), maxDelay)\<close>\<close>

lemma binary64_numeral:
  "numeral k < (2::int) ^ 53 \<Longrightarrow> binary64 (numeral k) = Finite (numeral k)"
  using binary64_of_int [of "numeral k"] by simp

lemma capped_delay:
  "Math_min (multiply (Finite 2000) (Math_pow_2 k)) (Finite 20000) =
     Finite (of_int (5 * min (400 * 2 ^ k) 4000))"
proof (cases "k < 4")
  case True
  then consider "k = 0" | "k = 1" | "k = 2" | "k = 3" by linarith
  then show ?thesis
  proof cases
    case 1
    then show ?thesis using binary64_of_int [of 1] by (simp add: Math_pow_2_def binary64_numeral)
  next
    case 2
    then show ?thesis by (simp add: Math_pow_2_def binary64_numeral)
  next
    case 3
    then show ?thesis by (simp add: Math_pow_2_def binary64_numeral)
  next
    case 4
    then show ?thesis by (simp add: Math_pow_2_def binary64_numeral)
  qed
next
  case False
  then have "(2::nat) ^ 4 \<le> 2 ^ k" by (intro power_increasing) simp_all
  then have k: "(16::nat) \<le> 2 ^ k" by simp
  then have "(of_nat 16 :: rat) \<le> of_nat (2 ^ k)" by (simp only: of_nat_le_iff)
  then have kr: "(16::rat) \<le> 2 ^ k" by simp
  from k have "(of_nat 16 :: int) \<le> of_nat (2 ^ k)" by (simp only: of_nat_le_iff)
  then have ki: "(16::int) \<le> 2 ^ k" by simp
  then have rhs: "min (400 * 2 ^ k) (4000::int) = 4000" by simp
  let ?p = "nearest (2 ^ k)"
  from nearest_mono [OF _ kr] nearest_of_int [of 16] have p: "16 \<le> ?p" by simp
  have "Math_min (multiply (Finite 2000) (Math_pow_2 k)) (Finite 20000) = Finite 20000"
  proof (cases "overflow_bound \<le> ?p")
    case True
    then show ?thesis by (simp add: Math_pow_2_def binary64_nonneg)
  next
    case False
    have x0: "0 \<le> 2000 * ?p" using p by simp
    have "20000 \<le> 2000 * ?p" using p by simp
    from nearest_mono [OF _ this] have "20000 \<le> nearest (2000 * ?p)" by simp
    then show ?thesis
      using False by (simp add: Math_pow_2_def binary64_nonneg binary64_nonneg [OF x0])
  qed
  then show ?thesis by (simp add: rhs)
qed

text \<open>The delay with jitter, for a draw that is a Number below 1.\<close>

lemma jittered_delay:
  assumes "binary64 r = Finite r" and "0 \<le> r" and "r < 1"
  shows "\<exists>jitter delay.
           8 / 10 \<le> jitter \<and> jitter \<le> 12 / 10
           \<and> add (binary64 (8 / 10)) (multiply (Finite r) (binary64 (4 / 10))) = Finite jitter
           \<and> jittered (Math_min (multiply (Finite 2000) (Math_pow_2 k)) (Finite 20000)) r = Finite delay
           \<and> delay = nearest (min (2000 * 2 ^ k) 20000 * jitter)
           \<and> 8 / 10 * min (2000 * 2 ^ k) 20000 \<le> delay
           \<and> delay \<le> 12 / 10 * min (2000 * 2 ^ k) 20000"
proof -
  from jitter_factor [OF assms(2) number_below_one [OF assms]]
  obtain q where q: "add (binary64 (8 / 10)) (multiply (Finite r) (binary64 (4 / 10))) = Finite q"
    "8 / 10 \<le> q" "q \<le> 12 / 10" by blast
  let ?j = "min (400 * 2 ^ k) 4000 :: int"
  have j: "0 \<le> ?j" "?j < 2 ^ 50" by simp_all
  from jitter_product [OF q(2,3) j]
  obtain v where v: "multiply (Finite (of_int (5 * ?j))) (Finite q) = Finite v"
    "of_int (4 * ?j) \<le> v" "v \<le> of_int (6 * ?j)" by blast
  have d: "(of_int (5 * ?j) :: rat) = min (2000 * 2 ^ k) 20000"
  proof -
    have "5 * ?j = min (2000 * 2 ^ k) 20000" by (simp add: min_def)
    then have "(of_int (5 * ?j) :: rat) = of_int (min (2000 * 2 ^ k) 20000)" by (simp only:)
    then show ?thesis by (simp only: of_int_min) simp
  qed
  have "jittered (Math_min (multiply (Finite 2000) (Math_pow_2 k)) (Finite 20000)) r = Finite v"
    by (simp only: jittered_def capped_delay q(1) v(1))
  moreover have "8 / 10 * min (2000 * 2 ^ k) 20000 \<le> v"
    using v(2) unfolding d [symmetric] by simp
  moreover have "v \<le> 12 / 10 * min (2000 * 2 ^ k) 20000"
    using v(3) unfolding d [symmetric] by simp
  moreover have "v = nearest (min (2000 * 2 ^ k) 20000 * q)"
  proof -
    have x0: "0 \<le> of_int (5 * ?j) * q" using q(2) by simp
    from v(1) binary64_nonneg [OF x0] show ?thesis
      unfolding d [symmetric] by (simp split: if_splits)
  qed
  ultimately show ?thesis using q by blast
qed

subsection \<open>Delay before a retry\<close>

lemma decimal_value_nonneg: "0 \<le> decimal_value s"
  by (simp add: decimal_value_def Let_def)

text \<open>
  Claim C6, as amended. Numbers are binary64. For the \<open>n\<close>-th retry (\<open>n \<ge> 1\<close>): if
  the text of the previous error matches one of the two patterns of \<open>extractRetryDelay\<close>,
  with \<open>s\<close> the decimal captured, the pause is
  \<open>min (\<lceil>fl (fl s \<times> 1000)\<rceil> + 500) 20000\<close> milliseconds, \<open>fl\<close> being the rounding to
  binary64 (\<open>nearest\<close>), and no random number is drawn; this is within one millisecond of
  \<open>min (\<lceil>s \<times> 1000\<rceil> + 500) 20000\<close>, and need not be equal to it. Otherwise, with a draw
  \<open>r\<close> of \<open>Math.random()\<close> that is a Number with \<open>0 \<le> r < 1\<close>, the pause is
  \<open>fl (min (2000 \<times> 2^(n-1)) 20000 \<times> jitter)\<close> for the factor
  \<open>jitter = 0.8 + r * 0.4\<close> computed in binary64; the factor lies between 0.8 and 1.2 and
  the pause between 0.8 and 1.2 times \<open>min (2000 \<times> 2^(n-1)) 20000\<close>.
\<close>

theorem retry_pause_delay:
  assumes n: "1 \<le> n"
    and r: "binary64 (Math_random h (draws w)) = Finite (Math_random h (draws w))"
      "0 \<le> Math_random h (draws w)" "Math_random h (draws w) < 1"
  shows "(\<forall>cap. retry_match (error_text (Some e)) = Some cap \<longrightarrow>
            sleeps (retry_pause h n (Some e) w) =
              sleeps w @ [Finite (min (of_int \<lceil>nearest (nearest (decimal_value cap) * 1000)\<rceil> + 500) 20000)]
            \<and> \<bar>min (of_int \<lceil>nearest (nearest (decimal_value cap) * 1000)\<rceil> + 500) 20000
                - claimed_suggested_delay (decimal_value cap)\<bar> \<le> 1
            \<and> draws (retry_pause h n (Some e) w) = draws w)
       \<and> (retry_match (error_text (Some e)) = None \<longrightarrow>
            (\<exists>jitter delay.
               8 / 10 \<le> jitter \<and> jitter \<le> 12 / 10
               \<and> add (binary64 (8 / 10))
                     (multiply (Finite (Math_random h (draws w))) (binary64 (4 / 10))) = Finite jitter
               \<and> sleeps (retry_pause h n (Some e) w) = sleeps w @ [Finite delay]
               \<and> delay = nearest (min (2000 * 2 ^ (n - 1)) 20000 * jitter)
               \<and> 8 / 10 * min (2000 * 2 ^ (n - 1)) 20000 \<le> delay
               \<and> delay \<le> 12 / 10 * min (2000 * 2 ^ (n - 1)) 20000)
            \<and> draws (retry_pause h n (Some e) w) = draws w + 1)"
proof (intro conjI allI impI)
  fix cap assume m: "retry_match (error_text (Some e)) = Some cap"
  let ?d = "add (Math_ceil (multiply (binary64 (decimal_value cap)) (Finite 1000))) (Finite 500)"
  have x: "extractRetryDelay (Some e) = Some ?d"
    by (simp add: extractRetryDelay_def m parseFloat_def)
  note s = suggested_delay [OF decimal_value_nonneg [of cap]]
  have g: "getRetryDelay h k (Some ?d) w =
             (Finite (min (of_int \<lceil>nearest (nearest (decimal_value cap) * 1000)\<rceil> + 500) 20000), w)" for k
    using s by (simp only: getRetryDelay_def option.case if_True maxDelay_def)
  show "sleeps (retry_pause h n (Some e) w) =
          sleeps w @ [Finite (min (of_int \<lceil>nearest (nearest (decimal_value cap) * 1000)\<rceil> + 500) 20000)]"
    using n by (simp add: retry_pause_def x g)
  show "draws (retry_pause h n (Some e) w) = draws w"
    using n by (simp add: retry_pause_def x g)
  show "\<bar>min (of_int \<lceil>nearest (nearest (decimal_value cap) * 1000)\<rceil> + 500) 20000
          - claimed_suggested_delay (decimal_value cap)\<bar> \<le> 1"
    by (rule suggested_delay_close [OF decimal_value_nonneg])
next
  assume m: "retry_match (error_text (Some e)) = None"
  have x: "extractRetryDelay (Some e) = None"
    by (simp add: extractRetryDelay_def m)
  let ?r = "Math_random h (draws w)"
  from jittered_delay [OF r, of "n - 1"]
  obtain jitter delay where j: "8 / 10 \<le> jitter" "jitter \<le> 12 / 10"
    "add (binary64 (8 / 10)) (multiply (Finite ?r) (binary64 (4 / 10))) = Finite jitter"
    "jittered (Math_min (multiply (Finite 2000) (Math_pow_2 (n - 1))) (Finite 20000)) ?r = Finite delay"
    "delay = nearest (min (2000 * 2 ^ (n - 1)) 20000 * jitter)"
    "8 / 10 * min (2000 * 2 ^ (n - 1)) 20000 \<le> delay"
    "delay \<le> 12 / 10 * min (2000 * 2 ^ (n - 1)) 20000"
    by blast
  have g: "getRetryDelay h (n - 1) None w = (Finite delay, w\<lparr>draws := draws w + 1\<rparr>)"
    by (simp only: getRetryDelay_def option.case baseDelay_def maxDelay_def j(4))
  have p: "retry_pause h n (Some e) w =
             (w\<lparr>draws := draws w + 1\<rparr>)\<lparr>sleeps := sleeps (w\<lparr>draws := draws w + 1\<rparr>) @ [Finite delay]\<rparr>"
    using n by (simp only: retry_pause_def x g Let_def prod.case) simp
  have "sleeps (retry_pause h n (Some e) w) = sleeps w @ [Finite delay]"
    unfolding p by simp
  with j show "\<exists>jitter delay.
               8 / 10 \<le> jitter \<and> jitter \<le> 12 / 10
               \<and> add (binary64 (8 / 10))
                     (multiply (Finite (Math_random h (draws w))) (binary64 (4 / 10))) = Finite jitter
               \<and> sleeps (retry_pause h n (Some e) w) = sleeps w @ [Finite delay]
               \<and> delay = nearest (min (2000 * 2 ^ (n - 1)) 20000 * jitter)
               \<and> 8 / 10 * min (2000 * 2 ^ (n - 1)) 20000 \<le> delay
               \<and> delay \<le> 12 / 10 * min (2000 * 2 ^ (n - 1)) 20000"
    by blast
  show "draws (retry_pause h n (Some e) w) = draws w + 1"
    unfolding p by simp
qed

text \<open>After "retry in 7.5s" the first retry waits 8000 ms; after "quota exceeded", with
  the draw 1/2, the second retry waits 4000 ms.\<close>

theorem retry_pause_delay_witness:
  "(1::nat) \<le> 2
   \<and> binary64 (1 / 2) = Finite (1 / 2)
   \<and> sleeps (retry_pause (failing_host (error_with_message ''retry in 7.5s'')) 1
      (Some (error_with_message ''retry in 7.5s'')) initial_world) = [Finite 8000]
   \<and> sleeps (retry_pause (failing_host (error_with_message ''quota exceeded'')) 2
      (Some (error_with_message ''quota exceeded'')) initial_world) = [Finite 4000]"
proof -
  let ?a = "error_with_message ''retry in 7.5s''"
  let ?b = "error_with_message ''quota exceeded''"
  have ta: "error_text (Some ?a) = js ''retry in 7.5s''"
    by (simp add: error_text_def error_with_message_def js_def)
  have tb: "error_text (Some ?b) = js ''quota exceeded''"
    by (simp add: error_text_def error_with_message_def js_def)
  have ma: "retry_match (js ''retry in 7.5s'') = Some (js ''7.5'')"
    by code_simp
  have mb: "retry_match (js ''quota exceeded'') = None"
    by code_simp
  have pf: "min (of_int \<lceil>nearest (nearest (decimal_value (js ''7.5'')) * 1000)\<rceil> + 500) 20000
              = (8000::rat)"
    by code_simp
  have half: "binary64 (1 / 2) = Finite (1 / 2)"
    by code_simp
  have jit: "add (binary64 (8 / 10)) (multiply (Finite (1 / 2)) (binary64 (4 / 10))) = Finite 1"
    by code_simp
  have four: "nearest (min (2000 * 2 ^ (2 - 1)) 20000 * 1) = 4000"
    by code_simp
  have r: "Math_random (failing_host e) k = 1 / 2" for e k
    by (simp add: failing_host_def constant_random_def)
  have s0: "sleeps initial_world = []"
    by (simp add: initial_world_def)
  have ra: "binary64 (Math_random (failing_host ?a) (draws initial_world)) =
              Finite (Math_random (failing_host ?a) (draws initial_world))"
    "0 \<le> Math_random (failing_host ?a) (draws initial_world)"
    "Math_random (failing_host ?a) (draws initial_world) < 1"
    by (simp_all add: r half)
  have rb: "binary64 (Math_random (failing_host ?b) (draws initial_world)) =
              Finite (Math_random (failing_host ?b) (draws initial_world))"
    "0 \<le> Math_random (failing_host ?b) (draws initial_world)"
    "Math_random (failing_host ?b) (draws initial_world) < 1"
    by (simp_all add: r half)
  have 1: "sleeps (retry_pause (failing_host ?a) 1 (Some ?a) initial_world) = [Finite 8000]"
    using retry_pause_delay [OF _ ra, of 1 ?a, THEN conjunct1, THEN spec, THEN mp, THEN conjunct1]
    by (simp only: ta ma pf s0 append_Nil)
  from retry_pause_delay [OF _ rb, of 2 ?b, THEN conjunct2, THEN mp, THEN conjunct1]
  obtain jitter delay where
    j: "add (binary64 (8 / 10)) (multiply (Finite (1 / 2)) (binary64 (4 / 10))) = Finite jitter"
    and s: "sleeps (retry_pause (failing_host ?b) 2 (Some ?b) initial_world) = [Finite delay]"
    and d: "delay = nearest (min (2000 * 2 ^ (2 - 1)) 20000 * jitter)"
    unfolding tb mb r s0 append_Nil by auto
  from j jit have "jitter = 1" by (simp only: number.inject)
  with d four have "delay = 4000" by (simp only:)
  with s have 2: "sleeps (retry_pause (failing_host ?b) 2 (Some ?b) initial_world) = [Finite 4000]"
    by (simp only:)
  show ?thesis using 1 2 half by simp
qed

text \<open>
  Claim C6 as stated fails: after "retry in 2.007s" the claimed pause is
  \<open>\<lceil>2.007 \<times> 1000\<rceil> + 500 = 2507\<close> milliseconds, the program's is 2508, since the product
  of the Numbers 2.007 and 1000 is above 2007.
\<close>

theorem suggested_delay_rounding_counterexample:
  "retry_match (error_text (Some (error_with_message ''retry in 2.007s''))) = Some (js ''2.007'')
   \<and> decimal_value (js ''2.007'') = 2007 / 1000
   \<and> claimed_suggested_delay (2007 / 1000) = 2507
   \<and> sleeps (retry_pause (failing_host (error_with_message ''retry in 2.007s'')) 1
        (Some (error_with_message ''retry in 2.007s'')) initial_world) = [Finite 2508]"
proof -
  let ?a = "error_with_message ''retry in 2.007s''"
  have ta: "error_text (Some ?a) = js ''retry in 2.007s''"
    by (simp add: error_text_def error_with_message_def js_def)
  have ma: "retry_match (js ''retry in 2.007s'') = Some (js ''2.007'')"
    by code_simp
  have dv: "decimal_value (js ''2.007'') = 2007 / 1000"
    by code_simp
  have cl: "claimed_suggested_delay (2007 / 1000) = 2507"
    by code_simp
  have x: "extractRetryDelay (Some ?a) = Some (Finite 2508)"
    unfolding extractRetryDelay_def ta ma parseFloat_def dv by code_simp
  have g: "getRetryDelay h 0 (Some (Finite 2508)) w = (Finite 2508, w)" for h w
    by (simp add: getRetryDelay_def truthy_number_def maxDelay_def)
  have "sleeps (retry_pause (failing_host ?a) 1 (Some ?a) initial_world) = [Finite 2508]"
    by (simp add: retry_pause_def x g initial_world_def)
  then show ?thesis using ta ma dv cl by simp
qed

subsection \<open>Code fences around a reply\<close>

lemma js_length: "length (js s) = length s"
  by (simp add: js_def)

lemma startsWith_prefix: "startsWith s t \<longleftrightarrow> prefix t s"
  by (induction s t rule: startsWith.induct) auto

lemma includes_str_sublist: "includes_str s t \<longleftrightarrow> sublist t s"
  by (induction s) (auto simp: startsWith_prefix sublist_Cons_right)

lemma rx_match_lit:
  "rx_match (map (\<lambda>c. One (is_char c)) p @ r) s False cap =
     (if prefix p s then rx_match r (drop (length p) s) False cap else None)"
proof (induction p arbitrary: s)
  case Nil
  then show ?case by simp
next
  case (Cons a p)
  then show ?case
    by (cases s) (auto simp: is_char_def record_char_def)
qed

lemma rx_match_opt:
  "rx_match [Opt (is_char a)] t False cap = Some (cap, if t \<noteq> [] \<and> hd t = a then tl t else t)"
  by (cases t) (auto simp: is_char_def record_char_def)


lemma rx_match_lit_opt:
  "rx_match (lit p @ [Opt (is_char a)]) s False [] =
     (if prefix (js p) s
      then Some ([], if drop (length (js p)) s \<noteq> [] \<and> hd (drop (length (js p)) s) = a
                     then tl (drop (length (js p)) s) else drop (length (js p)) s)
      else None)"
  unfolding lit_def by (simp add: rx_match_lit rx_match_opt)

lemmas fence_json_match = rx_match_lit_opt [of "''```json''" "0x0A", folded re_fence_json_def]
lemmas fence_match = rx_match_lit_opt [of "''```''" "0x0A", folded re_fence_def]

lemma fence_json_prefix: "prefix (js ''```json'') s \<Longrightarrow> prefix (js ''```'') s"
proof -
  assume "prefix (js ''```json'') s"
  moreover have "prefix (js ''```'') (js ''```json'')" by (simp add: js_def)
  ultimately show ?thesis by (rule prefix_order.trans [rotated])
qed

lemma no_fence_tl: "\<not> sublist t (c # s) \<Longrightarrow> \<not> sublist t s"
  by (simp add: sublist_Cons_right)

lemma replace_fence_id:
  "\<not> sublist (js ''```'') s \<Longrightarrow> rx_replace_all re_fence f s = s"
proof (induction s)
  case Nil
  then show ?case by simp
next
  case (Cons c s)
  then have "\<not> prefix (js ''```'') (c # s)" "\<not> sublist (js ''```'') s"
    by (auto simp: sublist_Cons_right)
  with Cons.IH show ?case by (simp add: fence_match)
qed

lemma replace_fence_json_id:
  "\<not> sublist (js ''```'') s \<Longrightarrow> rx_replace_all re_fence_json f s = s"
proof (induction s)
  case Nil
  then show ?case by simp
next
  case (Cons c s)
  then have "\<not> prefix (js ''```json'') (c # s)" "\<not> sublist (js ''```'') s"
    using fence_json_prefix by (auto simp: sublist_Cons_right)
  with Cons.IH show ?case by (simp add: fence_json_match)
qed

text \<open>A text without a fence, followed by a closing fence.\<close>

lemma prefix_fence_append:
  assumes "prefix (js ''```'') (y @ js ''```'')" "\<not> sublist (js ''```'') y"
  shows "y = [] \<or> y = [0x60] \<or> y = [0x60, 0x60]"
proof -
  have np: "\<not> prefix (js ''```'') y"
    using assms(2) by (meson prefix_imp_sublist)
  from assms(1) obtain zs where z: "y @ [0x60, 0x60, 0x60] = [0x60, 0x60, 0x60::16 word] @ zs"
    by (auto simp: js_def prefix_def)
  show ?thesis
  proof (cases y)
    case Nil
    then show ?thesis by simp
  next
    case (Cons a y1)
    note c1 = Cons
    show ?thesis
    proof (cases y1)
      case Nil
      with c1 z show ?thesis by simp
    next
      case (Cons b y2)
      note c2 = Cons
      show ?thesis
      proof (cases y2)
        case Nil
        with c1 c2 z show ?thesis by simp
      next
        case (Cons c y3)
        with c1 c2 z have "y = [0x60, 0x60, 0x60] @ y3" by simp
        then have "prefix (js ''```'') y" by (simp add: js_def)
        with np show ?thesis by simp
      qed
    qed
  qed
qed

lemma replace_fence_json_closing:
  "\<not> sublist (js ''```'') y \<Longrightarrow>
   rx_replace_all re_fence_json f (y @ js ''```'') = y @ js ''```''"
proof (induction y)
  case Nil
  show ?case by (simp add: js_def fence_json_match)
next
  case (Cons c y)
  have "\<not> prefix (js ''```json'') ((c # y) @ js ''```'')"
  proof
    assume p: "prefix (js ''```json'') ((c # y) @ js ''```'')"
    then have "prefix (js ''```'') ((c # y) @ js ''```'')" by (rule fence_json_prefix)
    from prefix_fence_append [OF this Cons.prems]
    have "length ((c # y) @ js ''```'') \<le> 5" by (auto simp: js_def)
    moreover from p have "7 \<le> length ((c # y) @ js ''```'')"
      using prefix_length_le [OF p] by (simp add: js_length)
    ultimately show False by simp
  qed
  moreover have "\<not> sublist (js ''```'') y" using Cons.prems by (rule no_fence_tl)
  ultimately show ?case using Cons.IH by (simp add: fence_json_match)
qed

lemma replace_fence_closing:
  "\<not> sublist (js ''```'') y \<Longrightarrow> rx_replace_all re_fence (\<lambda>_. []) (y @ js ''```'') = y"
proof (induction y)
  case Nil
  show ?case by (simp add: js_def fence_match)
next
  case (Cons c y)
  have nf: "\<not> sublist (js ''```'') y" using Cons.prems by (rule no_fence_tl)
  show ?case
  proof (cases "prefix (js ''```'') ((c # y) @ js ''```'')")
    case False
    then show ?thesis using Cons.IH [OF nf] by (simp add: fence_match)
  next
    case True
    from prefix_fence_append [OF True Cons.prems]
    have "c # y = [0x60] \<or> c # y = [0x60, 0x60]" by simp
    then show ?thesis
    proof
      assume "c # y = [0x60]"
      then have e: "c = 0x60" "y = []" by simp_all
      show ?thesis unfolding e by (simp add: js_def fence_match)
    next
      assume "c # y = [0x60, 0x60]"
      then have e: "c = 0x60" "y = [0x60]" by simp_all
      show ?thesis unfolding e by (simp add: js_def fence_match)
    qed
  qed
qed


subsection \<open>Trimming\<close>

lemma trim_ws_Cons: "isWhiteSpace c \<Longrightarrow> trim (c # s) = trim s"
  by (simp add: trim_def)

lemma trim_ws_append_left: "list_all isWhiteSpace a \<Longrightarrow> trim (a @ s) = trim s"
  by (induction a) (simp_all add: trim_ws_Cons)

lemma trim_ws_snoc: "isWhiteSpace c \<Longrightarrow> trim (s @ [c]) = trim s"
proof (cases "list_all isWhiteSpace s")
  case True
  assume "isWhiteSpace c"
  with True have "list_all isWhiteSpace (s @ [c])" by simp
  then have "trim ((s @ [c]) @ []) = trim []" by (rule trim_ws_append_left)
  moreover from True have "trim (s @ []) = trim []" by (rule trim_ws_append_left)
  ultimately show ?thesis by simp
next
  case False
  assume c: "isWhiteSpace c"
  from False obtain x where "x \<in> set s" "\<not> isWhiteSpace x" by (auto simp: list_all_iff)
  then have "dropWhile isWhiteSpace (s @ [c]) = dropWhile isWhiteSpace s @ [c]"
    by (rule dropWhile_append1)
  with c show ?thesis by (simp add: trim_def)
qed

lemma trim_ws_append_right: "list_all isWhiteSpace b \<Longrightarrow> trim (s @ b) = trim s"
proof (induction b arbitrary: s)
  case Nil
  then show ?case by simp
next
  case (Cons c b)
  from Cons.prems have b: "list_all isWhiteSpace b" and c: "isWhiteSpace c" by simp_all
  have "trim ((s @ [c]) @ b) = trim (s @ [c])" by (rule Cons.IH [OF b])
  then show ?case using c by (simp add: trim_ws_snoc)
qed

lemma trim_unchanged:
  "s \<noteq> [] \<Longrightarrow> \<not> isWhiteSpace (hd s) \<Longrightarrow> \<not> isWhiteSpace (last s) \<Longrightarrow> trim s = s"
proof -
  assume a: "s \<noteq> []" "\<not> isWhiteSpace (hd s)" "\<not> isWhiteSpace (last s)"
  then have 1: "dropWhile isWhiteSpace s = s" by (cases s) simp_all
  from a have "rev s \<noteq> []" "\<not> isWhiteSpace (hd (rev s))" by (simp_all add: hd_rev)
  then have 2: "dropWhile isWhiteSpace (rev s) = rev s" by (cases "rev s") simp_all
  show ?thesis by (simp add: trim_def 1 2)
qed

lemma trim_trim: "trim (trim s) = trim s"
proof (cases "trim s = []")
  case True
  have "trim [] = []" by (simp add: trim_def)
  then show ?thesis unfolding True .
next
  case False
  let ?u = "dropWhile isWhiteSpace s"
  let ?v = "dropWhile isWhiteSpace (rev ?u)"
  have t: "trim s = rev ?v" by (simp add: trim_def)
  from False t have v: "?v \<noteq> []" by simp
  have u: "?u \<noteq> []"
  proof
    assume e: "?u = []"
    have "?v = []" unfolding e by simp
    with v show False by simp
  qed
  have l: "\<not> isWhiteSpace (last (trim s))"
    using v hd_dropWhile [of isWhiteSpace "rev ?u"] by (simp add: t last_rev)
  have "suffix ?v (rev ?u)" by (rule suffix_dropWhile)
  then obtain zs where z: "rev ?u = zs @ ?v" by (auto simp: suffix_def)
  have "last ?v = last (rev ?u)" using v by (subst z) simp
  also have "\<dots> = hd ?u" using u by (simp add: last_rev)
  finally have "hd (trim s) = hd ?u" using v by (simp add: t hd_rev)
  moreover have "\<not> isWhiteSpace (hd ?u)" using u hd_dropWhile [of isWhiteSpace s] by simp
  ultimately have h: "\<not> isWhiteSpace (hd (trim s))" by simp
  show ?thesis using False h l by (rule trim_unchanged)
qed

subsection \<open>Where a fence cannot be\<close>

lemma no_fence_ws_left:
  "list_all isWhiteSpace a \<Longrightarrow> \<not> sublist (js ''```'') s \<Longrightarrow> \<not> sublist (js ''```'') (a @ s)"
  by (induction a) (auto simp: sublist_Cons_right js_def isWhiteSpace_def)

lemma rev_fence: "rev (js ''```'') = js ''```''"
  by (simp add: js_def)

lemma no_fence_rev: "\<not> sublist (js ''```'') s \<Longrightarrow> \<not> sublist (js ''```'') (rev s)"
  using sublist_rev [of "js ''```''" s] by (simp add: rev_fence)

lemma no_fence_ws_right:
  assumes "list_all isWhiteSpace b" "\<not> sublist (js ''```'') s"
  shows "\<not> sublist (js ''```'') (s @ b)"
proof -
  have "list_all isWhiteSpace (rev b)" using assms(1) by (simp add: list_all_iff)
  then have "\<not> sublist (js ''```'') (rev b @ rev s)"
    using no_fence_rev [OF assms(2)] by (rule no_fence_ws_left)
  then have "\<not> sublist (js ''```'') (rev (rev b @ rev s))" by (rule no_fence_rev)
  then show ?thesis by simp
qed

lemma no_fence_dropWhile:
  "\<not> sublist (js ''```'') s \<Longrightarrow> \<not> sublist (js ''```'') (dropWhile P s)"
  using sublist_dropWhile [of P s] sublist_order.order.trans by blast

lemma no_fence_trim: "\<not> sublist (js ''```'') s \<Longrightarrow> \<not> sublist (js ''```'') (trim s)"
  unfolding trim_def by (intro no_fence_rev no_fence_dropWhile)

subsection \<open>The cleanup of a reply\<close>

lemma strip_plain:
  assumes "\<not> sublist (js ''```'') body"
  shows "strip_code_fences (trim body) = trim body"
  using no_fence_trim [OF assms]
  by (simp add: strip_code_fences_def replace_fence_id replace_fence_json_id trim_trim)

lemma replace_fence_json_opening:
  "rx_replace_all re_fence_json f (js ''```json'' @ t) =
     f [] @ rx_replace_all re_fence_json f (if t \<noteq> [] \<and> hd t = 0x0A then tl t else t)"
proof -
  let ?k = "if t \<noteq> [] \<and> hd t = 0x0A then tl t else t"
  have m: "rx_match re_fence_json (js ''```json'' @ t) False [] = Some ([], ?k)"
    by (simp add: fence_json_match)
  have x0: "js ''```json'' @ t = 0x60 # (js ''``json'' @ t)"
    by (simp add: js_def)
  have len: "length ?k \<le> length (js ''``json'' @ t)"
    by (cases t) simp_all
  show ?thesis
    unfolding x0
    by (subst rx_replace_all.simps(2)) (simp add: x0 [symmetric] m len del: length_append)
qed

lemma skip_newline_closing:
  "(if z @ js ''```'' \<noteq> [] \<and> hd (z @ js ''```'') = 0x0A then tl (z @ js ''```'') else z @ js ''```'')
     = (if z \<noteq> [] \<and> hd z = 0x0A then tl z else z) @ js ''```''"
  by (cases z) (simp_all add: js_def)

lemma strip_wrapped:
  assumes nz: "\<not> sublist (js ''```'') z"
  shows "strip_code_fences (trim (js ''```json'' @ z @ js ''```'')) =
           trim (if z \<noteq> [] \<and> hd z = 0x0A then tl z else z)"
proof -
  let ?y = "if z \<noteq> [] \<and> hd z = 0x0A then tl z else z"
  have ny: "\<not> sublist (js ''```'') ?y"
    using nz by (cases z) (auto dest: no_fence_tl)
  have tx: "trim (js ''```json'' @ z @ js ''```'') = js ''```json'' @ z @ js ''```''"
    by (rule trim_unchanged) (simp_all add: js_def isWhiteSpace_def)
  have 1: "rx_replace_all re_fence_json (\<lambda>_. []) (js ''```json'' @ z @ js ''```'') = ?y @ js ''```''"
    unfolding replace_fence_json_opening skip_newline_closing
    using replace_fence_json_closing [OF ny] by simp
  have 2: "rx_replace_all re_fence (\<lambda>_. []) (?y @ js ''```'') = ?y"
    using ny by (rule replace_fence_closing)
  show ?thesis
    unfolding strip_code_fences_def tx 1 2 ..
qed

lemma strip_fenced:
  assumes nf: "\<not> sublist (js ''```'') body"
    and w1: "list_all isWhiteSpace ws1" and w2: "list_all isWhiteSpace ws2"
  shows "strip_code_fences (trim (js ''```json'' @ ws1 @ body @ ws2 @ js ''```'')) = trim body"
proof -
  let ?z = "ws1 @ body @ ws2"
  have nz: "\<not> sublist (js ''```'') ?z"
    using no_fence_ws_left [OF w1 no_fence_ws_right [OF w2 nf]] by simp
  have "trim (if ?z \<noteq> [] \<and> hd ?z = 0x0A then tl ?z else ?z) = trim ?z"
    by (cases ?z) (auto simp: trim_ws_Cons isWhiteSpace_def)
  also have "\<dots> = trim (body @ ws2)" using w1 by (rule trim_ws_append_left)
  also have "\<dots> = trim body" using w2 by (rule trim_ws_append_right)
  finally show ?thesis using strip_wrapped [OF nz] by simp
qed


text \<open>
  Claim C8. Let \<open>body\<close> be a reply that contains no code-fence marker (three backquotes).
  The reply \<open>```json\<close>, white space, \<open>body\<close>, white space, \<open>```\<close> is decoded to
  exactly what the bare \<open>body\<close> is decoded to: in both cases \<open>JSON.parse\<close> receives the
  trimmed body.
\<close>

theorem fenced_reply_decodes_alike:
  assumes "\<not> includes_str body (js ''```'')"
    and "list_all isWhiteSpace ws1" and "list_all isWhiteSpace ws2"
    and "generateContent h k call = Inr (js ''```json'' @ ws1 @ body @ ws2 @ js ''```'')"
    and "generateContent h' k' call' = Inr body"
    and "JSON_parse h' = JSON_parse h"
  shows "decode_reply h k call = decode_reply h' k' call'
         \<and> decode_reply h k call = JSON_parse h (trim body)"
proof -
  have nf: "\<not> sublist (js ''```'') body"
    using assms(1) by (simp add: includes_str_sublist)
  have "decode_reply h k call = JSON_parse h (trim body)"
    using assms(4) by (simp add: decode_reply_def strip_fenced [OF nf assms(2,3)])
  moreover have "decode_reply h' k' call' = JSON_parse h (trim body)"
    using assms(5,6) by (simp add: decode_reply_def strip_plain [OF nf])
  ultimately show ?thesis by simp
qed

theorem fenced_reply_decodes_alike_witness:
  "decode_reply
     (replying_host (js ''```json'' @ [0x0A] @ js ''{\"a\": 1}'' @ [0x0A] @ js ''```'')
        [(js ''{\"a\": 1}'', JObj [(''a'', JNum 1)])]) 0 (DiagramPrompt [])
   = decode_reply
     (replying_host (js ''{\"a\": 1}'') [(js ''{\"a\": 1}'', JObj [(''a'', JNum 1)])])
     0 (DiagramPrompt [])
   \<and> decode_reply
     (replying_host (js ''```json'' @ [0x0A] @ js ''{\"a\": 1}'' @ [0x0A] @ js ''```'')
        [(js ''{\"a\": 1}'', JObj [(''a'', JNum 1)])]) 0 (DiagramPrompt [])
   = Inr (JObj [(''a'', JNum 1)])"
proof -
  let ?body = "js ''{\"a\": 1}''"
  let ?tbl = "[(?body, JObj [(''a'', JNum 1)])]"
  let ?h = "replying_host (js ''```json'' @ [0x0A] @ ?body @ [0x0A] @ js ''```'') ?tbl"
  let ?h' = "replying_host ?body ?tbl"
  have nf: "\<not> includes_str ?body (js ''```'')"
    by code_simp
  have ws: "list_all isWhiteSpace [0x0A]"
    by (simp add: isWhiteSpace_def)
  have g: "generateContent ?h 0 (DiagramPrompt []) =
             Inr (js ''```json'' @ [0x0A] @ ?body @ [0x0A] @ js ''```'')"
    by (simp add: replying_host_def always_replies_def)
  have g': "generateContent ?h' 0 (DiagramPrompt []) = Inr ?body"
    by (simp add: replying_host_def always_replies_def)
  have p: "JSON_parse ?h' = JSON_parse ?h"
    by (simp add: replying_host_def)
  have tb: "trim ?body = ?body"
    by (rule trim_unchanged) (simp_all add: js_def isWhiteSpace_def)
  have v: "JSON_parse ?h ?body = Inr (JObj [(''a'', JNum 1)])"
    by (simp add: replying_host_def parse_table_def)
  note t = fenced_reply_decodes_alike [OF nf ws ws g g' p]
  show ?thesis by (rule t [unfolded tb v])
qed

subsection \<open>The success field of a diagram analysis\<close>

lemma map_of_replace_other:
  "k \<noteq> fst kv \<Longrightarrow> map_of (map (\<lambda>p. if fst p = fst kv then kv else p) ps) k = map_of ps k"
  by (induction ps) auto

lemma map_of_replace_same:
  "fst kv \<in> fst ` set ps \<Longrightarrow>
   map_of (map (\<lambda>p. if fst p = fst kv then kv else p) ps) (fst kv) = Some (snd kv)"
proof (induction ps)
  case Nil
  then show ?case by simp
next
  case (Cons p ps)
  show ?case
  proof (cases "fst p = fst kv")
    case True
    then show ?thesis by (cases kv) simp
  next
    case False
    with Cons.prems have "fst kv \<in> fst ` set ps" by auto
    from Cons.IH [OF this] False show ?thesis by (cases p) auto
  qed
qed

lemma map_of_set_property:
  "map_of (set_property ps kv) k = (if k = fst kv then Some (snd kv) else map_of ps k)"
proof (cases "fst kv \<in> fst ` set ps")
  case True
  then show ?thesis
    by (cases "k = fst kv") (simp_all add: set_property_def map_of_replace_same map_of_replace_other)
next
  case False
  then have "map_of ps (fst kv) = None" by (simp add: map_of_eq_None_iff)
  with False show ?thesis
    by (cases kv) (auto simp: set_property_def map_add_def split: option.splits)
qed

lemma success_of_fallback:
  "get_prop (fallbackDiagramConversion d) ''success'' = Inr (JBool True)"
  by (simp add: fallbackDiagramConversion_def)

lemma map_of_foldl_set_property:
  "map_of (foldl set_property ps kvs) k =
     (case map_of (rev kvs) k of Some v \<Rightarrow> Some v | None \<Rightarrow> map_of ps k)"
proof (induction kvs arbitrary: ps)
  case Nil
  then show ?case by simp
next
  case (Cons kv kvs)
  show ?case
    by (cases kv) (auto simp: Cons.IH map_of_set_property map_add_def split: option.splits)
qed

lemma success_of_spread_eq:
  "get_prop (JObj (object_spread [(''success'', JBool True)] parsed)) ''success'' =
     Inr (case map_of (rev (own_properties parsed)) ''success'' of
            Some v \<Rightarrow> v
          | None \<Rightarrow> JBool True)"
  by (simp add: object_spread_def map_of_foldl_set_property split: option.splits)

text \<open>
  Claim C9, as amended. The value of the fallback analyzer has \<open>success\<close> equal to
  \<open>true\<close>, and that value is returned when the client is unavailable, when an attempt
  fails with an error the wrapper does not retry, and when the last attempt fails. When
  an attempt succeeds the wrapper returns \<open>{ success: true, ...parsed }\<close>: its \<open>success\<close>
  is the \<open>success\<close> property of the decoded reply when the reply has one (the last one
  listed, should the list hold several), and \<open>true\<close> when it has none.
\<close>

theorem diagram_success_field:
  "get_prop (fallbackDiagramConversion d) ''success'' = Inr (JBool True)
   \<and> (\<not> isGeminiAvailable g \<longrightarrow>
        fst (convertDiagramWithAI h g d w) = fallbackDiagramConversion d)
   \<and> (isGeminiAvailable g \<and> n \<le> maxRetries
        \<and> (\<forall>k<n. \<exists>e. decode_reply h (length (calls w) + k) (DiagramPrompt d) = Inl e
                    \<and> isRetryable_diagram e) \<longrightarrow>
        (\<forall>parsed. decode_reply h (length (calls w) + n) (DiagramPrompt d) = Inr parsed \<longrightarrow>
           fst (convertDiagramWithAI h g d w) =
             JObj (object_spread [(''success'', JBool True)] parsed)
           \<and> get_prop (fst (convertDiagramWithAI h g d w)) ''success'' =
               Inr (case map_of (rev (own_properties parsed)) ''success'' of
                      Some v \<Rightarrow> v
                    | None \<Rightarrow> JBool True))
        \<and> (\<forall>error. decode_reply h (length (calls w) + n) (DiagramPrompt d) = Inl error
              \<and> (\<not> isRetryable_diagram error \<or> n = maxRetries) \<longrightarrow>
              fst (convertDiagramWithAI h g d w) = fallbackDiagramConversion d))"
proof (intro conjI impI allI)
  show "get_prop (fallbackDiagramConversion d) ''success'' = Inr (JBool True)"
    by (rule success_of_fallback)
  show "fst (convertDiagramWithAI h g d w) = fallbackDiagramConversion d"
    if "\<not> isGeminiAvailable g"
    using that by (auto simp: convertDiagramWithAI_def isGeminiAvailable_def)
next
  fix parsed
  assume p: "isGeminiAvailable g \<and> n \<le> maxRetries
        \<and> (\<forall>k<n. \<exists>e. decode_reply h (length (calls w) + k) (DiagramPrompt d) = Inl e
                    \<and> isRetryable_diagram e)"
    and ok: "decode_reply h (length (calls w) + n) (DiagramPrompt d) = Inr parsed"
  from p have a: "isGeminiAvailable g" and n: "n \<le> maxRetries"
    and pre: "\<forall>k<n. \<exists>e. decode_reply h (length (calls w) + k) (DiagramPrompt d) = Inl e
                    \<and> isRetryable_diagram e"
    by simp_all
  show r: "fst (convertDiagramWithAI h g d w) =
             JObj (object_spread [(''success'', JBool True)] parsed)"
    by (rule diagram_prefix_success(1) [OF a n pre ok])
  show "get_prop (fst (convertDiagramWithAI h g d w)) ''success'' =
               Inr (case map_of (rev (own_properties parsed)) ''success'' of
                      Some v \<Rightarrow> v
                    | None \<Rightarrow> JBool True)"
    unfolding r by (rule success_of_spread_eq)
next
  fix error
  assume p: "isGeminiAvailable g \<and> n \<le> maxRetries
        \<and> (\<forall>k<n. \<exists>e. decode_reply h (length (calls w) + k) (DiagramPrompt d) = Inl e
                    \<and> isRetryable_diagram e)"
    and e: "decode_reply h (length (calls w) + n) (DiagramPrompt d) = Inl error
              \<and> (\<not> isRetryable_diagram error \<or> n = maxRetries)"
  from p have a: "isGeminiAvailable g" and n: "n \<le> maxRetries"
    and pre: "\<forall>k<n. \<exists>e. decode_reply h (length (calls w) + k) (DiagramPrompt d) = Inl e
                    \<and> isRetryable_diagram e"
    by simp_all
  from e have err: "decode_reply h (length (calls w) + n) (DiagramPrompt d) = Inl error"
    and stop: "\<not> isRetryable_diagram error \<or> n = maxRetries"
    by simp_all
  show "fst (convertDiagramWithAI h g d w) = fallbackDiagramConversion d"
    by (rule diagram_prefix_stop(1) [OF a n pre err stop])
qed

text \<open>A reply without a \<open>success\<close> property gives \<open>true\<close>.\<close>

theorem diagram_success_field_witness:
  "isGeminiAvailable gemini_ready \<and> (0::nat) \<le> maxRetries
   \<and> get_prop (fst (convertDiagramWithAI
      (replying_host (js ''{\"title\": \"T\"}'') [(js ''{\"title\": \"T\"}'', JObj [(''title'', JStr (js ''T''))])])
      gemini_ready (js ''+--+'') initial_world)) ''success'' = Inr (JBool True)"
proof -
  let ?h = "replying_host (js ''{\"title\": \"T\"}'')
              [(js ''{\"title\": \"T\"}'', JObj [(''title'', JStr (js ''T''))])]"
  have a: "isGeminiAvailable gemini_ready"
    by (simp add: isGeminiAvailable_def gemini_ready_def)
  have s: "strip_code_fences (trim (js ''{\"title\": \"T\"}'')) = js ''{\"title\": \"T\"}''"
    by code_simp
  have d: "decode_reply ?h k (DiagramPrompt (js ''+--+'')) = Inr (JObj [(''title'', JStr (js ''T''))])" for k
    by (simp add: decode_reply_def replying_host_def always_replies_def s parse_table_def)
  note t = diagram_success_field [of "js ''+--+''" gemini_ready ?h initial_world 0,
      THEN conjunct2, THEN conjunct2, THEN mp, THEN conjunct1, THEN spec, THEN mp,
      THEN conjunct2]
  have "get_prop (fst (convertDiagramWithAI ?h gemini_ready (js ''+--+'') initial_world)) ''success''
          = Inr (case map_of (rev (own_properties (JObj [(''title'', JStr (js ''T''))]))) ''success'' of
                   Some v \<Rightarrow> v
                 | None \<Rightarrow> JBool True)"
    by (rule t) (simp_all add: a d)
  then have "get_prop (fst (convertDiagramWithAI ?h gemini_ready (js ''+--+'') initial_world)) ''success''
          = Inr (JBool True)"
    by simp
  then show ?thesis using a by simp
qed

text \<open>
  Claim C9 as stated fails: when the backend replies \<open>{"success": false}\<close>, the value
  returned has \<open>success\<close> equal to \<open>false\<close>.
\<close>

theorem diagram_success_counterexample:
  "get_prop (fst (convertDiagramWithAI
      (replying_host (js ''{\"success\": false}'')
         [(js ''{\"success\": false}'', JObj [(''success'', JBool False)])])
      gemini_ready (js ''+--+'') initial_world)) ''success'' = Inr (JBool False)"
proof -
  let ?h = "replying_host (js ''{\"success\": false}'')
              [(js ''{\"success\": false}'', JObj [(''success'', JBool False)])]"
  have s: "strip_code_fences (trim (js ''{\"success\": false}'')) = js ''{\"success\": false}''"
    by code_simp
  have d: "decode_reply ?h k (DiagramPrompt (js ''+--+'')) = Inr (JObj [(''success'', JBool False)])" for k
    by (simp add: decode_reply_def replying_host_def always_replies_def s parse_table_def)
  have r: "fst (convertDiagramWithAI ?h gemini_ready (js ''+--+'') initial_world) =
             JObj (object_spread [(''success'', JBool True)] (JObj [(''success'', JBool False)]))"
    by (simp add: convertDiagramWithAI_def gemini_ready_def diagram_loop_step maxRetries_def d)
  show ?thesis unfolding r by (simp add: object_spread_def set_property_def)
qed

end
